theory Spec2Isabelle
  imports Complex_Main "HOL-Library.Monad_Syntax"
begin

section \<open>Data model of the optimisation back end (problem.cc)\<close>

text \<open>
  The development follows \<^verbatim>\<open>Ch8/src/backend/problem.cc\<close>. Numbers of type
  \<^verbatim>\<open>double\<close> are real numbers here: rounding is not modelled. The places where
  the code depends on a non-finite value (\<^verbatim>\<open>isfinite\<close>, a division by zero, the
  square root of a negative number) are written out as branches of their own.
  A run that stops in an assertion (one of the source, or one of Eigen's size and range
  checks) has the value \<open>None\<close>. Timing and the cost log file are left out.
  A name of the source that ends in an underscore, such as \<^verbatim>\<open>currentChi_\<close>, is
  written with the suffix \<open>_m\<close> here (\<open>currentChi_m\<close>).
\<close>

datatype ProblemType = SLAM_PROBLEM | GENERIC_PROBLEM

text \<open>\<^verbatim>\<open>VecX\<close> is a dynamic vector, \<^verbatim>\<open>MatXX\<close> a dynamic dense matrix with its
  two sizes and its coefficients.\<close>

type_synonym VecX = "real list"

record MatXX =
  rows :: nat
  cols :: nat
  coeff :: "nat \<Rightarrow> nat \<Rightarrow> real"

text \<open>
  Modelled from the spec: the vertex class (\<^verbatim>\<open>vertex.h\<close> is not part of the
  sources). The core knows of a vertex its type tag, its local dimension, its ordering id
  (\<open>-1\<close> when unassigned), its fixed flag, its parameters and their backup.
\<close>

record Vertex =
  TypeInfo :: string
  LocalDimension :: nat
  OrderingId :: int
  IsFixed :: bool
  parameters_m :: VecX
  parameters_backup_m :: VecX

text \<open>
  Modelled from the spec: the edge class (\<^verbatim>\<open>edge.h\<close> is not part of the sources).
  An edge holds the ids of its vertices in its own order, its information matrix and the
  residual and Jacobians it computed last.
\<close>

record Edge =
  EdgeId :: nat
  Verticies :: "nat list"
  Information :: MatXX
  residual_m :: VecX
  jacobians_m :: "MatXX list"

text \<open>
  Modelled from the spec: the operations the core only calls. \<open>ldlt_solve\<close> and
  \<open>inverse_m\<close> stand for Eigen's \<^verbatim>\<open>ldlt().solve\<close> and \<^verbatim>\<open>inverse()\<close>,
  \<open>Plus_v\<close> for the retraction of a vertex (it returns the new parameters),
  \<open>ComputeResidual\<close> and \<open>ComputeJacobians\<close> for the residual model of an edge
  (they read the parameters of the edge's vertices), \<open>RobustInfo\<close> for the pair
  \<open>(drho, robust information)\<close> and \<open>RobustChi2\<close> for the cost of an edge, \<open>None\<close>
  when that cost is not a finite number.
\<close>

record externals =
  ldlt_solve :: "MatXX \<Rightarrow> VecX \<Rightarrow> VecX"
  inverse_m :: "MatXX \<Rightarrow> MatXX"
  Plus_v :: "Vertex \<Rightarrow> VecX \<Rightarrow> VecX"
  ComputeResidual :: "Edge \<Rightarrow> VecX list \<Rightarrow> VecX"
  ComputeJacobians :: "Edge \<Rightarrow> VecX list \<Rightarrow> MatXX list"
  RobustInfo :: "Edge \<Rightarrow> real \<times> MatXX"
  RobustChi2 :: "Edge \<Rightarrow> real option"

text \<open>
  The members of \<^verbatim>\<open>Problem\<close>. Vertex objects are shared between the maps of
  the problem and the edges; \<open>store\<close> holds them by id (the id of a vertex is unique and
  never changes), and the maps \<^verbatim>\<open>verticies_\<close>, \<^verbatim>\<open>idx_pose_vertices_\<close> and
  \<^verbatim>\<open>idx_landmark_vertices_\<close> are the lists of their keys in ascending order.
  \<^verbatim>\<open>edges_\<close> is the list of its entries in ascending order of the key.
  \<^verbatim>\<open>edges_idx_\<close> is the vector of edge ids that every assembly of the Hessian
  appends to and nothing clears.
\<close>

record Problem =
  problemType_m :: ProblemType
  store :: "nat \<Rightarrow> Vertex"
  verticies_m :: "nat list"
  edges_m :: "(nat \<times> Edge) list"
  edges_idx_m :: "nat list"
  idx_pose_vertices_m :: "nat list"
  idx_landmark_vertices_m :: "nat list"
  ordering_poses_m :: nat
  ordering_landmarks_m :: nat
  ordering_generic_m :: nat
  Hessian_m :: MatXX
  b_m :: VecX
  delta_x_m :: VecX
  H_prior_m :: MatXX
  b_prior_m :: VecX
  b_prior_backup_m :: VecX
  err_prior_m :: VecX
  err_prior_backup_m :: VecX
  Jt_prior_inv_m :: MatXX
  currentLambda_m :: real
  currentChi_m :: real
  stopThresholdLM_m :: real
  ni_m :: real
  currentRadius_m :: real
  stopThresholdDogLeg_m :: real
  alpha_m :: real
  beta_m :: real
  h_gn_m :: VecX
  h_sd_m :: VecX
  h_dl_m :: VecX

text \<open>\<^verbatim>\<open>MatXX::Zero(r, c)\<close>.\<close>

definition MatXX_Zero :: "nat \<Rightarrow> nat \<Rightarrow> MatXX" where
  "MatXX_Zero r c = \<lparr>rows = r, cols = c, coeff = (\<lambda>i j. 0)\<rparr>"

section \<open>Vectors\<close>

definition squaredNorm :: "VecX \<Rightarrow> real" where
  "squaredNorm v = (\<Sum>x\<leftarrow>v. x * x)"

definition norm_v :: "VecX \<Rightarrow> real" where
  "norm_v v = sqrt (squaredNorm v)"

definition dot :: "VecX \<Rightarrow> VecX \<Rightarrow> real" where
  "dot u v = (\<Sum>(x, y)\<leftarrow>zip u v. x * y)"

definition vadd :: "VecX \<Rightarrow> VecX \<Rightarrow> VecX" where
  "vadd u v = map2 (+) u v"

definition vsub :: "VecX \<Rightarrow> VecX \<Rightarrow> VecX" where
  "vsub u v = map2 (-) u v"

definition smult :: "real \<Rightarrow> VecX \<Rightarrow> VecX" where
  "smult c v = map ((*) c) v"

section \<open>Cost of the graph\<close>

definition edge_ComputeResidual :: "externals \<Rightarrow> (nat \<Rightarrow> Vertex) \<Rightarrow> Edge \<Rightarrow> Edge" where
  "edge_ComputeResidual ext st e =
     e\<lparr>residual_m := ComputeResidual ext e (map (\<lambda>k. parameters_m (st k)) (Verticies e))\<rparr>"

text \<open>The loop \<^verbatim>\<open>tempChi += edge.second->RobustChi2()\<close>; the sum stays non-finite
  once a term is.\<close>

fun add_chi2 :: "externals \<Rightarrow> real option \<Rightarrow> Edge list \<Rightarrow> real option" where
  "add_chi2 ext acc [] = acc"
| "add_chi2 ext acc (e # es) =
     add_chi2 ext
       (case acc of None \<Rightarrow> None
        | Some a \<Rightarrow> (case RobustChi2 ext e of None \<Rightarrow> None | Some c \<Rightarrow> Some (a + c)))
       es"

section \<open>Step acceptance of Levenberg-Marquardt\<close>

definition LM_scaleFactor :: "real \<Rightarrow> real" where
  "LM_scaleFactor rho =
     (let alpha = 1 - (2 * rho - 1) ^ 3;
          alpha = min alpha (2 / 3)
      in max (1 / 3) alpha)"

definition LM_scale :: "Problem \<Rightarrow> real" where
  "LM_scale p =
     0.5 * dot (delta_x_m p) (vadd (smult (currentLambda_m p) (delta_x_m p)) (b_m p)) + 1 / 10 ^ 6"

definition LM_tempChi :: "externals \<Rightarrow> Problem \<Rightarrow> real option" where
  "LM_tempChi ext p =
     (let es = map (\<lambda>(k, e). edge_ComputeResidual ext (store p) e) (edges_m p);
          tempChi = add_chi2 ext (Some 0) es;
          tempChi = (if length (err_prior_m p) > 0
                     then map_option (\<lambda>t. t + squaredNorm (err_prior_m p)) tempChi
                     else tempChi)
      in map_option (\<lambda>t. t * 0.5) tempChi)"

text \<open>
  \<^verbatim>\<open>Problem::IsGoodStepInLM\<close>. The sizes of \<^verbatim>\<open>delta_x_\<close> and \<^verbatim>\<open>b_\<close>
  must agree for their sum. When \<open>scale\<close> is zero the quotient \<open>rho\<close> is not a
  number of the model: it is \<open>+inf\<close> when the cost dropped, and then the step is accepted
  with \<open>alpha = -inf\<close>, so with the factor \<open>1/3\<close>; otherwise it is \<open>-inf\<close> or NaN
  and the step is rejected.
\<close>

definition IsGoodStepInLM :: "externals \<Rightarrow> Problem \<Rightarrow> (bool \<times> Problem) option" where
  "IsGoodStepInLM ext p =
     (if length (delta_x_m p) \<noteq> length (b_m p) then None
      else
        let scale = LM_scale p;
            p1 = p\<lparr>edges_m := map (\<lambda>(k, e). (k, edge_ComputeResidual ext (store p) e)) (edges_m p)\<rparr>;
            reject = (False, p1\<lparr>currentLambda_m := currentLambda_m p * ni_m p, ni_m := ni_m p * 2\<rparr>)
        in case LM_tempChi ext p of
             None \<Rightarrow> Some reject
           | Some tempChi \<Rightarrow>
               if scale = 0 then
                 (if currentChi_m p - tempChi > 0
                  then Some (True, p1\<lparr>currentLambda_m := currentLambda_m p * (1 / 3), ni_m := 2,
                                      currentChi_m := tempChi\<rparr>)
                  else Some reject)
               else
                 let rho = (currentChi_m p - tempChi) / scale in
                 if rho > 0
                 then Some (True, p1\<lparr>currentLambda_m := currentLambda_m p * LM_scaleFactor rho,
                                     ni_m := 2, currentChi_m := tempChi\<rparr>)
                 else Some reject)"

section \<open>Ordering of the vertices\<close>

definition IsPoseVertex :: "Vertex \<Rightarrow> bool" where
  "IsPoseVertex v \<longleftrightarrow> TypeInfo v = ''VertexPose'' \<or> TypeInfo v = ''VertexSpeedBias''"

definition IsLandmarkVertex :: "Vertex \<Rightarrow> bool" where
  "IsLandmarkVertex v \<longleftrightarrow> TypeInfo v = ''VertexPointXYZ'' \<or> TypeInfo v = ''VertexInverseDepth''"

text \<open>Modelled from the spec: the setter of the ordering id of a vertex.\<close>

definition SetOrderingId :: "nat \<Rightarrow> int \<Rightarrow> (nat \<Rightarrow> Vertex) \<Rightarrow> (nat \<Rightarrow> Vertex)" where
  "SetOrderingId k n st = st(k := (st k)\<lparr>OrderingId := n\<rparr>)"

text \<open>\<^verbatim>\<open>std::map::insert\<close> on the keys: an existing key is kept, a new one is
  put at its place in ascending order.\<close>

definition map_insert :: "nat \<Rightarrow> nat list \<Rightarrow> nat list" where
  "map_insert k ks = (if k \<in> set ks then ks else insort k ks)"

definition AddOrderingSLAM :: "nat \<Rightarrow> Problem \<Rightarrow> Problem" where
  "AddOrderingSLAM k p =
     (let v = store p k in
      if IsPoseVertex v then
        p\<lparr>store := SetOrderingId k (int (ordering_poses_m p)) (store p),
          idx_pose_vertices_m := map_insert k (idx_pose_vertices_m p),
          ordering_poses_m := ordering_poses_m p + LocalDimension v\<rparr>
      else if IsLandmarkVertex v then
        p\<lparr>store := SetOrderingId k (int (ordering_landmarks_m p)) (store p),
          ordering_landmarks_m := ordering_landmarks_m p + LocalDimension v,
          idx_landmark_vertices_m := map_insert k (idx_landmark_vertices_m p)\<rparr>
      else p)"

text \<open>The body of the loop of \<^verbatim>\<open>Problem::SetOrdering\<close> over \<^verbatim>\<open>verticies_\<close>,
  and the loop.\<close>

definition SetOrdering_visit :: "nat \<Rightarrow> Problem \<Rightarrow> Problem" where
  "SetOrdering_visit k p =
     (let p = p\<lparr>ordering_generic_m := ordering_generic_m p + LocalDimension (store p k)\<rparr>
      in if problemType_m p = SLAM_PROBLEM then AddOrderingSLAM k p else p)"

fun SetOrdering_walk :: "nat list \<Rightarrow> Problem \<Rightarrow> Problem" where
  "SetOrdering_walk [] p = p"
| "SetOrdering_walk (k # ks) p = SetOrdering_walk ks (SetOrdering_visit k p)"

text \<open>The loop over \<^verbatim>\<open>idx_landmark_vertices_\<close> that adds the dimension of all
  poses to the ordering id of each landmark.\<close>

fun shift_landmarks :: "nat \<Rightarrow> nat list \<Rightarrow> (nat \<Rightarrow> Vertex) \<Rightarrow> (nat \<Rightarrow> Vertex)" where
  "shift_landmarks d [] st = st"
| "shift_landmarks d (k # ks) st =
     shift_landmarks d ks (SetOrderingId k (OrderingId (st k) + int d) st)"

definition SetOrdering :: "Problem \<Rightarrow> Problem" where
  "SetOrdering p =
     (let p = p\<lparr>ordering_poses_m := 0, ordering_generic_m := 0, ordering_landmarks_m := 0\<rparr>;
          p = SetOrdering_walk (verticies_m p) p
      in if problemType_m p = SLAM_PROBLEM
         then p\<lparr>store := shift_landmarks (ordering_poses_m p) (idx_landmark_vertices_m p) (store p)\<rparr>
         else p)"

text \<open>\<^verbatim>\<open>Problem::CheckOrdering\<close>: the walks return the running offset, and
  \<open>None\<close> when the assertion fails.\<close>

fun CheckOrdering_walk :: "(nat \<Rightarrow> Vertex) \<Rightarrow> nat list \<Rightarrow> int \<Rightarrow> int option" where
  "CheckOrdering_walk st [] cur = Some cur"
| "CheckOrdering_walk st (k # ks) cur =
     (if OrderingId (st k) = cur
      then CheckOrdering_walk st ks (cur + int (LocalDimension (st k)))
      else None)"

definition CheckOrdering :: "Problem \<Rightarrow> bool option" where
  "CheckOrdering p =
     (if problemType_m p = SLAM_PROBLEM then
        (case CheckOrdering_walk (store p) (idx_pose_vertices_m p) 0 of
           None \<Rightarrow> None
         | Some cur \<Rightarrow>
             (case CheckOrdering_walk (store p) (idx_landmark_vertices_m p) cur of
                None \<Rightarrow> None
              | Some cur' \<Rightarrow> Some True))
      else Some True)"

text \<open>
  What \<^verbatim>\<open>std::map\<close> and the bookkeeping of \<^verbatim>\<open>AddVertex\<close>,
  \<^verbatim>\<open>RemoveVertex\<close> and \<^verbatim>\<open>AddOrderingSLAM\<close> give: keys are in ascending order
  without repetition, and the two index maps of the SLAM mode hold only vertices of the
  problem, pose-like ones in the first and landmark-like ones in the second.
\<close>

definition maps_wf :: "Problem \<Rightarrow> bool" where
  "maps_wf p \<longleftrightarrow>
     sorted (verticies_m p) \<and> distinct (verticies_m p) \<and>
     sorted (idx_pose_vertices_m p) \<and> distinct (idx_pose_vertices_m p) \<and>
     sorted (idx_landmark_vertices_m p) \<and> distinct (idx_landmark_vertices_m p) \<and>
     (\<forall>k\<in>set (idx_pose_vertices_m p). k \<in> set (verticies_m p) \<and> IsPoseVertex (store p k)) \<and>
     (\<forall>k\<in>set (idx_landmark_vertices_m p).
        k \<in> set (verticies_m p) \<and> IsLandmarkVertex (store p k))"

text \<open>The sum of the local dimensions of the vertices with the given ids.\<close>

definition dims :: "(nat \<Rightarrow> Vertex) \<Rightarrow> nat list \<Rightarrow> nat" where
  "dims st ks = (\<Sum>k\<leftarrow>ks. LocalDimension (st k))"

section \<open>State update and rollback\<close>

text \<open>The product of a matrix and a vector; the callers check the sizes as Eigen does.\<close>

definition mat_vec :: "MatXX \<Rightarrow> VecX \<Rightarrow> VecX" where
  "mat_vec M v = map (\<lambda>i. \<Sum>j\<leftarrow>[0..<cols M]. coeff M i j * v ! j) [0..<rows M]"

text \<open>Modelled from the spec: the capabilities \<^verbatim>\<open>back_up\<close> and \<^verbatim>\<open>roll_back\<close> of a
  vertex (\<^verbatim>\<open>vertex.h\<close> is not part of the sources): the first saves the parameters,
  the second restores the saved ones.\<close>

definition BackUpParameters :: "Vertex \<Rightarrow> Vertex" where
  "BackUpParameters v = v\<lparr>parameters_backup_m := parameters_m v\<rparr>"

definition RollBackParameters :: "Vertex \<Rightarrow> Vertex" where
  "RollBackParameters v = v\<lparr>parameters_m := parameters_backup_m v\<rparr>"

text \<open>
  \<^verbatim>\<open>Problem::UpdateStates\<close>, first the loop over \<^verbatim>\<open>verticies_\<close>.
  \<^verbatim>\<open>delta_x_.segment(idx, dim)\<close> must lie inside \<^verbatim>\<open>delta_x_\<close>; an ordering id of
  \<open>-1\<close> read as \<^verbatim>\<open>ulong\<close> lies outside.
\<close>

fun UpdateStates_vertices ::
  "externals \<Rightarrow> VecX \<Rightarrow> nat list \<Rightarrow> (nat \<Rightarrow> Vertex) \<Rightarrow> (nat \<Rightarrow> Vertex) option" where
  "UpdateStates_vertices ext dx [] st = Some st"
| "UpdateStates_vertices ext dx (k # ks) st =
     (let v = BackUpParameters (st k);
          idx = OrderingId v;
          dim = LocalDimension v
      in if idx < 0 \<or> length dx < nat idx + dim then None
         else
           let delta = take dim (drop (nat idx) dx)
           in UpdateStates_vertices ext dx ks (st(k := v\<lparr>parameters_m := Plus_v ext v delta\<rparr>)))"

text \<open>
  The update of the prior. The products need \<^verbatim>\<open>H_prior_\<close> to have
  \<^verbatim>\<open>ordering_poses_\<close> columns and as many rows as \<^verbatim>\<open>b_prior_\<close>, and
  \<^verbatim>\<open>Jt_prior_inv_\<close> to have \<^verbatim>\<open>ordering_poses_ - 15\<close> columns; the unsigned
  difference \<^verbatim>\<open>ordering_poses_ - 15\<close> wraps below 15 and is then out of range for
  \<^verbatim>\<open>head\<close>.
\<close>

definition UpdateStates_prior :: "Problem \<Rightarrow> Problem option" where
  "UpdateStates_prior p =
     (if length (err_prior_m p) > 0 then
        let p = p\<lparr>b_prior_backup_m := b_prior_m p, err_prior_backup_m := err_prior_m p\<rparr>
        in if length (delta_x_m p) < ordering_poses_m p
              \<or> cols (H_prior_m p) \<noteq> ordering_poses_m p
              \<or> rows (H_prior_m p) \<noteq> length (b_prior_m p) then None
           else
             let p = p\<lparr>b_prior_m := vsub (b_prior_m p)
                          (mat_vec (H_prior_m p) (take (ordering_poses_m p) (delta_x_m p)))\<rparr>
             in if ordering_poses_m p < 15
                   \<or> length (b_prior_m p) < ordering_poses_m p - 15
                   \<or> cols (Jt_prior_inv_m p) \<noteq> ordering_poses_m p - 15 then None
                else Some (p\<lparr>err_prior_m := map uminus
                          (mat_vec (Jt_prior_inv_m p) (take (ordering_poses_m p - 15) (b_prior_m p)))\<rparr>)
      else Some p)"

definition UpdateStates :: "externals \<Rightarrow> Problem \<Rightarrow> Problem option" where
  "UpdateStates ext p =
     (case UpdateStates_vertices ext (delta_x_m p) (verticies_m p) (store p) of
        None \<Rightarrow> None
      | Some st \<Rightarrow> UpdateStates_prior (p\<lparr>store := st\<rparr>))"

text \<open>\<^verbatim>\<open>Problem::RollbackStates\<close>.\<close>

fun RollbackStates_vertices :: "nat list \<Rightarrow> (nat \<Rightarrow> Vertex) \<Rightarrow> (nat \<Rightarrow> Vertex)" where
  "RollbackStates_vertices [] st = st"
| "RollbackStates_vertices (k # ks) st =
     RollbackStates_vertices ks (st(k := RollBackParameters (st k)))"

definition RollbackStates :: "Problem \<Rightarrow> Problem" where
  "RollbackStates p =
     (let p = p\<lparr>store := RollbackStates_vertices (verticies_m p) (store p)\<rparr>
      in if length (err_prior_m p) > 0
         then p\<lparr>b_prior_m := b_prior_backup_m p, err_prior_m := err_prior_backup_m p\<rparr>
         else p)"

section \<open>Matrices\<close>

text \<open>The operations of Eigen that the code uses. Each of them has a size or range
  condition that Eigen checks by assertion; the callers below test it before the call.\<close>

definition block :: "MatXX \<Rightarrow> nat \<Rightarrow> nat \<Rightarrow> nat \<Rightarrow> nat \<Rightarrow> MatXX" where
  "block M i j r c = \<lparr>rows = r, cols = c, coeff = (\<lambda>a b. coeff M (i + a) (j + b))\<rparr>"

definition block_ok :: "MatXX \<Rightarrow> nat \<Rightarrow> nat \<Rightarrow> nat \<Rightarrow> nat \<Rightarrow> bool" where
  "block_ok M i j r c \<longleftrightarrow> i + r \<le> rows M \<and> j + c \<le> cols M"

definition in_block :: "nat \<Rightarrow> nat \<Rightarrow> nat \<Rightarrow> nat \<Rightarrow> nat \<Rightarrow> nat \<Rightarrow> bool" where
  "in_block i j r c a b \<longleftrightarrow> i \<le> a \<and> a < i + r \<and> j \<le> b \<and> b < j + c"

definition add_block :: "MatXX \<Rightarrow> nat \<Rightarrow> nat \<Rightarrow> MatXX \<Rightarrow> MatXX" where
  "add_block M i j B =
     M\<lparr>coeff := (\<lambda>a b. if in_block i j (rows B) (cols B) a b
                         then coeff M a b + coeff B (a - i) (b - j) else coeff M a b)\<rparr>"

definition set_block :: "MatXX \<Rightarrow> nat \<Rightarrow> nat \<Rightarrow> MatXX \<Rightarrow> MatXX" where
  "set_block M i j B =
     M\<lparr>coeff := (\<lambda>a b. if in_block i j (rows B) (cols B) a b
                         then coeff B (a - i) (b - j) else coeff M a b)\<rparr>"

definition transpose_m :: "MatXX \<Rightarrow> MatXX" where
  "transpose_m M = \<lparr>rows = cols M, cols = rows M, coeff = (\<lambda>a b. coeff M b a)\<rparr>"

definition mat_mul :: "MatXX \<Rightarrow> MatXX \<Rightarrow> MatXX" where
  "mat_mul A B = \<lparr>rows = rows A, cols = cols B,
     coeff = (\<lambda>a b. \<Sum>k\<leftarrow>[0..<cols A]. coeff A a k * coeff B k b)\<rparr>"

definition mat_sub :: "MatXX \<Rightarrow> MatXX \<Rightarrow> MatXX" where
  "mat_sub A B = \<lparr>rows = rows A, cols = cols A, coeff = (\<lambda>a b. coeff A a b - coeff B a b)\<rparr>"

text \<open>The loop \<^verbatim>\<open>for (i = 0; i < n; i++) M(i, i) += lambda\<close>.\<close>

definition add_diagonal :: "nat \<Rightarrow> real \<Rightarrow> MatXX \<Rightarrow> MatXX" where
  "add_diagonal n lambda M =
     M\<lparr>coeff := (\<lambda>a b. if a = b \<and> a < n then coeff M a b + lambda else coeff M a b)\<rparr>"

section \<open>Linear solvers\<close>

text \<open>
  The loop of \<^verbatim>\<open>SolveLinearWithSchur\<close> over the landmark vertices, which inverts the
  diagonal blocks of \<open>Hss\<close>. The offset \<^verbatim>\<open>OrderingId() - reserve_size\<close> is an
  \<^verbatim>\<open>int\<close>; the block must lie inside the matrix, and the inverse must have the size of
  the block.
\<close>

fun Hss_inv_blocks ::
  "externals \<Rightarrow> (nat \<Rightarrow> Vertex) \<Rightarrow> nat \<Rightarrow> MatXX \<Rightarrow> nat list \<Rightarrow> MatXX \<Rightarrow> MatXX option" where
  "Hss_inv_blocks ext st reserve_size Hss [] Hss_inv = Some Hss_inv"
| "Hss_inv_blocks ext st reserve_size Hss (k # ks) Hss_inv =
     (let idx = OrderingId (st k) - int reserve_size;
          size = LocalDimension (st k)
      in if idx < 0 \<or> \<not> block_ok Hss (nat idx) (nat idx) size size then None
         else
           let inv = inverse_m ext (block Hss (nat idx) (nat idx) size size)
           in if rows inv \<noteq> size \<or> cols inv \<noteq> size then None
              else Hss_inv_blocks ext st reserve_size Hss ks
                     (set_block Hss_inv (nat idx) (nat idx) inv))"

text \<open>
  \<^verbatim>\<open>Problem::SolveLinearWithSchur\<close>. The result is the new value of the vector passed
  as \<^verbatim>\<open>delta_x\<close>. The damping added to the diagonal is the member
  \<^verbatim>\<open>currentLambda_\<close>; the parameter \<^verbatim>\<open>lambda\<close> is not used by the source. The
  solver returns a vector of the size of the system.
\<close>

definition SolveLinearWithSchur ::
  "externals \<Rightarrow> Problem \<Rightarrow> MatXX \<Rightarrow> VecX \<Rightarrow> VecX \<Rightarrow> nat \<Rightarrow> nat \<Rightarrow> nat list \<Rightarrow> real \<Rightarrow> VecX option" where
  "SolveLinearWithSchur ext p Hessian b delta_x reserve_size schur_size schur_vertices lambda =
     (if \<not> block_ok Hessian 0 0 reserve_size reserve_size
         \<or> \<not> block_ok Hessian reserve_size reserve_size schur_size schur_size
         \<or> length b < reserve_size \<or> length b < schur_size then None
      else
        let Hrr = block Hessian 0 0 reserve_size reserve_size;
            Hss = block Hessian reserve_size reserve_size schur_size schur_size;
            Hrs = block Hessian 0 reserve_size reserve_size schur_size;
            Hsr = block Hessian reserve_size 0 schur_size reserve_size;
            brr = take reserve_size b;
            bss = drop (length b - schur_size) b
        in case Hss_inv_blocks ext (store p) reserve_size Hss schur_vertices
                  (MatXX_Zero schur_size schur_size) of
             None \<Rightarrow> None
           | Some Hss_inv \<Rightarrow>
               let tempH = mat_mul Hrs Hss_inv;
                   Hrr_schur = mat_sub Hrr (mat_mul tempH Hsr);
                   brr_schur = vsub brr (mat_vec tempH bss);
                   Hrr_schur = add_diagonal reserve_size (currentLambda_m p) Hrr_schur;
                   x_rr = ldlt_solve ext Hrr_schur brr_schur
               in if length x_rr \<noteq> reserve_size \<or> length delta_x < reserve_size
                     \<or> length delta_x < schur_size then None
                  else
                    let delta_x = x_rr @ drop reserve_size delta_x;
                        x_ss = mat_vec Hss_inv (vsub bss (mat_vec Hsr x_rr))
                    in Some (take (length delta_x - schur_size) delta_x @ x_ss))"

text \<open>\<^verbatim>\<open>Problem::SolveLinearSystem\<close>. \<^verbatim>\<open>ldlt\<close> needs a square matrix and
  \<^verbatim>\<open>solve\<close> a right-hand side with as many rows.\<close>

definition SolveLinearSystem :: "externals \<Rightarrow> Problem \<Rightarrow> Problem option" where
  "SolveLinearSystem ext p =
     (if problemType_m p = GENERIC_PROBLEM then
        let H = add_diagonal (cols (Hessian_m p)) (currentLambda_m p) (Hessian_m p)
        in if rows H \<noteq> cols H \<or> rows H \<noteq> length (b_m p) then None
           else Some (p\<lparr>delta_x_m := ldlt_solve ext H (b_m p)\<rparr>)
      else
        let reserve_size = ordering_poses_m p;
            marg_size = ordering_landmarks_m p
        in case SolveLinearWithSchur ext p (Hessian_m p) (b_m p) (delta_x_m p) reserve_size
                  marg_size (idx_landmark_vertices_m p) (currentLambda_m p) of
             None \<Rightarrow> None
           | Some dx \<Rightarrow> Some (p\<lparr>delta_x_m := dx\<rparr>))"

section \<open>The Dog-Leg step\<close>

text \<open>
  The interpolation parameter of the interior case and its assertion
  \<^verbatim>\<open>assert(beta_ > 0.0 && beta_ < 1.0)\<close>. The result is \<open>None\<close> when the assertion
  fails; it fails as well when \<open>beta\<close> is not a number: when the argument of the square
  root is negative, and when the divisor \<open>(b - a).squaredNorm()\<close> is zero.
\<close>

definition DogLeg_beta :: "VecX \<Rightarrow> VecX \<Rightarrow> real \<Rightarrow> real option" where
  "DogLeg_beta a b radius =
     (let c = dot a (vsub b a);
          arg = c * c + squaredNorm (vsub b a) * (radius * radius - squaredNorm a)
      in if arg < 0 then None
         else
           let sqrt_scale = sqrt arg in
           if c \<le> 0 then
             (if squaredNorm (vsub b a) = 0 then None
              else
                let beta = (- c + sqrt_scale) / squaredNorm (vsub b a)
                in if beta > 0 \<and> beta < 1 then Some beta else None)
           else
             let beta = (radius * radius - squaredNorm a) / (c + sqrt_scale)
             in if beta > 0 \<and> beta < 1 then Some beta else None)"

text \<open>
  \<^verbatim>\<open>Problem::SolveDogLegStep\<close>. When the divisor \<open>b\<^sup>T H b\<close> of \<^verbatim>\<open>alpha_\<close> is
  zero, \<^verbatim>\<open>alpha_\<close> is infinite or NaN: the model keeps \<open>0\<close> for it when the
  Gauss-Newton step is taken (then nothing reads \<^verbatim>\<open>alpha_\<close> before the next step
  overwrites it) and does not follow the run otherwise. It does not follow the division
  by a zero norm of \<^verbatim>\<open>h_sd_\<close> either.
\<close>

definition SolveDogLegStep :: "externals \<Rightarrow> Problem \<Rightarrow> Problem option" where
  "SolveDogLegStep ext p =
     (let p = p\<lparr>h_gn_m := replicate (length (delta_x_m p)) 0\<rparr>
      in case
           (if problemType_m p = GENERIC_PROBLEM then
              let H = Hessian_m p
              in if rows H \<noteq> cols H \<or> rows H \<noteq> length (b_m p) then None
                 else Some (ldlt_solve ext H (b_m p))
            else
              let reserve_size = ordering_poses_m p;
                  schur_size = ordering_landmarks_m p
              in SolveLinearWithSchur ext p (Hessian_m p) (b_m p) (h_gn_m p) reserve_size
                   schur_size (idx_landmark_vertices_m p) (currentLambda_m p))
         of None \<Rightarrow> None
          | Some h_gn \<Rightarrow>
              if cols (Hessian_m p) \<noteq> length (b_m p) \<or> rows (Hessian_m p) \<noteq> length (b_m p)
              then None
              else
                let p = p\<lparr>h_gn_m := h_gn\<rparr>;
                    den = dot (b_m p) (mat_vec (Hessian_m p) (b_m p));
                    p = p\<lparr>alpha_m := (if den = 0 then 0 else squaredNorm (b_m p) / den),
                          h_sd_m := b_m p\<rparr>;
                    h_gn_norm = norm_v (h_gn_m p);
                    h_sd_norm = norm_v (h_sd_m p)
                in if h_gn_norm \<le> currentRadius_m p then
                     Some (p\<lparr>h_dl_m := h_gn_m p, delta_x_m := h_gn_m p\<rparr>)
                   else if den = 0 then None
                   else if alpha_m p * h_sd_norm \<ge> currentRadius_m p then
                     (if h_sd_norm = 0 then None
                      else
                        let h_dl = smult (currentRadius_m p / h_sd_norm) (h_sd_m p)
                        in Some (p\<lparr>h_dl_m := h_dl, delta_x_m := h_dl\<rparr>))
                   else
                     let a = smult (alpha_m p) (h_sd_m p);
                         b = h_gn_m p
                     in if length a \<noteq> length b then None
                        else case DogLeg_beta a b (currentRadius_m p) of
                               None \<Rightarrow> None
                             | Some beta \<Rightarrow>
                                 let h_dl = vadd a (smult beta (vsub b a))
                                 in Some (p\<lparr>beta_m := beta, h_dl_m := h_dl, delta_x_m := h_dl\<rparr>))"

section \<open>Assembly of the Hessian\<close>

definition edge_ComputeJacobians :: "externals \<Rightarrow> (nat \<Rightarrow> Vertex) \<Rightarrow> Edge \<Rightarrow> Edge" where
  "edge_ComputeJacobians ext st e =
     e\<lparr>jacobians_m := ComputeJacobians ext e (map (\<lambda>k. parameters_m (st k)) (Verticies e))\<rparr>"

text \<open>\<^verbatim>\<open>b.segment(i, v.size()) -= v\<close>; the caller checks the range.\<close>

definition segment_sub :: "VecX \<Rightarrow> nat \<Rightarrow> VecX \<Rightarrow> VecX" where
  "segment_sub b i v = take i b @ vsub (take (length v) (drop i b)) v @ drop (i + length v) b"

text \<open>
  The loop over \<open>j\<close> of \<^verbatim>\<open>Problem::MakeHessianSingle\<close>, for one edge and one index
  \<open>i\<close> of a vertex that is not fixed. \<open>index_i\<close> and \<open>dim_i\<close> are the values the
  outer loop read. The source asserts that the ordering id of \<open>v_j\<close> is not \<open>-1\<close>;
  any negative id, read as \<^verbatim>\<open>ulong\<close>, is out of the range of \<^verbatim>\<open>H.block\<close>. The
  product needs matching sizes, and the block added must have the size of the block of
  \<open>H\<close>.
\<close>

fun MakeHessian_j ::
  "(nat \<Rightarrow> Vertex) \<Rightarrow> Edge \<Rightarrow> MatXX \<Rightarrow> nat \<Rightarrow> nat \<Rightarrow> nat \<Rightarrow> nat list \<Rightarrow> MatXX \<Rightarrow> MatXX option" where
  "MakeHessian_j st e JtW i index_i dim_i [] H = Some H"
| "MakeHessian_j st e JtW i index_i dim_i (j # js) H =
     (let v_j = st (Verticies e ! j) in
      if IsFixed v_j then MakeHessian_j st e JtW i index_i dim_i js H
      else
        let jacobian_j = jacobians_m e ! j;
            dim_j = LocalDimension v_j
        in if OrderingId v_j < 0 \<or> cols JtW \<noteq> rows jacobian_j then None
           else
             let index_j = nat (OrderingId v_j);
                 hessian = mat_mul JtW jacobian_j
             in if \<not> block_ok H index_i index_j dim_i dim_j
                   \<or> rows hessian \<noteq> dim_i \<or> cols hessian \<noteq> dim_j then None
                else
                  let H = add_block H index_i index_j hessian
                  in if j \<noteq> i then
                       (if \<not> block_ok H index_j index_i dim_j dim_i then None
                        else MakeHessian_j st e JtW i index_i dim_i js
                               (add_block H index_j index_i (transpose_m hessian)))
                     else MakeHessian_j st e JtW i index_i dim_i js H)"

text \<open>The loop over \<open>i\<close>, with the update of the segment of \<open>b\<close>.\<close>

fun MakeHessian_i ::
  "externals \<Rightarrow> (nat \<Rightarrow> Vertex) \<Rightarrow> Edge \<Rightarrow> nat list \<Rightarrow> MatXX \<Rightarrow> VecX \<Rightarrow> (MatXX \<times> VecX) option" where
  "MakeHessian_i ext st e [] H b = Some (H, b)"
| "MakeHessian_i ext st e (i # is) H b =
     (let v_i = st (Verticies e ! i) in
      if IsFixed v_i then MakeHessian_i ext st e is H b
      else
        let jacobian_i = jacobians_m e ! i;
            index_i = nat (OrderingId v_i);
            dim_i = LocalDimension v_i;
            drho = fst (RobustInfo ext e);
            robustInfo = snd (RobustInfo ext e)
        in if rows jacobian_i \<noteq> rows robustInfo then None
           else
             let JtW = mat_mul (transpose_m jacobian_i) robustInfo
             in case MakeHessian_j st e JtW i index_i dim_i [i..<length (Verticies e)] H of
                  None \<Rightarrow> None
                | Some H \<Rightarrow>
                    if rows jacobian_i \<noteq> rows (Information e)
                       \<or> cols (Information e) \<noteq> length (residual_m e)
                       \<or> length b < index_i + dim_i \<or> cols jacobian_i \<noteq> dim_i then None
                    else
                      MakeHessian_i ext st e is H
                        (segment_sub b index_i
                           (smult drho (mat_vec (mat_mul (transpose_m jacobian_i) (Information e))
                              (residual_m e)))))"


text \<open>\<^verbatim>\<open>M.block(i, j, r, c).setZero()\<close> and \<^verbatim>\<open>v.segment(i, n).setZero()\<close>.\<close>

definition zero_block :: "MatXX \<Rightarrow> nat \<Rightarrow> nat \<Rightarrow> nat \<Rightarrow> nat \<Rightarrow> MatXX" where
  "zero_block M i j r c =
     M\<lparr>coeff := (\<lambda>a b. if in_block i j r c a b then 0 else coeff M a b)\<rparr>"

definition zero_segment :: "VecX \<Rightarrow> nat \<Rightarrow> nat \<Rightarrow> VecX" where
  "zero_segment v i n = take i v @ replicate n 0 @ drop (i + n) v"

text \<open>The loop that clears the prior of the fixed pose vertices in the copies
  \<^verbatim>\<open>H_prior_tmp\<close> and \<^verbatim>\<open>b_prior_tmp\<close>.\<close>

fun mask_prior :: "(nat \<Rightarrow> Vertex) \<Rightarrow> nat list \<Rightarrow> MatXX \<Rightarrow> VecX \<Rightarrow> (MatXX \<times> VecX) option" where
  "mask_prior st [] H_prior_tmp b_prior_tmp = Some (H_prior_tmp, b_prior_tmp)"
| "mask_prior st (k # ks) H_prior_tmp b_prior_tmp =
     (if IsPoseVertex (st k) \<and> IsFixed (st k) then
        let idx = OrderingId (st k);
            dim = LocalDimension (st k)
        in if idx < 0 \<or> rows H_prior_tmp < nat idx + dim \<or> cols H_prior_tmp < nat idx + dim
              \<or> length b_prior_tmp < nat idx + dim then None
           else
             mask_prior st ks
               (zero_block
                  (zero_block H_prior_tmp (nat idx) 0 dim (cols H_prior_tmp))
                  0 (nat idx) (rows H_prior_tmp) dim)
               (zero_segment b_prior_tmp (nat idx) dim)
      else mask_prior st ks H_prior_tmp b_prior_tmp)"


text \<open>
  \<^verbatim>\<open>Problem::thdCalcHessian\<close>: the thread \<open>thd_id\<close> of \<open>thd_num\<close> visits the
  indices \<open>thd_id, thd_id + thd_num, \<dots>\<close> below the number of edges, takes the edge
  \<^verbatim>\<open>edges_[edges_idx_[i]]\<close> and adds its blocks as the serial loop does. An id with no
  edge makes \<^verbatim>\<open>edges_[id]\<close> a null pointer, and the run stops.
\<close>

definition thd_indices :: "nat \<Rightarrow> nat \<Rightarrow> nat \<Rightarrow> nat list" where
  "thd_indices thd_id thd_num edge_num =
     filter (\<lambda>i. (i - thd_id) mod thd_num = 0) [thd_id..<edge_num]"

fun thdCalcHessian_loop ::
  "externals \<Rightarrow> (nat \<Rightarrow> Vertex) \<Rightarrow> nat list \<Rightarrow> nat list \<Rightarrow> (nat \<times> Edge) list \<Rightarrow> MatXX \<Rightarrow> VecX
     \<Rightarrow> ((nat \<times> Edge) list \<times> MatXX \<times> VecX) option" where
  "thdCalcHessian_loop ext st edges_idx [] es H b = Some (es, H, b)"
| "thdCalcHessian_loop ext st edges_idx (i # is) es H b =
     (case map_of es (edges_idx ! i) of
        None \<Rightarrow> None
      | Some e \<Rightarrow>
          let e = edge_ComputeJacobians ext st (edge_ComputeResidual ext st e) in
          if length (jacobians_m e) \<noteq> length (Verticies e) then None
          else case MakeHessian_i ext st e [0..<length (Verticies e)] H b of
                 None \<Rightarrow> None
               | Some (H, b) \<Rightarrow>
                   thdCalcHessian_loop ext st edges_idx is
                     (map (\<lambda>(k, e'). if k = edges_idx ! i then (k, e) else (k, e')) es) H b)"

definition thdCalcHessian ::
  "externals \<Rightarrow> (nat \<Rightarrow> Vertex) \<Rightarrow> nat list \<Rightarrow> nat \<Rightarrow> nat
     \<Rightarrow> (nat \<times> Edge) list \<times> MatXX \<times> VecX \<Rightarrow> ((nat \<times> Edge) list \<times> MatXX \<times> VecX) option" where
  "thdCalcHessian ext st edges_idx thd_id thd_num x =
     (case x of (es, H, b) \<Rightarrow>
        thdCalcHessian_loop ext st edges_idx (thd_indices thd_id thd_num (length es)) es H b)"

text \<open>
  The threads of \<^verbatim>\<open>MakeHessianMulti\<close>, taken one after the other in the order of their
  creation. With at most one edge only the first thread has an edge to visit, and this is
  the run of the program. With more edges the threads of the source add to
  \<^verbatim>\<open>multi_H_\<close> at the same time and without a lock; the order chosen here is then one
  of the schedules, with every addition to a block taken as one step.
\<close>

fun all_thds ::
  "externals \<Rightarrow> (nat \<Rightarrow> Vertex) \<Rightarrow> nat list \<Rightarrow> nat \<Rightarrow> nat list
     \<Rightarrow> (nat \<times> Edge) list \<times> MatXX \<times> VecX \<Rightarrow> ((nat \<times> Edge) list \<times> MatXX \<times> VecX) option" where
  "all_thds ext st edges_idx thd_num [] x = Some x"
| "all_thds ext st edges_idx thd_num (i # is) x =
     (case thdCalcHessian ext st edges_idx i thd_num x of
        None \<Rightarrow> None
      | Some x \<Rightarrow> all_thds ext st edges_idx thd_num is x)"

text \<open>
  \<^verbatim>\<open>Problem::MakeHessianMulti\<close>. The members \<^verbatim>\<open>multi_H_\<close> and \<^verbatim>\<open>multi_b_\<close>
  are set to zero at the start and copied to \<^verbatim>\<open>Hessian_\<close> and \<^verbatim>\<open>b_\<close> after the
  threads have joined; nothing else reads them, so they are local here. The ids of the
  edges are appended to \<^verbatim>\<open>edges_idx_\<close> before the threads start, and the threads read
  its first entries: those of the first assembly of this problem. The code after the
  threads is that of \<^verbatim>\<open>MakeHessianSingle\<close>.
\<close>

definition MakeHessianMulti :: "externals \<Rightarrow> Problem \<Rightarrow> Problem option" where
  "MakeHessianMulti ext p =
     (let size = ordering_generic_m p;
          p = p\<lparr>edges_idx_m := edges_idx_m p @ map fst (edges_m p)\<rparr>;
          thd_num = 4
      in case all_thds ext (store p) (edges_idx_m p) thd_num [0..<thd_num]
                (edges_m p, MatXX_Zero size size, replicate size 0) of
        None \<Rightarrow> None
      | Some (es, H, b) \<Rightarrow>
          let p = p\<lparr>edges_m := es, Hessian_m := H, b_m := b\<rparr> in
          if rows (H_prior_m p) > 0 then
            (case mask_prior (store p) (verticies_m p) (H_prior_m p) (b_prior_m p) of
               None \<Rightarrow> None
             | Some (H_prior_tmp, b_prior_tmp) \<Rightarrow>
                 if \<not> block_ok (Hessian_m p) 0 0 (ordering_poses_m p) (ordering_poses_m p)
                    \<or> rows H_prior_tmp \<noteq> ordering_poses_m p
                    \<or> cols H_prior_tmp \<noteq> ordering_poses_m p
                    \<or> length (b_m p) < ordering_poses_m p
                    \<or> length b_prior_tmp \<noteq> ordering_poses_m p then None
                 else
                   Some (p\<lparr>Hessian_m := add_block (Hessian_m p) 0 0 H_prior_tmp,
                           b_m := vadd (take (ordering_poses_m p) (b_m p)) b_prior_tmp
                                  @ drop (ordering_poses_m p) (b_m p),
                           delta_x_m := replicate size 0\<rparr>))
          else Some (p\<lparr>delta_x_m := replicate size 0\<rparr>))"

text \<open>\<^verbatim>\<open>Problem::MakeHessian\<close>: its switch is on the constant \<^verbatim>\<open>acc_opt = 1\<close>.\<close>

definition MakeHessian :: "externals \<Rightarrow> Problem \<Rightarrow> Problem option" where
  "MakeHessian ext p = MakeHessianMulti ext p"

text \<open>A matrix is symmetric when it is square and equal to its transpose.\<close>

definition symmetric_m :: "MatXX \<Rightarrow> bool" where
  "symmetric_m M \<longleftrightarrow>
     rows M = cols M \<and> (\<forall>i<rows M. \<forall>j<rows M. coeff M i j = coeff M j i)"


section \<open>The drivers\<close>

text \<open>
  A double that may be infinite or NaN: a finite value, \<open>+inf\<close>, \<open>-inf\<close> or NaN.
  The finite values are taken as real numbers, so no operation rounds or overflows.
  \<open>dbl_sub\<close> is the difference of two doubles; \<open>dbl_div x y\<close> is \<open>x / y\<close> for
  finite \<open>x\<close> and \<open>y\<close> (a zero divisor counts as \<open>+0\<close>), and \<open>dbl_div_by x s\<close> is
  \<open>x / s\<close> for a finite \<open>x\<close>: it is a zero when \<open>s\<close> is infinite. A comparison
  with NaN is false.
\<close>

datatype dbl = Finite real | PlusInf | MinusInf | NaN

definition dbl_div :: "real \<Rightarrow> real \<Rightarrow> dbl" where
  "dbl_div x y =
     (if y \<noteq> 0 then Finite (x / y)
      else if x > 0 then PlusInf else if x < 0 then MinusInf else NaN)"

fun dbl_div_by :: "real \<Rightarrow> dbl \<Rightarrow> dbl" where
  "dbl_div_by x (Finite s) = dbl_div x s"
| "dbl_div_by x PlusInf = Finite 0"
| "dbl_div_by x MinusInf = Finite 0"
| "dbl_div_by x NaN = NaN"

fun dbl_greater :: "dbl \<Rightarrow> real \<Rightarrow> bool" where
  "dbl_greater (Finite r) c = (r > c)"
| "dbl_greater PlusInf c = True"
| "dbl_greater MinusInf c = False"
| "dbl_greater NaN c = False"

fun dbl_less :: "dbl \<Rightarrow> real \<Rightarrow> bool" where
  "dbl_less (Finite r) c = (r < c)"
| "dbl_less PlusInf c = False"
| "dbl_less MinusInf c = True"
| "dbl_less NaN c = False"

fun dbl_sub :: "dbl \<Rightarrow> dbl \<Rightarrow> dbl" where
  "dbl_sub (Finite x) (Finite y) = Finite (x - y)"
| "dbl_sub NaN y = NaN"
| "dbl_sub x NaN = NaN"
| "dbl_sub PlusInf PlusInf = NaN"
| "dbl_sub MinusInf MinusInf = NaN"
| "dbl_sub PlusInf y = PlusInf"
| "dbl_sub MinusInf y = MinusInf"
| "dbl_sub x PlusInf = MinusInf"
| "dbl_sub x MinusInf = PlusInf"

text \<open>
  \<^verbatim>\<open>Solve\<close>, \<^verbatim>\<open>SolveLM\<close> and \<^verbatim>\<open>SolveDogLeg\<close> call other member functions
  and read two numbers, \<^verbatim>\<open>currentChi_\<close> and the norm of \<^verbatim>\<open>b_\<close>. The drivers
  are modelled over a record of these calls, functions on a state of any type, so that
  what is proved of a driver holds whatever the calls compute. A call that can fail an
  assertion gives \<open>None\<close> when it does, and the driver stops with it. The state may
  hold whatever a call depends on. \<open>Problem_calls\<close> below gives the calls for the
  state \<open>Problem\<close> of this theory.
\<close>

record 's calls =
  edges_size_0 :: "'s \<Rightarrow> bool"
  verticies_size_0 :: "'s \<Rightarrow> bool"
  call_SetOrdering :: "'s \<Rightarrow> 's"
  call_MakeHessian :: "'s \<Rightarrow> 's option"
  call_ComputeLambdaInitLM :: "'s \<Rightarrow> 's option"
  call_ComputeRadiusInitDogLeg :: "'s \<Rightarrow> 's option"
  call_SolveLinearSystem :: "'s \<Rightarrow> 's option"
  call_SolveDogLegStep :: "'s \<Rightarrow> 's option"
  call_UpdateStates :: "'s \<Rightarrow> 's option"
  call_IsGoodStepInLM :: "'s \<Rightarrow> (bool \<times> 's) option"
  call_IsGoodStepInDogLeg :: "'s \<Rightarrow> (bool \<times> 's) option"
  call_RollbackStates :: "'s \<Rightarrow> 's"
  read_currentChi :: "'s \<Rightarrow> dbl"
  read_b_norm :: "'s \<Rightarrow> dbl"

text \<open>
  The inner loop \<^verbatim>\<open>while (!oneStepSuccess && false_cnt < 10)\<close> of
  \<^verbatim>\<open>Problem::SolveLM\<close>, from the value \<open>false_cnt\<close> of its counter: it returns
  \<^verbatim>\<open>oneStepSuccess\<close>, the counter and the state.
\<close>

function LM_inner :: "'s calls \<Rightarrow> nat \<Rightarrow> 's \<Rightarrow> (bool \<times> nat \<times> 's) option" where
  "LM_inner c false_cnt s =
     (if false_cnt < 10 then
        (case call_SolveLinearSystem c s of
           None \<Rightarrow> None
         | Some s \<Rightarrow>
             (case call_UpdateStates c s of
                None \<Rightarrow> None
              | Some s \<Rightarrow>
                  (case call_IsGoodStepInLM c s of
                     None \<Rightarrow> None
                   | Some (oneStepSuccess, s) \<Rightarrow>
                       if oneStepSuccess then
                         (case call_MakeHessian c s of
                            None \<Rightarrow> None
                          | Some s \<Rightarrow> Some (True, 0, s))
                       else LM_inner c (false_cnt + 1) (call_RollbackStates c s))))
      else Some (False, false_cnt, s))"
  by pat_completeness auto
termination
  by (relation "measure (\<lambda>(c, false_cnt, s). 10 - false_cnt)") auto

declare LM_inner.simps [simp del]

text \<open>
  The body of the outer loop of \<^verbatim>\<open>Problem::SolveLM\<close> apart from \<^verbatim>\<open>iter++\<close>: the
  inner loop, the test \<^verbatim>\<open>last_chi_ - currentChi_ < 1e-5\<close> that sets \<^verbatim>\<open>stop\<close>, and
  the new \<^verbatim>\<open>last_chi_\<close>. It returns the counter of the inner loop as well.
\<close>

definition LM_iteration :: "'s calls \<Rightarrow> dbl \<Rightarrow> 's \<Rightarrow> (bool \<times> dbl \<times> nat \<times> 's) option" where
  "LM_iteration c last_chi s =
     (case LM_inner c 0 s of
        None \<Rightarrow> None
      | Some (oneStepSuccess, false_cnt, s) \<Rightarrow>
          let stop = dbl_less (dbl_sub last_chi (read_currentChi c s)) (1 / 10 ^ 5)
          in Some (stop, read_currentChi c s, false_cnt, s))"

text \<open>The outer loop \<^verbatim>\<open>while (!stop && (iter < iterations))\<close>, from the values of
  \<^verbatim>\<open>stop\<close>, \<^verbatim>\<open>iter\<close> and \<^verbatim>\<open>last_chi_\<close>; it returns their final values.\<close>

function LM_outer ::
  "'s calls \<Rightarrow> int \<Rightarrow> bool \<times> int \<times> dbl \<times> 's \<Rightarrow> (bool \<times> int \<times> dbl \<times> 's) option" where
  "LM_outer c iterations (stop, iter, last_chi, s) =
     (if \<not> stop \<and> iter < iterations then
        (case LM_iteration c last_chi s of
           None \<Rightarrow> None
         | Some (stop, last_chi, false_cnt, s) \<Rightarrow>
             LM_outer c iterations (stop, iter + 1, last_chi, s))
      else Some (stop, iter, last_chi, s))"
  by pat_completeness auto
termination
  by (relation "measure (\<lambda>(c, iterations, stop, iter, last_chi, s). nat (iterations - iter))")
    auto

declare LM_outer.simps [simp del]

text \<open>
  \<^verbatim>\<open>Problem::SolveLM\<close> after its test for an empty graph: the three calls that set the
  iteration up, then the loop from \<^verbatim>\<open>stop = false\<close>, \<^verbatim>\<open>iter = 0\<close> and
  \<^verbatim>\<open>last_chi_ = 1e20\<close>. \<open>SolveLM_run\<close> gives the values of \<^verbatim>\<open>stop\<close>,
  \<^verbatim>\<open>iter\<close> and \<^verbatim>\<open>last_chi_\<close> at the end of the loop with the state;
  \<open>SolveLM\<close> gives the value returned with the state.
\<close>

definition LM_setup :: "'s calls \<Rightarrow> 's \<Rightarrow> 's option" where
  "LM_setup c s =
     (case call_MakeHessian c (call_SetOrdering c s) of
        None \<Rightarrow> None
      | Some s \<Rightarrow> call_ComputeLambdaInitLM c s)"

definition SolveLM_run :: "'s calls \<Rightarrow> int \<Rightarrow> 's \<Rightarrow> (bool \<times> int \<times> dbl \<times> 's) option" where
  "SolveLM_run c iterations s =
     (case LM_setup c s of
        None \<Rightarrow> None
      | Some s \<Rightarrow> LM_outer c iterations (False, 0, Finite (10 ^ 20), s))"

definition SolveLM :: "'s calls \<Rightarrow> int \<Rightarrow> 's \<Rightarrow> (bool \<times> 's) option" where
  "SolveLM c iterations s =
     (if edges_size_0 c s \<or> verticies_size_0 c s then Some (False, s)
      else
        case SolveLM_run c iterations s of
          None \<Rightarrow> None
        | Some (stop, iter, last_chi, s) \<Rightarrow> Some (True, s))"

text \<open>\<^verbatim>\<open>Problem::SolveDogLeg\<close> in the same way: its loop starts from
  \<^verbatim>\<open>last_chi = 0\<close>, and its test reads the norm of \<^verbatim>\<open>b_\<close> as well.\<close>

function DogLeg_inner :: "'s calls \<Rightarrow> nat \<Rightarrow> 's \<Rightarrow> (bool \<times> nat \<times> 's) option" where
  "DogLeg_inner c false_cnt s =
     (if false_cnt < 10 then
        (case call_SolveDogLegStep c s of
           None \<Rightarrow> None
         | Some s \<Rightarrow>
             (case call_UpdateStates c s of
                None \<Rightarrow> None
              | Some s \<Rightarrow>
                  (case call_IsGoodStepInDogLeg c s of
                     None \<Rightarrow> None
                   | Some (oneStepSuccess, s) \<Rightarrow>
                       if oneStepSuccess then
                         (case call_MakeHessian c s of
                            None \<Rightarrow> None
                          | Some s \<Rightarrow> Some (True, 0, s))
                       else DogLeg_inner c (false_cnt + 1) (call_RollbackStates c s))))
      else Some (False, false_cnt, s))"
  by pat_completeness auto
termination
  by (relation "measure (\<lambda>(c, false_cnt, s). 10 - false_cnt)") auto

declare DogLeg_inner.simps [simp del]

definition DogLeg_iteration ::
  "'s calls \<Rightarrow> dbl \<Rightarrow> 's \<Rightarrow> (bool \<times> dbl \<times> nat \<times> 's) option" where
  "DogLeg_iteration c last_chi s =
     (case DogLeg_inner c 0 s of
        None \<Rightarrow> None
      | Some (oneStepSuccess, false_cnt, s) \<Rightarrow>
          let stop = (dbl_less (dbl_sub last_chi (read_currentChi c s)) (1 / 10 ^ 5)
                      \<or> dbl_less (read_b_norm c s) (1 / 10 ^ 5))
          in Some (stop, read_currentChi c s, false_cnt, s))"

function DogLeg_outer ::
  "'s calls \<Rightarrow> int \<Rightarrow> bool \<times> int \<times> dbl \<times> 's \<Rightarrow> (bool \<times> int \<times> dbl \<times> 's) option" where
  "DogLeg_outer c itertaions (stop, iter, last_chi, s) =
     (if iter < itertaions \<and> \<not> stop then
        (case DogLeg_iteration c last_chi s of
           None \<Rightarrow> None
         | Some (stop, last_chi, false_cnt, s) \<Rightarrow>
             DogLeg_outer c itertaions (stop, iter + 1, last_chi, s))
      else Some (stop, iter, last_chi, s))"
  by pat_completeness auto
termination
  by (relation "measure (\<lambda>(c, itertaions, stop, iter, last_chi, s). nat (itertaions - iter))")
    auto

declare DogLeg_outer.simps [simp del]

definition DogLeg_setup :: "'s calls \<Rightarrow> 's \<Rightarrow> 's option" where
  "DogLeg_setup c s =
     (case call_MakeHessian c (call_SetOrdering c s) of
        None \<Rightarrow> None
      | Some s \<Rightarrow> call_ComputeRadiusInitDogLeg c s)"

definition SolveDogLeg_run ::
  "'s calls \<Rightarrow> int \<Rightarrow> 's \<Rightarrow> (bool \<times> int \<times> dbl \<times> 's) option" where
  "SolveDogLeg_run c itertaions s =
     (case DogLeg_setup c s of
        None \<Rightarrow> None
      | Some s \<Rightarrow> DogLeg_outer c itertaions (False, 0, Finite 0, s))"

definition SolveDogLeg :: "'s calls \<Rightarrow> int \<Rightarrow> 's \<Rightarrow> (bool \<times> 's) option" where
  "SolveDogLeg c itertaions s =
     (if edges_size_0 c s \<or> verticies_size_0 c s then Some (False, s)
      else
        case SolveDogLeg_run c itertaions s of
          None \<Rightarrow> None
        | Some (stop, iter, last_chi, s) \<Rightarrow> Some (True, s))"

text \<open>\<^verbatim>\<open>Problem::Solve\<close>.\<close>

definition Solve :: "'s calls \<Rightarrow> int \<Rightarrow> int \<Rightarrow> 's \<Rightarrow> (bool \<times> 's) option" where
  "Solve c type iterations s =
     (if type = 0 then SolveLM c iterations s
      else if type = 1 then SolveDogLeg c iterations s
      else Some (False, s))"

subsection \<open>Conditions on the calls\<close>

text \<open>
  \<open>LM_tries_return c I\<close>: from every state in \<open>I\<close> one try of the inner loop of
  \<^verbatim>\<open>SolveLM\<close> passes all its assertions (no call gives \<open>None\<close>) and leaves a state in
  \<open>I\<close> again; \<open>DogLeg_tries_return\<close> is the same for \<^verbatim>\<open>SolveDogLeg\<close>.
  \<open>chi_above c s\<close>: the test \<open>0 - currentChi_ < 10\<^sup>-\<^sup>5\<close> holds in the state \<open>s\<close>, as
  it does for every cost that is not negative. \<open>DogLeg_calls_keep c G\<close>: every call of
  the inner loop of \<^verbatim>\<open>SolveDogLeg\<close> keeps the property \<open>G\<close> of the state.
\<close>

definition LM_tries_return :: "'s calls \<Rightarrow> ('s \<Rightarrow> bool) \<Rightarrow> bool" where
  "LM_tries_return c I \<longleftrightarrow>
     (\<forall>s. I s \<longrightarrow>
        (\<exists>s1 s2 ok s3. call_SolveLinearSystem c s = Some s1
           \<and> call_UpdateStates c s1 = Some s2
           \<and> call_IsGoodStepInLM c s2 = Some (ok, s3)
           \<and> (if ok then \<exists>s4. call_MakeHessian c s3 = Some s4 \<and> I s4
               else I (call_RollbackStates c s3))))"

definition DogLeg_tries_return :: "'s calls \<Rightarrow> ('s \<Rightarrow> bool) \<Rightarrow> bool" where
  "DogLeg_tries_return c I \<longleftrightarrow>
     (\<forall>s. I s \<longrightarrow>
        (\<exists>s1 s2 ok s3. call_SolveDogLegStep c s = Some s1
           \<and> call_UpdateStates c s1 = Some s2
           \<and> call_IsGoodStepInDogLeg c s2 = Some (ok, s3)
           \<and> (if ok then \<exists>s4. call_MakeHessian c s3 = Some s4 \<and> I s4
               else I (call_RollbackStates c s3))))"

definition chi_above :: "'s calls \<Rightarrow> 's \<Rightarrow> bool" where
  "chi_above c s \<longleftrightarrow> dbl_less (dbl_sub (Finite 0) (read_currentChi c s)) (1 / 10 ^ 5)"

definition DogLeg_calls_keep :: "'s calls \<Rightarrow> ('s \<Rightarrow> bool) \<Rightarrow> bool" where
  "DogLeg_calls_keep c G \<longleftrightarrow>
     (\<forall>s s'. G s \<and> call_SolveDogLegStep c s = Some s' \<longrightarrow> G s')
   \<and> (\<forall>s s'. G s \<and> call_UpdateStates c s = Some s' \<longrightarrow> G s')
   \<and> (\<forall>s ok s'. G s \<and> call_IsGoodStepInDogLeg c s = Some (ok, s') \<longrightarrow> G s')
   \<and> (\<forall>s s'. G s \<and> call_MakeHessian c s = Some s' \<longrightarrow> G s')
   \<and> (\<forall>s. G s \<longrightarrow> G (call_RollbackStates c s))"

section \<open>The calls of the drivers on a problem\<close>

text \<open>
  The cost \<open>\<onehalf> (\<Sum> RobustChi2 + \<parallel>err_prior\<parallel>\<^sup>2)\<close> from the residuals the edges hold.
  A run whose initial cost is not finite is not followed.
\<close>

definition chi_of_edges :: "externals \<Rightarrow> Problem \<Rightarrow> real option" where
  "chi_of_edges ext p =
     (let chi = add_chi2 ext (Some 0) (map snd (edges_m p));
          chi = (if length (err_prior_m p) > 0
                 then map_option (\<lambda>t. t + squaredNorm (err_prior_m p)) chi
                 else chi)
      in map_option (\<lambda>t. t * 0.5) chi)"

text \<open>The loop \<^verbatim>\<open>maxDiagonal = std::max(fabs(Hessian_(i, i)), maxDiagonal)\<close>.\<close>

fun maxDiagonal_loop :: "MatXX \<Rightarrow> nat list \<Rightarrow> real \<Rightarrow> real" where
  "maxDiagonal_loop H [] maxDiagonal = maxDiagonal"
| "maxDiagonal_loop H (i # is) maxDiagonal =
     maxDiagonal_loop H is (max \<bar>coeff H i i\<bar> maxDiagonal)"

text \<open>\<^verbatim>\<open>Problem::ComputeLambdaInitLM\<close>, with its assertion that the Hessian is square.\<close>

definition ComputeLambdaInitLM :: "externals \<Rightarrow> Problem \<Rightarrow> Problem option" where
  "ComputeLambdaInitLM ext p =
     (let p = p\<lparr>ni_m := 2, currentLambda_m := - 1, currentChi_m := 0\<rparr> in
      case chi_of_edges ext p of
        None \<Rightarrow> None
      | Some chi \<Rightarrow>
          let p = p\<lparr>currentChi_m := chi\<rparr>;
              p = p\<lparr>stopThresholdLM_m := 1 / 10 ^ 10 * currentChi_m p\<rparr>;
              size = cols (Hessian_m p)
          in if rows (Hessian_m p) \<noteq> cols (Hessian_m p) then None
             else
               let maxDiagonal = maxDiagonal_loop (Hessian_m p) [0..<size] 0;
                   maxDiagonal = min (5 * 10 ^ 10) maxDiagonal;
                   tau = 1 / 10 ^ 5
               in Some (p\<lparr>currentLambda_m := tau * maxDiagonal\<rparr>))"

text \<open>\<^verbatim>\<open>Problem::ComputeRadiusInitDogLeg\<close>.\<close>

definition ComputeRadiusInitDogLeg :: "externals \<Rightarrow> Problem \<Rightarrow> Problem option" where
  "ComputeRadiusInitDogLeg ext p =
     (let p = p\<lparr>currentChi_m := 0\<rparr> in
      case chi_of_edges ext p of
        None \<Rightarrow> None
      | Some chi \<Rightarrow>
          let p = p\<lparr>currentChi_m := chi\<rparr>;
              p = p\<lparr>stopThresholdDogLeg_m := 1 / 10 ^ 15 * currentChi_m p\<rparr>
          in Some (p\<lparr>currentRadius_m := 10 ^ 4\<rparr>))"

text \<open>
  \<^verbatim>\<open>Problem::IsGoodStepInDogLeg\<close> (the strategy \<^verbatim>\<open>option = 0\<close>). The comparisons
  of vectors need equal sizes. A cost after the step that is not finite is taken as NaN:
  then \<open>rho\<close> is NaN, the radius stays and the step is rejected (for an infinite cost
  the source could halve the radius). A zero norm of \<^verbatim>\<open>b_\<close> makes the second
  comparison of vectors false, as its right-hand side is NaN.
\<close>

definition DogLeg_scale :: "Problem \<Rightarrow> dbl" where
  "DogLeg_scale p =
     (if h_dl_m p = h_gn_m p then Finite (currentChi_m p)
      else if norm_v (b_m p) \<noteq> 0
              \<and> h_dl_m p = map (\<lambda>x. currentRadius_m p * x / norm_v (b_m p)) (b_m p)
      then dbl_div (currentRadius_m p * (2 * alpha_m p * norm_v (b_m p) - currentRadius_m p))
             (2 * alpha_m p)
      else Finite (0.5 * alpha_m p * (1 - beta_m p) * (1 - beta_m p) * squaredNorm (b_m p)
                     + beta_m p * (2 - beta_m p) * currentChi_m p))"

definition IsGoodStepInDogLeg :: "externals \<Rightarrow> Problem \<Rightarrow> (bool \<times> Problem) option" where
  "IsGoodStepInDogLeg ext p =
     (if length (h_dl_m p) \<noteq> length (h_gn_m p) \<or> length (h_dl_m p) \<noteq> length (b_m p) then None
      else
        let p1 = p\<lparr>edges_m := map (\<lambda>(k, e). (k, edge_ComputeResidual ext (store p) e)) (edges_m p)\<rparr>;
            scale = DogLeg_scale p
        in case LM_tempChi ext p of
             None \<Rightarrow> Some (False, p1)
           | Some tempChi \<Rightarrow>
               let rho = dbl_div_by (currentChi_m p - tempChi) scale;
                   p2 = (if dbl_greater rho 0.75
                         then p1\<lparr>currentRadius_m :=
                                   max (currentRadius_m p) (3 * norm_v (delta_x_m p))\<rparr>
                         else if dbl_less rho 0.25
                         then p1\<lparr>currentRadius_m :=
                                   max (currentRadius_m p * 0.5) (1 / 10 ^ 7)\<rparr>
                         else p1)
               in if dbl_greater rho 0 then Some (True, p2\<lparr>currentChi_m := tempChi\<rparr>)
                  else Some (False, p2))"

text \<open>
  The calls for the state \<open>Problem\<close>. The numbers read are finite, as the state
  holds real numbers.
\<close>

definition Problem_calls :: "externals \<Rightarrow> Problem calls" where
  "Problem_calls ext =
     \<lparr>edges_size_0 = (\<lambda>p. length (edges_m p) = 0),
      verticies_size_0 = (\<lambda>p. length (verticies_m p) = 0),
      call_SetOrdering = SetOrdering,
      call_MakeHessian = MakeHessian ext,
      call_ComputeLambdaInitLM = ComputeLambdaInitLM ext,
      call_ComputeRadiusInitDogLeg = ComputeRadiusInitDogLeg ext,
      call_SolveLinearSystem = SolveLinearSystem ext,
      call_SolveDogLegStep = SolveDogLegStep ext,
      call_UpdateStates = UpdateStates ext,
      call_IsGoodStepInLM = IsGoodStepInLM ext,
      call_IsGoodStepInDogLeg = IsGoodStepInDogLeg ext,
      call_RollbackStates = RollbackStates,
      read_currentChi = (\<lambda>p. Finite (currentChi_m p)),
      read_b_norm = (\<lambda>p. Finite (norm_v (b_m p)))\<rparr>"

section \<open>The prior left by a marginalisation\<close>

text \<open>
  The operations of Eigen in the last part of \<^verbatim>\<open>Problem::Marginalize\<close>:
  the sum of two matrices, the product with a scalar, \<^verbatim>\<open>v.asDiagonal()\<close>,
  \<^verbatim>\<open>(x.array() > eps).select(y, 0)\<close> on vectors and
  \<^verbatim>\<open>(M.array().abs() > t).select(M.array(), 0)\<close> on a matrix.
\<close>

definition mat_add :: "MatXX \<Rightarrow> MatXX \<Rightarrow> MatXX" where
  "mat_add A B = \<lparr>rows = rows A, cols = cols A, coeff = (\<lambda>a b. coeff A a b + coeff B a b)\<rparr>"

definition mat_scale :: "real \<Rightarrow> MatXX \<Rightarrow> MatXX" where
  "mat_scale c A = \<lparr>rows = rows A, cols = cols A, coeff = (\<lambda>a b. c * coeff A a b)\<rparr>"

definition asDiagonal :: "VecX \<Rightarrow> MatXX" where
  "asDiagonal v = \<lparr>rows = length v, cols = length v,
     coeff = (\<lambda>a b. if a = b \<and> a < length v then v ! a else 0)\<rparr>"

definition select_gt :: "real \<Rightarrow> VecX \<Rightarrow> VecX \<Rightarrow> VecX" where
  "select_gt eps x y = map2 (\<lambda>a b. if a > eps then b else 0) x y"

definition select_abs_gt :: "real \<Rightarrow> MatXX \<Rightarrow> MatXX" where
  "select_abs_gt t M = M\<lparr>coeff := (\<lambda>a b. if \<bar>coeff M a b\<bar> > t then coeff M a b else 0)\<rparr>"

text \<open>
  The last part of \<^verbatim>\<open>Problem::Marginalize\<close>, from \<^verbatim>\<open>double eps = 1e-8\<close> to the
  assignment of \<^verbatim>\<open>H_prior_\<close>, as a function of the local variables \<^verbatim>\<open>H_marg\<close>,
  \<^verbatim>\<open>b_marg\<close>, \<^verbatim>\<open>reserve_size\<close> and \<^verbatim>\<open>marg_dim\<close> at that point.
  \<^verbatim>\<open>Eigen::SelfAdjointEigenSolver\<close> is the parameter \<open>saes\<close>, which gives the
  eigenvalues and the matrix of the eigenvectors. The blocks and segments must lie inside
  \<^verbatim>\<open>H_marg\<close> and \<^verbatim>\<open>b_marg\<close> (a negative \<^verbatim>\<open>n2\<close> does not), and the products
  need matching sizes.
\<close>

definition Marginalize_prior ::
  "(MatXX \<Rightarrow> VecX \<times> MatXX) \<Rightarrow> MatXX \<Rightarrow> VecX \<Rightarrow> nat \<Rightarrow> nat \<Rightarrow> Problem \<Rightarrow> Problem option" where
  "Marginalize_prior saes H_marg b_marg reserve_size marg_dim p =
     (let eps = 1 / 10 ^ 8;
          m2 = marg_dim
      in if reserve_size < marg_dim then None
         else
           let n2 = reserve_size - marg_dim
           in if \<not> block_ok H_marg n2 n2 m2 m2 \<or> length b_marg < n2 + m2 then None
              else
                let Amm = mat_scale 0.5 (mat_add (block H_marg n2 n2 m2 m2)
                                                  (transpose_m (block H_marg n2 n2 m2 m2)));
                    (eigenvalues, eigenvectors) = saes Amm
                in if cols eigenvectors \<noteq> length eigenvalues \<or> rows eigenvectors \<noteq> m2 then None
                   else
                     let Amm_inv = mat_mul (mat_mul eigenvectors
                                     (asDiagonal (select_gt eps eigenvalues
                                                    (map (\<lambda>e. 1 / e) eigenvalues))))
                                     (transpose_m eigenvectors);
                         bmm2 = take m2 (drop n2 b_marg);
                         Arm = block H_marg 0 n2 n2 m2;
                         Amr = block H_marg n2 0 m2 n2;
                         Arr = block H_marg 0 0 n2 n2;
                         brr = take n2 b_marg;
                         tempB = mat_mul Arm Amm_inv;
                         p = p\<lparr>H_prior_m := mat_sub Arr (mat_mul tempB Amr)\<rparr>;
                         p = p\<lparr>b_prior_m := vsub brr (mat_vec tempB bmm2)\<rparr>;
                         (eigenvalues2, eigenvectors2) = saes (H_prior_m p)
                     in if cols eigenvectors2 \<noteq> length eigenvalues2 \<or> rows eigenvectors2 \<noteq> n2
                        then None
                        else
                          let S = select_gt eps eigenvalues2 eigenvalues2;
                              S_inv = select_gt eps eigenvalues2 (map (\<lambda>e. 1 / e) eigenvalues2);
                              S_sqrt = map sqrt S;
                              S_inv_sqrt = map sqrt S_inv;
                              p = p\<lparr>Jt_prior_inv_m :=
                                      mat_mul (asDiagonal S_inv_sqrt) (transpose_m eigenvectors2)\<rparr>;
                              p = p\<lparr>err_prior_m :=
                                      map uminus (mat_vec (Jt_prior_inv_m p) (b_prior_m p))\<rparr>;
                              J = mat_mul (asDiagonal S_sqrt) (transpose_m eigenvectors2);
                              p = p\<lparr>H_prior_m := mat_mul (transpose_m J) J\<rparr>;
                              tmp_h = select_abs_gt (1 / 10 ^ 9) (H_prior_m p)
                          in Some (p\<lparr>H_prior_m := tmp_h\<rparr>))"

section \<open>The prior in the words of the specification\<close>

text \<open>
  The same quantities written after the description of the marginaliser: the block
  \<open>A_mm = \<onehalf> (H + H\<^sup>T)\<close> of the bottom-right corner, its inverse from the
  eigendecomposition with the eigenvalues \<open>\<le> 10\<^sup>-\<^sup>8\<close> set to zero (a zero stays a zero
  under the inversion), the Schur complement, \<open>\<Sigma>\<close> with the eigenvalues \<open>\<le> 10\<^sup>-\<^sup>8\<close>
  dropped, \<open>\<surd>\<Sigma>\<close> and its inverse, and \<open>J = \<surd>\<Sigma> V\<^sup>T\<close>.
\<close>

definition spec_zero_le :: "real \<Rightarrow> VecX \<Rightarrow> VecX" where
  "spec_zero_le eps lam = map (\<lambda>e. if e \<le> eps then 0 else e) lam"

definition spec_inverse :: "VecX \<Rightarrow> VecX" where
  "spec_inverse s = map (\<lambda>x. if x = 0 then 0 else 1 / x) s"

definition spec_A_mm :: "MatXX \<Rightarrow> nat \<Rightarrow> nat \<Rightarrow> MatXX" where
  "spec_A_mm H n m =
     mat_scale (1 / 2) (mat_add (block H n n m m) (transpose_m (block H n n m m)))"

definition spec_A_mm_inv :: "(MatXX \<Rightarrow> VecX \<times> MatXX) \<Rightarrow> MatXX \<Rightarrow> nat \<Rightarrow> nat \<Rightarrow> MatXX" where
  "spec_A_mm_inv saes H n m =
     (let lam = fst (saes (spec_A_mm H n m));
          V = snd (saes (spec_A_mm H n m))
      in mat_mul (mat_mul V (asDiagonal (spec_inverse (spec_zero_le (1 / 10 ^ 8) lam))))
           (transpose_m V))"

definition spec_H_schur :: "(MatXX \<Rightarrow> VecX \<times> MatXX) \<Rightarrow> MatXX \<Rightarrow> nat \<Rightarrow> nat \<Rightarrow> MatXX" where
  "spec_H_schur saes H n m =
     mat_sub (block H 0 0 n n)
       (mat_mul (mat_mul (block H 0 n n m) (spec_A_mm_inv saes H n m)) (block H n 0 m n))"

definition spec_b_prior ::
  "(MatXX \<Rightarrow> VecX \<times> MatXX) \<Rightarrow> MatXX \<Rightarrow> VecX \<Rightarrow> nat \<Rightarrow> nat \<Rightarrow> VecX" where
  "spec_b_prior saes H b n m =
     vsub (take n b)
       (mat_vec (mat_mul (block H 0 n n m) (spec_A_mm_inv saes H n m)) (take m (drop n b)))"

definition spec_Sigma :: "(MatXX \<Rightarrow> VecX \<times> MatXX) \<Rightarrow> MatXX \<Rightarrow> nat \<Rightarrow> nat \<Rightarrow> VecX" where
  "spec_Sigma saes H n m = spec_zero_le (1 / 10 ^ 8) (fst (saes (spec_H_schur saes H n m)))"

definition spec_V :: "(MatXX \<Rightarrow> VecX \<times> MatXX) \<Rightarrow> MatXX \<Rightarrow> nat \<Rightarrow> nat \<Rightarrow> MatXX" where
  "spec_V saes H n m = snd (saes (spec_H_schur saes H n m))"

definition spec_Jt_prior_inv ::
  "(MatXX \<Rightarrow> VecX \<times> MatXX) \<Rightarrow> MatXX \<Rightarrow> nat \<Rightarrow> nat \<Rightarrow> MatXX" where
  "spec_Jt_prior_inv saes H n m =
     mat_mul (asDiagonal (spec_inverse (map sqrt (spec_Sigma saes H n m))))
       (transpose_m (spec_V saes H n m))"

definition spec_J :: "(MatXX \<Rightarrow> VecX \<times> MatXX) \<Rightarrow> MatXX \<Rightarrow> nat \<Rightarrow> nat \<Rightarrow> MatXX" where
  "spec_J saes H n m =
     mat_mul (asDiagonal (map sqrt (spec_Sigma saes H n m))) (transpose_m (spec_V saes H n m))"

definition spec_JtJ :: "(MatXX \<Rightarrow> VecX \<times> MatXX) \<Rightarrow> MatXX \<Rightarrow> nat \<Rightarrow> nat \<Rightarrow> MatXX" where
  "spec_JtJ saes H n m = mat_mul (transpose_m (spec_J saes H n m)) (spec_J saes H n m)"

section \<open>A small problem for concrete runs\<close>

text \<open>
  The concrete runs below use vertices of dimension one with the default retraction
  (\<^verbatim>\<open>parameters_ += delta\<close>), edges whose residual is the sum of the parameters
  of their vertices (every Jacobian is \<open>1\<close>, the information is \<open>1\<close>, there is no
  robust kernel, so \<open>drho = 1\<close> and the cost of an edge is its squared residual), and
  linear systems
  with a diagonal matrix, which \<open>diag_solve\<close> solves exactly; \<open>scalar_inverse\<close>
  inverts a matrix of size one.
\<close>

definition scalar_mat :: "real \<Rightarrow> MatXX" where
  "scalar_mat a = \<lparr>rows = 1, cols = 1, coeff = (\<lambda>i j. if i = 0 \<and> j = 0 then a else 0)\<rparr>"

definition diag_mat :: "real list \<Rightarrow> MatXX" where
  "diag_mat xs = \<lparr>rows = length xs, cols = length xs,
     coeff = (\<lambda>i j. if i = j \<and> i < length xs then xs ! i else 0)\<rparr>"

definition diag_solve :: "MatXX \<Rightarrow> VecX \<Rightarrow> VecX" where
  "diag_solve H v = map (\<lambda>i. v ! i / coeff H i i) [0..<length v]"

definition scalar_inverse :: "MatXX \<Rightarrow> MatXX" where
  "scalar_inverse M = scalar_mat (1 / coeff M 0 0)"

definition ex_ext :: externals where
  "ex_ext = \<lparr>ldlt_solve = diag_solve, inverse_m = scalar_inverse,
     Plus_v = (\<lambda>v d. vadd (parameters_m v) d),
     ComputeResidual = (\<lambda>e ps. [sum_list (concat ps)]),
     ComputeJacobians = (\<lambda>e ps. map (\<lambda>q. scalar_mat 1) ps),
     RobustInfo = (\<lambda>e. (1, Information e)),
     RobustChi2 = (\<lambda>e. Some (squaredNorm (residual_m e)))\<rparr>"

definition ex_vertex :: "string \<Rightarrow> real \<Rightarrow> Vertex" where
  "ex_vertex ty x = \<lparr>TypeInfo = ty, LocalDimension = 1, OrderingId = 0, IsFixed = False,
     parameters_m = [x], parameters_backup_m = [x]\<rparr>"

definition ex_edge :: "nat \<Rightarrow> nat \<Rightarrow> Edge" where
  "ex_edge k v = \<lparr>EdgeId = k, Verticies = [v], Information = scalar_mat 1,
     residual_m = [], jacobians_m = []\<rparr>"

text \<open>A problem with no vertex and no edge, all numbers zero.\<close>

definition ex_empty :: "ProblemType \<Rightarrow> Problem" where
  "ex_empty t = \<lparr>problemType_m = t, store = (\<lambda>k. ex_vertex ''VertexPose'' 0),
     verticies_m = [], edges_m = [], edges_idx_m = [], idx_pose_vertices_m = [],
     idx_landmark_vertices_m = [],
     ordering_poses_m = 0, ordering_landmarks_m = 0, ordering_generic_m = 0,
     Hessian_m = MatXX_Zero 0 0, b_m = [], delta_x_m = [],
     H_prior_m = MatXX_Zero 0 0, b_prior_m = [], b_prior_backup_m = [],
     err_prior_m = [], err_prior_backup_m = [], Jt_prior_inv_m = MatXX_Zero 0 0,
     currentLambda_m = 0, currentChi_m = 0, stopThresholdLM_m = 0, ni_m = 0,
     currentRadius_m = 0, stopThresholdDogLeg_m = 0, alpha_m = 0, beta_m = 0,
     h_gn_m = [], h_sd_m = [], h_dl_m = []\<rparr>"

text \<open>
  A state in the middle of a Levenberg-Marquardt iteration: one vertex with parameter
  \<open>1\<close> after the update, one edge on it, \<open>lambda = 3\<close>, the cost before the step
  \<open>1.4\<close>; \<open>scale\<close> is \<open>1\<close>, the cost after the step \<open>0.5\<close> and \<open>rho = 0.9\<close>.
\<close>

definition ex_lm_state :: Problem where
  "ex_lm_state = (ex_empty GENERIC_PROBLEM)\<lparr>store := (\<lambda>k. ex_vertex ''VertexPose'' 1),
     verticies_m := [0], edges_m := [(0, ex_edge 0 0)], ordering_generic_m := 1,
     Hessian_m := scalar_mat 1, b_m := [- (1000002 / 10 ^ 6)], delta_x_m := [1],
     currentLambda_m := 3, currentChi_m := 14 / 10, ni_m := 2\<rparr>"

text \<open>A SLAM problem with two pose-like vertices and one landmark, none of them ordered
  yet, a SLAM problem with one vertex that is neither pose-like nor landmark-like, and a
  generic problem with one vertex; the ordering ids of both are unassigned.\<close>

definition ex_slam :: Problem where
  "ex_slam = (ex_empty SLAM_PROBLEM)\<lparr>
     store := (\<lambda>k. if k = 1 then (ex_vertex ''VertexInverseDepth'' 0)\<lparr>OrderingId := - 1\<rparr>
                    else if k = 2 then (ex_vertex ''VertexSpeedBias'' 0)\<lparr>OrderingId := - 1\<rparr>
                    else (ex_vertex ''VertexPose'' 0)\<lparr>OrderingId := - 1\<rparr>),
     verticies_m := [0, 1, 2], edges_m := [(0, ex_edge 0 0), (1, ex_edge 1 1), (2, ex_edge 2 2)]\<rparr>"

definition ex_slam_other :: Problem where
  "ex_slam_other = (ex_empty SLAM_PROBLEM)\<lparr>
     store := (\<lambda>k. (ex_vertex ''VertexOther'' 0)\<lparr>OrderingId := - 1\<rparr>), verticies_m := [0]\<rparr>"

definition ex_generic_unassigned :: Problem where
  "ex_generic_unassigned = (ex_empty GENERIC_PROBLEM)\<lparr>
     store := (\<lambda>k. (ex_vertex ''VertexPose'' 0)\<lparr>OrderingId := - 1\<rparr>),
     verticies_m := [0], edges_m := [(0, ex_edge 0 0)]\<rparr>"

text \<open>
  A SLAM problem with a prior on its first variable: three pose-like vertices of dimensions
  1, 6 and 9, so \<^verbatim>\<open>ordering_poses_ = 16\<close>, a prior matrix of size 16, a prior residual of
  size 1, and a step of all ones.
\<close>

definition ex_prior :: Problem where
  "ex_prior = (ex_empty SLAM_PROBLEM)\<lparr>
     store := (\<lambda>k. if k = 1 then (ex_vertex ''VertexPose'' 0)\<lparr>LocalDimension := 6,
                         OrderingId := 1, parameters_m := replicate 6 0\<rparr>
                    else if k = 2 then (ex_vertex ''VertexSpeedBias'' 0)\<lparr>LocalDimension := 9,
                         OrderingId := 7, parameters_m := replicate 9 0\<rparr>
                    else ex_vertex ''VertexPose'' 0),
     verticies_m := [0, 1, 2], idx_pose_vertices_m := [0, 1, 2],
     edges_m := [(0, ex_edge 0 0)],
     ordering_poses_m := 16, ordering_generic_m := 16,
     delta_x_m := replicate 16 1,
     H_prior_m := \<lparr>rows = 16, cols = 16, coeff = (\<lambda>i j. if i = j then 1 else 0)\<rparr>,
     b_prior_m := replicate 16 2, err_prior_m := [5], Jt_prior_inv_m := scalar_mat 1\<rparr>"

text \<open>
  A SLAM problem with one pose and one landmark, \<open>H = diag(2, 1)\<close>, \<open>b = (2, 1)\<close>,
  in which \<^verbatim>\<open>currentLambda_\<close> is \<open>2\<close>, as a Levenberg-Marquardt run on the same
  object leaves a positive value there.
\<close>

definition ex_damped :: Problem where
  "ex_damped = (ex_empty SLAM_PROBLEM)\<lparr>
     store := (\<lambda>k. if k = 1 then (ex_vertex ''VertexInverseDepth'' 0)\<lparr>OrderingId := 1\<rparr>
                    else ex_vertex ''VertexPose'' 0),
     verticies_m := [0, 1], edges_m := [(0, ex_edge 0 0), (1, ex_edge 1 1)],
     idx_pose_vertices_m := [0], idx_landmark_vertices_m := [1],
     ordering_poses_m := 1, ordering_landmarks_m := 1, ordering_generic_m := 2,
     Hessian_m := diag_mat [2, 1], b_m := [2, 1], delta_x_m := [0, 0],
     currentLambda_m := 2, currentRadius_m := 10 ^ 4\<rparr>"






text \<open>
  A generic problem with one vertex of parameter \<open>x\<close> and one edge on it, before and
  after the first assembly of the Hessian (\<open>H = 1\<close>, \<open>b = -x\<close>, the id of the edge
  appended to \<^verbatim>\<open>edges_idx_\<close>), and the state of a
  Levenberg-Marquardt run on it for \<open>x = 0\<close>, as a function of \<^verbatim>\<open>currentLambda_\<close>
  and \<^verbatim>\<open>ni_\<close>.
\<close>

definition ex_line :: "real \<Rightarrow> Problem" where
  "ex_line x = (ex_empty GENERIC_PROBLEM)\<lparr>store := (\<lambda>k. ex_vertex ''VertexPose'' x),
     verticies_m := [0], edges_m := [(0, ex_edge 0 0)]\<rparr>"

definition ex_line_assembled :: "real \<Rightarrow> Problem" where
  "ex_line_assembled x = (ex_line x)\<lparr>ordering_generic_m := 1,
     edges_m := [(0, (ex_edge 0 0)\<lparr>residual_m := [x], jacobians_m := [scalar_mat 1]\<rparr>)],
     edges_idx_m := [0], Hessian_m := scalar_mat 1, b_m := [- x], delta_x_m := [0]\<rparr>"

definition ex_lm_running :: "real \<Rightarrow> real \<Rightarrow> Problem" where
  "ex_lm_running lambda ni = (ex_line_assembled 0)\<lparr>ni_m := ni, currentLambda_m := lambda,
     currentChi_m := 0, stopThresholdLM_m := 0\<rparr>"

text \<open>
  The states of the one Dog-Leg iteration on the problem with \<open>x = 2\<close>: after the
  initialisation (cost \<open>2\<close>, radius \<open>10\<^sup>4\<close>), after the step (the Gauss-Newton
  step \<open>-2\<close> lies inside the radius), after the update of the vertex, after the
  acceptance (\<open>rho = 1\<close>) and after the new assembly, which appends the id of the
  edge to \<^verbatim>\<open>edges_idx_\<close> once more.
\<close>

definition ex_dl_start :: Problem where
  "ex_dl_start = (ex_line_assembled 2)\<lparr>currentChi_m := 2, stopThresholdDogLeg_m := 2 / 10 ^ 15,
     currentRadius_m := 10 ^ 4\<rparr>"

definition ex_dl_step :: Problem where
  "ex_dl_step = ex_dl_start\<lparr>h_gn_m := [- 2], alpha_m := 1, h_sd_m := [- 2], h_dl_m := [- 2],
     delta_x_m := [- 2]\<rparr>"

definition ex_dl_updated :: Problem where
  "ex_dl_updated = ex_dl_step\<lparr>store := (\<lambda>k. if k = 0 then (ex_vertex ''VertexPose'' 2)\<lparr>parameters_m := [0]\<rparr>
       else ex_vertex ''VertexPose'' 2)\<rparr>"

definition ex_dl_accepted :: Problem where
  "ex_dl_accepted = ex_dl_updated\<lparr>
     edges_m := [(0, (ex_edge 0 0)\<lparr>residual_m := [0], jacobians_m := [scalar_mat 1]\<rparr>)],
     currentChi_m := 0\<rparr>"

definition ex_dl_end :: Problem where
  "ex_dl_end = ex_dl_accepted\<lparr>edges_idx_m := [0, 0], b_m := [0], delta_x_m := [0]\<rparr>"

text \<open>
  An eigen solver for the two matrices of the run below: a matrix of size one is its own
  eigenvalue, and the matrix of size two has the eigenvalues \<open>10\<^sup>-\<^sup>9\<close> and
  \<open>11 \<sqdot> 10\<^sup>-\<^sup>9\<close> (in ascending order, as Eigen gives them) with the eigenvectors
  \<open>(-7/25, 24/25)\<close> and \<open>(24/25, 7/25)\<close>, the columns of \<open>ex_V\<close>. In the matrix
  \<^verbatim>\<open>H_marg\<close> of size three the last row and column are marginalised; its corner of
  size two is \<open>ex_V diag(10\<^sup>-\<^sup>9, 11 \<sqdot> 10\<^sup>-\<^sup>9) ex_V\<^sup>T\<close>.
\<close>

definition ex_V :: MatXX where
  "ex_V = \<lparr>rows = 2, cols = 2,
     coeff = (\<lambda>i j. if i = 0 \<and> j = 0 then - 7 / 25 else if i = 0 \<and> j = 1 then 24 / 25
                    else if i = 1 \<and> j = 0 then 24 / 25 else if i = 1 \<and> j = 1 then 7 / 25
                    else 0)\<rparr>"

definition ex_saes :: "MatXX \<Rightarrow> VecX \<times> MatXX" where
  "ex_saes M = (if rows M = 1 then ([coeff M 0 0], scalar_mat 1)
                 else ([1 / 10 ^ 9, 11 / 10 ^ 9], ex_V))"

definition ex_H_marg :: MatXX where
  "ex_H_marg = \<lparr>rows = 3, cols = 3,
     coeff = (\<lambda>i j. if i = 0 \<and> j = 0 then 6385 / (625 * 10 ^ 9)
                    else if i = 1 \<and> j = 1 then 1115 / (625 * 10 ^ 9)
                    else if i < 2 \<and> j < 2 then 1680 / (625 * 10 ^ 9)
                    else if i = 2 \<and> j = 2 then 1 / 10 ^ 9
                    else if i < 3 \<and> j < 3 then 1 else 0)\<rparr>"

text \<open>The calls of the drivers on a problem with the operations of \<open>ex_ext\<close>.\<close>

definition ex_calls :: "Problem calls" where
  "ex_calls = Problem_calls ex_ext"

text \<open>
  Two more states of the Dog-Leg run on the problem with \<open>x = 2\<close>, at the minimum:
  after a step from the end of the first iteration (the step is zero, and so is the divisor
  of \<^verbatim>\<open>alpha_\<close>) and after the update of the vertex by that step.
\<close>

definition ex_dl_still :: Problem where
  "ex_dl_still = ex_dl_end\<lparr>h_gn_m := [0], alpha_m := 0, h_sd_m := [0], h_dl_m := [0]\<rparr>"

definition ex_dl_rest :: Problem where
  "ex_dl_rest = ex_dl_still\<lparr>store := (\<lambda>k. if k = 0
       then (ex_vertex ''VertexPose'' 2)\<lparr>parameters_m := [0], parameters_backup_m := [0]\<rparr>
       else ex_vertex ''VertexPose'' 2)\<rparr>"

section \<open>Properties\<close>

lemma LM_factor_nine: "LM_scaleFactor (9 / 10) = 488 / 1000"
  by (simp add: LM_scaleFactor_def Let_def power3_eq_cube)

lemma IsGoodStepInLM_nonfinite:
  assumes "length (delta_x_m p) = length (b_m p)" and "LM_tempChi ext p = None"
  shows "IsGoodStepInLM ext p = Some (False, p\<lparr>edges_m := map (\<lambda>(k, e). (k, edge_ComputeResidual ext (store p) e)) (edges_m p), currentLambda_m := currentLambda_m p * ni_m p, ni_m := ni_m p * 2\<rparr>)"
  using assms by (simp add: IsGoodStepInLM_def Let_def)

lemma IsGoodStepInLM_reject:
  assumes "length (delta_x_m p) = length (b_m p)" and "LM_tempChi ext p = Some t"
    and "LM_scale p \<noteq> 0" and "\<not> (currentChi_m p - t) / LM_scale p > 0"
  shows "IsGoodStepInLM ext p = Some (False, p\<lparr>edges_m := map (\<lambda>(k, e). (k, edge_ComputeResidual ext (store p) e)) (edges_m p), currentLambda_m := currentLambda_m p * ni_m p, ni_m := ni_m p * 2\<rparr>)"
  using assms by (simp add: IsGoodStepInLM_def Let_def)

lemma IsGoodStepInLM_accept:
  assumes "length (delta_x_m p) = length (b_m p)" and "LM_tempChi ext p = Some t"
    and "LM_scale p \<noteq> 0" and "(currentChi_m p - t) / LM_scale p > 0"
  shows "IsGoodStepInLM ext p = Some (True, p\<lparr>edges_m := map (\<lambda>(k, e). (k, edge_ComputeResidual ext (store p) e)) (edges_m p), currentLambda_m := currentLambda_m p * LM_scaleFactor ((currentChi_m p - t) / LM_scale p), ni_m := 2, currentChi_m := t\<rparr>)"
  using assms by (simp add: IsGoodStepInLM_def Let_def)

text \<open>
  Claim C4. The acceptance rule of Levenberg-Marquardt. Whenever the sizes of the step
  and of the right-hand side agree, \<^verbatim>\<open>IsGoodStepInLM\<close> returns, and with
  \<open>rho = (currentChi_m - chi_after) / scale\<close> (for a scale that is not zero): the step
  is accepted exactly when the cost after the step is finite and \<open>rho > 0\<close>; an accepted
  step multiplies lambda by \<open>max (1/3) (min (1 - (2 rho - 1)^3) (2/3))\<close> and sets
  \<open>ni_m\<close> to 2; a rejected step multiplies lambda by \<open>ni_m\<close> and doubles \<open>ni_m\<close>.
  For \<open>rho = 0.9\<close> the factor is \<open>0.488\<close>.
\<close>

theorem C4_IsGoodStepInLM_rule:
  assumes "length (delta_x_m p) = length (b_m p)" and "LM_scale p \<noteq> 0"
  shows "\<exists>ok p'. IsGoodStepInLM ext p = Some (ok, p')
     \<and> (ok \<longleftrightarrow> (\<exists>t. LM_tempChi ext p = Some t \<and> (currentChi_m p - t) / LM_scale p > 0))
     \<and> (ok \<longrightarrow> (\<forall>t. LM_tempChi ext p = Some t \<longrightarrow>
            currentLambda_m p' = currentLambda_m p *
              max (1 / 3) (min (1 - (2 * ((currentChi_m p - t) / LM_scale p) - 1) ^ 3) (2 / 3))
          \<and> ((currentChi_m p - t) / LM_scale p = 9 / 10 \<longrightarrow>
               currentLambda_m p' = currentLambda_m p * (488 / 1000)))
          \<and> ni_m p' = 2)
     \<and> (\<not> ok \<longrightarrow> currentLambda_m p' = currentLambda_m p * ni_m p \<and> ni_m p' = ni_m p * 2)"
proof -
  define es where "es = map (\<lambda>(k, e). (k, edge_ComputeResidual ext (store p) e)) (edges_m p)"
  define R where "R = p\<lparr>edges_m := es, currentLambda_m := currentLambda_m p * ni_m p,
    ni_m := ni_m p * 2\<rparr>"
  have R: "currentLambda_m R = currentLambda_m p * ni_m p" "ni_m R = ni_m p * 2"
    by (simp_all add: R_def)
  show ?thesis
  proof (cases "LM_tempChi ext p")
    case None
    have "IsGoodStepInLM ext p = Some (False, R)"
      unfolding R_def es_def by (rule IsGoodStepInLM_nonfinite [OF assms(1) None])
    then show ?thesis using None R by (intro exI [of _ False] exI [of _ R]) simp
  next
    case (Some t)
    show ?thesis
    proof (cases "(currentChi_m p - t) / LM_scale p > 0")
      case True
      define A where "A = p\<lparr>edges_m := es,
        currentLambda_m := currentLambda_m p * LM_scaleFactor ((currentChi_m p - t) / LM_scale p),
        ni_m := 2, currentChi_m := t\<rparr>"
      have run: "IsGoodStepInLM ext p = Some (True, A)"
        unfolding A_def es_def by (rule IsGoodStepInLM_accept [OF assms(1) Some assms(2) True])
      have lam: "currentLambda_m A = currentLambda_m p *
          max (1 / 3) (min (1 - (2 * ((currentChi_m p - t) / LM_scale p) - 1) ^ 3) (2 / 3))"
        by (simp add: A_def LM_scaleFactor_def Let_def)
      have nine: "currentLambda_m A = currentLambda_m p * (488 / 1000)"
        if "(currentChi_m p - t) / LM_scale p = 9 / 10"
      proof -
        have "currentLambda_m A
            = currentLambda_m p * LM_scaleFactor ((currentChi_m p - t) / LM_scale p)"
          by (simp add: A_def)
        also have "\<dots> = currentLambda_m p * (488 / 1000)"
          unfolding that LM_factor_nine ..
        finally show ?thesis .
      qed
      have ni: "ni_m A = 2" by (simp add: A_def)
      show ?thesis
        using run Some True lam nine ni by (intro exI [of _ True] exI [of _ A]) simp
    next
      case False
      have "IsGoodStepInLM ext p = Some (False, R)"
        unfolding R_def es_def by (rule IsGoodStepInLM_reject [OF assms(1) Some assms(2) False])
      then show ?thesis using Some False R by (intro exI [of _ False] exI [of _ R]) simp
    qed
  qed
qed

theorem C4_IsGoodStepInLM_rule_witness:
  "\<exists>p'. IsGoodStepInLM ex_ext ex_lm_state = Some (True, p')
     \<and> currentLambda_m p' = 3 * (488 / 1000) \<and> ni_m p' = 2"
proof -
  have h1: "length (delta_x_m ex_lm_state) = length (b_m ex_lm_state)"
    by (simp add: ex_lm_state_def)
  have sc: "LM_scale ex_lm_state = 1"
    by (simp add: LM_scale_def ex_lm_state_def ex_empty_def dot_def vadd_def smult_def)
  have h2: "LM_scale ex_lm_state \<noteq> 0" by (simp add: sc)
  have t: "LM_tempChi ex_ext ex_lm_state = Some (1 / 2)"
    by (simp add: LM_tempChi_def ex_lm_state_def ex_empty_def ex_edge_def ex_vertex_def
        ex_ext_def edge_ComputeResidual_def squaredNorm_def)
  have chi: "currentChi_m ex_lm_state = 14 / 10" "currentLambda_m ex_lm_state = 3"
    by (simp_all add: ex_lm_state_def)
  from C4_IsGoodStepInLM_rule [of ex_lm_state ex_ext, OF h1 h2]
  obtain ok p' where r: "IsGoodStepInLM ex_ext ex_lm_state = Some (ok, p')"
    and a: "ok \<longleftrightarrow> (\<exists>t. LM_tempChi ex_ext ex_lm_state = Some t
              \<and> (currentChi_m ex_lm_state - t) / LM_scale ex_lm_state > 0)"
    and b: "ok \<longrightarrow> (\<forall>t. LM_tempChi ex_ext ex_lm_state = Some t \<longrightarrow>
            currentLambda_m p' = currentLambda_m ex_lm_state *
              max (1 / 3) (min (1 - (2 * ((currentChi_m ex_lm_state - t) / LM_scale ex_lm_state) - 1) ^ 3) (2 / 3))
          \<and> ((currentChi_m ex_lm_state - t) / LM_scale ex_lm_state = 9 / 10 \<longrightarrow>
               currentLambda_m p' = currentLambda_m ex_lm_state * (488 / 1000)))
          \<and> ni_m p' = 2"
    by blast
  have "(currentChi_m ex_lm_state - 1 / 2) / LM_scale ex_lm_state > 0"
    by (simp add: sc chi)
  with a t have ok: ok by blast
  have rho: "(currentChi_m ex_lm_state - 1 / 2) / LM_scale ex_lm_state = 9 / 10"
    by (simp add: sc chi)
  from b ok t rho have "currentLambda_m p' = currentLambda_m ex_lm_state * (488 / 1000)"
    by blast
  then have "currentLambda_m p' = 3 * (488 / 1000)" by (simp only: chi)
  moreover have "ni_m p' = 2" using b ok by simp
  ultimately show ?thesis using r ok by simp
qed

subsection \<open>Ordering\<close>

lemma pose_not_landmark: "IsPoseVertex v \<Longrightarrow> \<not> IsLandmarkVertex v"
  by (auto simp add: IsPoseVertex_def IsLandmarkVertex_def)

lemma SetOrderingId_fields [simp]:
  "TypeInfo (SetOrderingId k n st j) = TypeInfo (st j)"
  "LocalDimension (SetOrderingId k n st j) = LocalDimension (st j)"
  "IsPoseVertex (SetOrderingId k n st j) = IsPoseVertex (st j)"
  "IsLandmarkVertex (SetOrderingId k n st j) = IsLandmarkVertex (st j)"
  "OrderingId (SetOrderingId k n st j) = (if j = k then n else OrderingId (st j))"
  by (simp_all add: SetOrderingId_def IsPoseVertex_def IsLandmarkVertex_def)

lemma dims_SetOrderingId [simp]: "dims (SetOrderingId k n st) ks = dims st ks"
  by (simp add: dims_def)

lemma map_insert_props:
  assumes "sorted ks" "distinct ks"
  shows "sorted (map_insert k ks)" "distinct (map_insert k ks)"
    "set (map_insert k ks) = insert k (set ks)"
  using assms by (auto simp add: map_insert_def sorted_insort distinct_insort set_insort_key)

lemma visit_simps [simp]:
  "problemType_m (SetOrdering_visit k p) = problemType_m p"
  "verticies_m (SetOrdering_visit k p) = verticies_m p"
  "ordering_generic_m (SetOrdering_visit k p) = ordering_generic_m p + LocalDimension (store p k)"
  by (simp_all add: SetOrdering_visit_def AddOrderingSLAM_def Let_def)

lemma visit_generic [simp]:
  "problemType_m p = GENERIC_PROBLEM \<Longrightarrow>
     SetOrdering_visit k p = p\<lparr>ordering_generic_m := ordering_generic_m p + LocalDimension (store p k)\<rparr>"
  by (simp add: SetOrdering_visit_def Let_def)

lemma visit_store:
  "problemType_m p = SLAM_PROBLEM \<Longrightarrow> store (SetOrdering_visit k p) =
     (if IsPoseVertex (store p k) then SetOrderingId k (int (ordering_poses_m p)) (store p)
      else if IsLandmarkVertex (store p k)
        then SetOrderingId k (int (ordering_landmarks_m p)) (store p)
      else store p)"
  by (simp add: SetOrdering_visit_def AddOrderingSLAM_def Let_def)

lemma visit_counters:
  "problemType_m p = SLAM_PROBLEM \<Longrightarrow> ordering_poses_m (SetOrdering_visit k p) =
     ordering_poses_m p + (if IsPoseVertex (store p k) then LocalDimension (store p k) else 0)"
  "problemType_m p = SLAM_PROBLEM \<Longrightarrow> ordering_landmarks_m (SetOrdering_visit k p) =
     ordering_landmarks_m p + (if IsLandmarkVertex (store p k) \<and> \<not> IsPoseVertex (store p k) then LocalDimension (store p k) else 0)"
  by (simp_all add: SetOrdering_visit_def AddOrderingSLAM_def Let_def)

lemma visit_idx:
  "problemType_m p = SLAM_PROBLEM \<Longrightarrow> idx_pose_vertices_m (SetOrdering_visit k p) =
     (if IsPoseVertex (store p k) then map_insert k (idx_pose_vertices_m p)
      else idx_pose_vertices_m p)"
  "problemType_m p = SLAM_PROBLEM \<Longrightarrow> idx_landmark_vertices_m (SetOrdering_visit k p) =
     (if IsLandmarkVertex (store p k) \<and> \<not> IsPoseVertex (store p k)
      then map_insert k (idx_landmark_vertices_m p)
      else idx_landmark_vertices_m p)"
  by (simp_all add: SetOrdering_visit_def AddOrderingSLAM_def Let_def)

lemma visit_kind [simp]:
  "TypeInfo (store (SetOrdering_visit k p) j) = TypeInfo (store p j)"
  "LocalDimension (store (SetOrdering_visit k p) j) = LocalDimension (store p j)"
  by (cases "problemType_m p"; simp add: visit_store)+

lemma visit_Is [simp]:
  "IsPoseVertex (store (SetOrdering_visit k p) j) = IsPoseVertex (store p j)"
  "IsLandmarkVertex (store (SetOrdering_visit k p) j) = IsLandmarkVertex (store p j)"
  by (simp_all add: IsPoseVertex_def IsLandmarkVertex_def)

lemma visit_dims [simp]: "dims (store (SetOrdering_visit k p)) ks = dims (store p) ks"
  by (simp add: dims_def)

lemma walk_problemType [simp]: "problemType_m (SetOrdering_walk ks p) = problemType_m p"
  by (induction ks arbitrary: p) simp_all

lemma walk_verticies [simp]: "verticies_m (SetOrdering_walk ks p) = verticies_m p"
  by (induction ks arbitrary: p) simp_all

lemma walk_TypeInfo [simp]:
  "TypeInfo (store (SetOrdering_walk ks p) j) = TypeInfo (store p j)"
  by (induction ks arbitrary: p) simp_all

lemma walk_LocalDimension [simp]:
  "LocalDimension (store (SetOrdering_walk ks p) j) = LocalDimension (store p j)"
  by (induction ks arbitrary: p) simp_all

lemma walk_Is [simp]:
  "IsPoseVertex (store (SetOrdering_walk k p) j) = IsPoseVertex (store p j)"
  "IsLandmarkVertex (store (SetOrdering_walk k p) j) = IsLandmarkVertex (store p j)"
  by (simp_all add: IsPoseVertex_def IsLandmarkVertex_def)

lemma walk_generic_m [simp]:
  "ordering_generic_m (SetOrdering_walk ks p) = ordering_generic_m p + dims (store p) ks"
proof (induction ks arbitrary: p)
  case Nil
  show ?case by (simp add: dims_def)
next
  case (Cons k ks)
  show ?case by (simp add: Cons.IH) (simp add: dims_def)
qed

lemma walk_generic:
  "problemType_m p = GENERIC_PROBLEM \<Longrightarrow> store (SetOrdering_walk ks p) = store p"
  by (induction ks arbitrary: p) simp_all

lemma walk_poses:
  "problemType_m p = SLAM_PROBLEM \<Longrightarrow> ordering_poses_m (SetOrdering_walk ks p) =
     ordering_poses_m p + dims (store p) (filter (\<lambda>k. IsPoseVertex (store p k)) ks)"
proof (induction ks arbitrary: p)
  case Nil
  show ?case by (simp add: dims_def)
next
  case (Cons k ks)
  have "ordering_poses_m (SetOrdering_walk ks (SetOrdering_visit k p)) =
      ordering_poses_m (SetOrdering_visit k p)
      + dims (store p) (filter (\<lambda>k. IsPoseVertex (store p k)) ks)"
    using Cons.IH [of "SetOrdering_visit k p"] Cons.prems by simp
  then show ?case using Cons.prems by (simp add: visit_counters dims_def)
qed

lemma walk_landmarks:
  "problemType_m p = SLAM_PROBLEM \<Longrightarrow> ordering_landmarks_m (SetOrdering_walk ks p) =
     ordering_landmarks_m p + dims (store p) (filter (\<lambda>k. IsLandmarkVertex (store p k)) ks)"
proof (induction ks arbitrary: p)
  case Nil
  show ?case by (simp add: dims_def)
next
  case (Cons k ks)
  have "ordering_landmarks_m (SetOrdering_walk ks (SetOrdering_visit k p)) =
      ordering_landmarks_m (SetOrdering_visit k p)
      + dims (store p) (filter (\<lambda>k. IsLandmarkVertex (store p k)) ks)"
    using Cons.IH [of "SetOrdering_visit k p"] Cons.prems by simp
  then show ?case using Cons.prems pose_not_landmark [of "store p k"]
    by (auto simp add: visit_counters dims_def)
qed

lemma visit_OrderingId:
  "problemType_m p = SLAM_PROBLEM \<Longrightarrow> OrderingId (store (SetOrdering_visit k p) j) =
     (if j = k \<and> IsPoseVertex (store p k) then int (ordering_poses_m p)
      else if j = k \<and> IsLandmarkVertex (store p k) then int (ordering_landmarks_m p)
      else OrderingId (store p j))"
  by (simp add: visit_store)

lemma walk_OrderingId:
  assumes "problemType_m p = SLAM_PROBLEM" and "distinct ks"
  shows "OrderingId (store (SetOrdering_walk ks p) j) =
     (if j \<in> set ks \<and> IsPoseVertex (store p j)
      then int (ordering_poses_m p + dims (store p)
             (filter (\<lambda>k. IsPoseVertex (store p k)) (takeWhile (\<lambda>y. y \<noteq> j) ks)))
      else if j \<in> set ks \<and> IsLandmarkVertex (store p j)
      then int (ordering_landmarks_m p + dims (store p)
             (filter (\<lambda>k. IsLandmarkVertex (store p k)) (takeWhile (\<lambda>y. y \<noteq> j) ks)))
      else OrderingId (store p j))"
  using assms
proof (induction ks arbitrary: p)
  case Nil
  show ?case by simp
next
  case (Cons k ks)
  let ?q = "SetOrdering_visit k p"
  have q: "problemType_m ?q = SLAM_PROBLEM" using Cons.prems by simp
  have d: "distinct ks" and k: "k \<notin> set ks" using Cons.prems by simp_all
  have IH: "OrderingId (store (SetOrdering_walk (k # ks) p) j) =
     (if j \<in> set ks \<and> IsPoseVertex (store p j)
      then int (ordering_poses_m ?q + dims (store p)
             (filter (\<lambda>k. IsPoseVertex (store p k)) (takeWhile (\<lambda>y. y \<noteq> j) ks)))
      else if j \<in> set ks \<and> IsLandmarkVertex (store p j)
      then int (ordering_landmarks_m ?q + dims (store p)
             (filter (\<lambda>k. IsLandmarkVertex (store p k)) (takeWhile (\<lambda>y. y \<noteq> j) ks)))
      else OrderingId (store ?q j))"
    using Cons.IH [OF q d] by simp
  show ?case
  proof (cases "j = k")
    case True
    show ?thesis unfolding IH using True k Cons.prems(1) pose_not_landmark [of "store p k"]
      by (auto simp add: visit_OrderingId dims_def)
  next
    case False
    show ?thesis unfolding IH using False Cons.prems(1) pose_not_landmark [of "store p k"]
      by (auto simp add: visit_OrderingId visit_counters dims_def)
  qed
qed

lemma walk_idx_pose:
  assumes "problemType_m p = SLAM_PROBLEM"
    and "sorted (idx_pose_vertices_m p)" "distinct (idx_pose_vertices_m p)"
  shows "sorted (idx_pose_vertices_m (SetOrdering_walk ks p))
     \<and> distinct (idx_pose_vertices_m (SetOrdering_walk ks p))
     \<and> set (idx_pose_vertices_m (SetOrdering_walk ks p)) =
         set (idx_pose_vertices_m p) \<union> {k \<in> set ks. IsPoseVertex (store p k)}"
  using assms
proof (induction ks arbitrary: p)
  case Nil
  then show ?case by simp
next
  case (Cons k ks)
  let ?q = "SetOrdering_visit k p"
  have q: "problemType_m ?q = SLAM_PROBLEM" using Cons.prems by simp
  have s: "sorted (idx_pose_vertices_m ?q)" "distinct (idx_pose_vertices_m ?q)"
    "set (idx_pose_vertices_m ?q) =
       set (idx_pose_vertices_m p) \<union> (if IsPoseVertex (store p k) then {k} else {})"
    using Cons.prems by (simp_all add: visit_idx map_insert_props)
  from Cons.IH [OF q s(1,2)] show ?case by (auto simp add: s(3) split: if_splits)
qed

lemma walk_idx_landmark:
  assumes "problemType_m p = SLAM_PROBLEM"
    and "sorted (idx_landmark_vertices_m p)" "distinct (idx_landmark_vertices_m p)"
  shows "sorted (idx_landmark_vertices_m (SetOrdering_walk ks p))
     \<and> distinct (idx_landmark_vertices_m (SetOrdering_walk ks p))
     \<and> set (idx_landmark_vertices_m (SetOrdering_walk ks p)) =
         set (idx_landmark_vertices_m p) \<union> {k \<in> set ks. IsLandmarkVertex (store p k)}"
  using assms
proof (induction ks arbitrary: p)
  case Nil
  then show ?case by simp
next
  case (Cons k ks)
  let ?q = "SetOrdering_visit k p"
  have q: "problemType_m ?q = SLAM_PROBLEM" using Cons.prems by simp
  have s: "sorted (idx_landmark_vertices_m ?q)" "distinct (idx_landmark_vertices_m ?q)"
    "set (idx_landmark_vertices_m ?q) =
       set (idx_landmark_vertices_m p) \<union> (if IsLandmarkVertex (store p k) then {k} else {})"
    using Cons.prems pose_not_landmark [of "store p k"]
    by (auto simp add: visit_idx map_insert_props)
  from Cons.IH [OF q s(1,2)] show ?case by (auto simp add: s(3) split: if_splits)
qed

lemma shift_TypeInfo [simp]: "TypeInfo (shift_landmarks d ls st j) = TypeInfo (st j)"
  by (induction ls arbitrary: st) simp_all

lemma shift_LocalDimension [simp]:
  "LocalDimension (shift_landmarks d ls st j) = LocalDimension (st j)"
  by (induction ls arbitrary: st) simp_all

lemma shift_OrderingId:
  "distinct ls \<Longrightarrow> OrderingId (shift_landmarks d ls st j) =
     (if j \<in> set ls then OrderingId (st j) + int d else OrderingId (st j))"
  by (induction ls arbitrary: st) auto

lemma CheckOrdering_walk_packed:
  assumes "distinct xs"
    and "\<And>x. x \<in> set xs \<Longrightarrow>
          OrderingId (st x) = c0 + int (dims st (takeWhile (\<lambda>y. y \<noteq> x) xs))"
  shows "CheckOrdering_walk st xs c0 = Some (c0 + int (dims st xs))"
  using assms
proof (induction xs arbitrary: c0)
  case Nil
  show ?case by (simp add: dims_def)
next
  case (Cons x xs)
  have hd: "OrderingId (st x) = c0" using Cons.prems(2) [of x] by (simp add: dims_def)
  have "CheckOrdering_walk st xs (c0 + int (LocalDimension (st x)))
      = Some (c0 + int (LocalDimension (st x)) + int (dims st xs))"
  proof (rule Cons.IH)
    show "distinct xs" using Cons.prems(1) by simp
    fix y assume y: "y \<in> set xs"
    then have "y \<noteq> x" using Cons.prems(1) by auto
    then show "OrderingId (st y) =
        c0 + int (LocalDimension (st x)) + int (dims st (takeWhile (\<lambda>z. z \<noteq> y) xs))"
      using Cons.prems(2) [of y] y by (simp add: dims_def)
  qed
  then show ?case using hd by (simp add: dims_def)
qed

lemma filter_takeWhile_neq:
  assumes "P x"
  shows "filter P (takeWhile (\<lambda>y. y \<noteq> x) xs) = takeWhile (\<lambda>y. y \<noteq> x) (filter P xs)"
proof (induction xs)
  case Nil
  show ?case by simp
next
  case (Cons a xs)
  show ?case
  proof (cases "a = x")
    case True
    then show ?thesis using assms by simp
  next
    case False
    then show ?thesis using Cons.IH by simp
  qed
qed

lemma dims_takeWhile_le:
  "x \<in> set xs \<Longrightarrow> dims st (takeWhile (\<lambda>y. y \<noteq> x) xs) + LocalDimension (st x) \<le> dims st xs"
  by (induction xs) (auto simp add: dims_def)

lemma dims_cong: "(\<And>k. LocalDimension (st k) = LocalDimension (st' k)) \<Longrightarrow> dims st ks = dims st' ks"
  by (simp add: dims_def)

lemma dims_filter_le:
  "dims st (filter (\<lambda>k. IsPoseVertex (st k)) ks) + dims st (filter (\<lambda>k. IsLandmarkVertex (st k)) ks)
     \<le> dims st ks"
  by (induction ks) (auto simp add: dims_def dest: pose_not_landmark)

lemma dims_filter_eq:
  "\<forall>k\<in>set ks. IsPoseVertex (st k) \<or> IsLandmarkVertex (st k) \<Longrightarrow>
   dims st (filter (\<lambda>k. IsPoseVertex (st k)) ks) + dims st (filter (\<lambda>k. IsLandmarkVertex (st k)) ks)
     = dims st ks"
  by (induction ks) (auto simp add: dims_def dest: pose_not_landmark)

lemma SetOrdering_GENERIC:
  "problemType_m p = GENERIC_PROBLEM \<Longrightarrow> SetOrdering p =
     p\<lparr>ordering_poses_m := 0, ordering_generic_m := dims (store p) (verticies_m p),
       ordering_landmarks_m := 0\<rparr>"
proof -
  assume g: "problemType_m p = GENERIC_PROBLEM"
  have "SetOrdering_walk ks q = q\<lparr>ordering_generic_m := ordering_generic_m q + dims (store q) ks\<rparr>"
    if "problemType_m q = GENERIC_PROBLEM" for ks q
    using that by (induction ks arbitrary: q) (simp_all add: dims_def)
  then show ?thesis using g by (simp add: SetOrdering_def Let_def)
qed

lemma SetOrdering_SLAM:
  assumes "problemType_m p = SLAM_PROBLEM"
  defines "w \<equiv> SetOrdering_walk (verticies_m p)
                 (p\<lparr>ordering_poses_m := 0, ordering_generic_m := 0, ordering_landmarks_m := 0\<rparr>)"
  shows "SetOrdering p =
     w\<lparr>store := shift_landmarks (ordering_poses_m w) (idx_landmark_vertices_m w) (store w)\<rparr>"
  using assms by (simp add: SetOrdering_def Let_def)

lemma SetOrdering_SLAM_facts:
  assumes slam: "problemType_m p = SLAM_PROBLEM" and wf: "maps_wf p"
  defines "vs \<equiv> verticies_m p"
  defines "ps \<equiv> filter (\<lambda>k. IsPoseVertex (store p k)) (verticies_m p)"
  defines "ls \<equiv> filter (\<lambda>k. IsLandmarkVertex (store p k)) (verticies_m p)"
  defines "p' \<equiv> SetOrdering p"
  shows "verticies_m p' = vs"
    and "\<And>j. TypeInfo (store p' j) = TypeInfo (store p j)"
    and "\<And>j. LocalDimension (store p' j) = LocalDimension (store p j)"
    and "ordering_generic_m p' = dims (store p) vs"
    and "ordering_poses_m p' = dims (store p) ps"
    and "ordering_landmarks_m p' = dims (store p) ls"
    and "idx_pose_vertices_m p' = ps"
    and "idx_landmark_vertices_m p' = ls"
    and "\<And>j. j \<in> set ps \<Longrightarrow>
           OrderingId (store p' j) = int (dims (store p) (takeWhile (\<lambda>y. y \<noteq> j) ps))"
    and "\<And>j. j \<in> set ls \<Longrightarrow>
           OrderingId (store p' j) =
             int (dims (store p) ps) + int (dims (store p) (takeWhile (\<lambda>y. y \<noteq> j) ls))"
    and "\<And>j. \<not> IsPoseVertex (store p j) \<Longrightarrow> \<not> IsLandmarkVertex (store p j) \<Longrightarrow>
           OrderingId (store p' j) = OrderingId (store p j)"
proof -
  define p0 where "p0 = p\<lparr>ordering_poses_m := 0, ordering_generic_m := 0, ordering_landmarks_m := 0\<rparr>"
  define w where "w = SetOrdering_walk (verticies_m p) p0"
  have p'_eq: "p' = w\<lparr>store := shift_landmarks (ordering_poses_m w) (idx_landmark_vertices_m w) (store w)\<rparr>"
    unfolding p'_def w_def p0_def by (rule SetOrdering_SLAM [OF slam])
  have p0: "problemType_m p0 = SLAM_PROBLEM" "store p0 = store p" "verticies_m p0 = verticies_m p"
    "ordering_poses_m p0 = 0" "ordering_landmarks_m p0 = 0" "ordering_generic_m p0 = 0"
    "idx_pose_vertices_m p0 = idx_pose_vertices_m p"
    "idx_landmark_vertices_m p0 = idx_landmark_vertices_m p"
    using slam by (simp_all add: p0_def)
  have dvs: "distinct vs" "sorted vs" using wf by (simp_all add: maps_wf_def vs_def)
  show "verticies_m p' = vs" by (simp add: p'_eq w_def p0 vs_def)
  show ty: "TypeInfo (store p' j) = TypeInfo (store p j)" for j
    by (simp add: p'_eq w_def p0)
  show dim: "LocalDimension (store p' j) = LocalDimension (store p j)" for j
    by (simp add: p'_eq w_def p0)
  show "ordering_generic_m p' = dims (store p) vs"
    by (simp add: p'_eq w_def p0 vs_def)
  have wposes: "ordering_poses_m w = dims (store p) ps"
    unfolding w_def by (simp add: walk_poses [OF p0(1)] p0 ps_def)
  then show "ordering_poses_m p' = dims (store p) ps" by (simp add: p'_eq)
  show "ordering_landmarks_m p' = dims (store p) ls"
    unfolding p'_eq w_def by (simp add: walk_landmarks [OF p0(1)] p0 ls_def)
  have "sorted (idx_pose_vertices_m p0)" "distinct (idx_pose_vertices_m p0)"
    using wf by (simp_all add: maps_wf_def p0)
  from walk_idx_pose [OF p0(1) this, of "verticies_m p"]
  have ip: "sorted (idx_pose_vertices_m w)" "distinct (idx_pose_vertices_m w)"
    "set (idx_pose_vertices_m w) =
       set (idx_pose_vertices_m p) \<union> {k \<in> set (verticies_m p). IsPoseVertex (store p k)}"
    by (simp_all add: w_def p0)
  have "set (idx_pose_vertices_m w) = set ps"
    using wf by (auto simp add: ip(3) ps_def maps_wf_def)
  moreover have "sorted ps" "distinct ps" using dvs by (simp_all add: ps_def vs_def sorted_wrt_filter)
  ultimately have wps: "idx_pose_vertices_m w = ps"
    using ip(1,2) by (intro sorted_distinct_set_unique) simp_all
  then show "idx_pose_vertices_m p' = ps" by (simp add: p'_eq)
  have "sorted (idx_landmark_vertices_m p0)" "distinct (idx_landmark_vertices_m p0)"
    using wf by (simp_all add: maps_wf_def p0)
  from walk_idx_landmark [OF p0(1) this, of "verticies_m p"]
  have il: "sorted (idx_landmark_vertices_m w)" "distinct (idx_landmark_vertices_m w)"
    "set (idx_landmark_vertices_m w) =
       set (idx_landmark_vertices_m p) \<union> {k \<in> set (verticies_m p). IsLandmarkVertex (store p k)}"
    by (simp_all add: w_def p0)
  have "set (idx_landmark_vertices_m w) = set ls"
    using wf by (auto simp add: il(3) ls_def maps_wf_def)
  moreover have dls: "sorted ls" "distinct ls" using dvs by (simp_all add: ls_def vs_def sorted_wrt_filter)
  ultimately have wls: "idx_landmark_vertices_m w = ls"
    using il(1,2) by (intro sorted_distinct_set_unique) simp_all
  then show "idx_landmark_vertices_m p' = ls" by (simp add: p'_eq)
  have wid: "OrderingId (store w j) =
     (if j \<in> set vs \<and> IsPoseVertex (store p j)
      then int (dims (store p)
             (filter (\<lambda>k. IsPoseVertex (store p k)) (takeWhile (\<lambda>y. y \<noteq> j) vs)))
      else if j \<in> set vs \<and> IsLandmarkVertex (store p j)
      then int (dims (store p)
             (filter (\<lambda>k. IsLandmarkVertex (store p k)) (takeWhile (\<lambda>y. y \<noteq> j) vs)))
      else OrderingId (store p j))" for j
    using walk_OrderingId [OF p0(1), of "verticies_m p" j] dvs(1)
    by (simp add: w_def p0 vs_def)
  have pid: "OrderingId (store p' j) =
      (if j \<in> set ls then OrderingId (store w j) + int (dims (store p) ps)
       else OrderingId (store w j))" for j
    by (simp add: p'_eq wls wposes shift_OrderingId [OF dls(2)])
  show "OrderingId (store p' j) = int (dims (store p) (takeWhile (\<lambda>y. y \<noteq> j) ps))"
    if "j \<in> set ps" for j
  proof -
    have j: "j \<in> set vs" "IsPoseVertex (store p j)" using that by (simp_all add: ps_def vs_def)
    then have "j \<notin> set ls" using pose_not_landmark by (simp add: ls_def)
    then show ?thesis using j
      by (simp add: pid wid ps_def vs_def filter_takeWhile_neq [of "\<lambda>k. IsPoseVertex (store p k)"])
  qed
  show "OrderingId (store p' j) =
      int (dims (store p) ps) + int (dims (store p) (takeWhile (\<lambda>y. y \<noteq> j) ls))"
    if "j \<in> set ls" for j
  proof -
    have j: "j \<in> set vs" "IsLandmarkVertex (store p j)" using that by (simp_all add: ls_def vs_def)
    then have "\<not> IsPoseVertex (store p j)" using pose_not_landmark by blast
    then show ?thesis using j that
      by (simp add: pid wid ls_def vs_def
          filter_takeWhile_neq [of "\<lambda>k. IsLandmarkVertex (store p k)"])
  qed
  show "OrderingId (store p' j) = OrderingId (store p j)"
    if "\<not> IsPoseVertex (store p j)" "\<not> IsLandmarkVertex (store p j)" for j
  proof -
    have "j \<notin> set ls" using that(2) by (simp add: ls_def)
    then show ?thesis using that by (simp add: pid wid)
  qed
qed

lemma SetOrdering_TypeInfo [simp]:
  "TypeInfo (store (SetOrdering p) j) = TypeInfo (store p j)"
  by (cases "problemType_m p") (simp_all add: SetOrdering_SLAM SetOrdering_GENERIC)

lemma SetOrdering_LocalDimension [simp]:
  "LocalDimension (store (SetOrdering p) j) = LocalDimension (store p j)"
  by (cases "problemType_m p") (simp_all add: SetOrdering_SLAM SetOrdering_GENERIC)

lemma SetOrdering_verticies [simp]: "verticies_m (SetOrdering p) = verticies_m p"
  by (cases "problemType_m p") (simp_all add: SetOrdering_SLAM SetOrdering_GENERIC)

lemma SetOrdering_Is [simp]:
  "IsPoseVertex (store (SetOrdering p) j) = IsPoseVertex (store p j)"
  "IsLandmarkVertex (store (SetOrdering p) j) = IsLandmarkVertex (store p j)"
  by (simp_all add: IsPoseVertex_def IsLandmarkVertex_def)

text \<open>
  Claim C3, as amended. \<^verbatim>\<open>SetOrdering\<close> makes \<^verbatim>\<open>ordering_generic_\<close> the sum
  of the local dimensions of all vertices, in both modes. In the generic mode it assigns
  no ordering id: the vertices keep the ids they had. In the SLAM mode, on a problem whose
  index maps hold only vertices of the problem, the pose-like vertices are packed without
  gaps from offset 0 in ascending order of their ids and the landmark-like vertices from
  offset \<^verbatim>\<open>ordering_poses_\<close> (this is what \<^verbatim>\<open>CheckOrdering\<close> asserts); so the
  block of a pose-like vertex lies in \<open>[0, ordering_poses)\<close> and the block of a
  landmark-like vertex in \<open>[ordering_poses, ordering_poses + ordering_landmarks)\<close>,
  which ends at \<^verbatim>\<open>ordering_generic_\<close> when every vertex is pose-like or
  landmark-like. A vertex of another type gets no ordering id in the SLAM mode either:
  it keeps the id it had.
\<close>

theorem C3_SetOrdering:
  assumes wf: "maps_wf p" and p': "p' = SetOrdering p"
  shows "ordering_generic_m p' = dims (store p') (verticies_m p')
    \<and> (problemType_m p = GENERIC_PROBLEM \<longrightarrow> store p' = store p)
    \<and> (problemType_m p = SLAM_PROBLEM \<longrightarrow>
         CheckOrdering p' = Some True
       \<and> idx_pose_vertices_m p' = filter (\<lambda>k. IsPoseVertex (store p' k)) (verticies_m p')
       \<and> idx_landmark_vertices_m p' = filter (\<lambda>k. IsLandmarkVertex (store p' k)) (verticies_m p')
       \<and> ordering_poses_m p' = dims (store p') (idx_pose_vertices_m p')
       \<and> ordering_landmarks_m p' = dims (store p') (idx_landmark_vertices_m p')
       \<and> ordering_poses_m p' + ordering_landmarks_m p' \<le> ordering_generic_m p'
       \<and> ((\<forall>k\<in>set (verticies_m p'). IsPoseVertex (store p' k) \<or> IsLandmarkVertex (store p' k))
            \<longrightarrow> ordering_poses_m p' + ordering_landmarks_m p' = ordering_generic_m p')
       \<and> (\<forall>k\<in>set (verticies_m p'). IsPoseVertex (store p' k) \<longrightarrow>
            0 \<le> OrderingId (store p' k)
          \<and> OrderingId (store p' k) + int (LocalDimension (store p' k)) \<le> int (ordering_poses_m p'))
       \<and> (\<forall>k\<in>set (verticies_m p'). IsLandmarkVertex (store p' k) \<longrightarrow>
            int (ordering_poses_m p') \<le> OrderingId (store p' k)
          \<and> OrderingId (store p' k) + int (LocalDimension (store p' k))
               \<le> int (ordering_poses_m p' + ordering_landmarks_m p'))
       \<and> (\<forall>k. \<not> IsPoseVertex (store p k) \<and> \<not> IsLandmarkVertex (store p k) \<longrightarrow>
            OrderingId (store p' k) = OrderingId (store p k)))"
proof (cases "problemType_m p")
  case GENERIC_PROBLEM
  then show ?thesis unfolding p' by (simp add: SetOrdering_GENERIC)
next
  case SLAM_PROBLEM
  define ps where "ps = filter (\<lambda>k. IsPoseVertex (store p k)) (verticies_m p)"
  define ls where "ls = filter (\<lambda>k. IsLandmarkVertex (store p k)) (verticies_m p)"
  note f = SetOrdering_SLAM_facts [OF SLAM_PROBLEM wf, folded p' ps_def ls_def]
  have Is: "IsPoseVertex (store p' j) = IsPoseVertex (store p j)"
    "IsLandmarkVertex (store p' j) = IsLandmarkVertex (store p j)" for j
    by (simp_all add: IsPoseVertex_def IsLandmarkVertex_def f(2))
  have d: "dims (store p') ks = dims (store p) ks" for ks
    by (rule dims_cong) (rule f(3))
  have dist: "distinct ps" "distinct ls"
    using wf by (simp_all add: ps_def ls_def maps_wf_def)
  have slam': "problemType_m p' = SLAM_PROBLEM"
    unfolding p' using SLAM_PROBLEM by (simp add: SetOrdering_SLAM)
  have c1: "CheckOrdering_walk (store p') ps 0 = Some (0 + int (dims (store p') ps))"
    by (rule CheckOrdering_walk_packed [OF dist(1)]) (simp add: f(9) d)
  have c2: "CheckOrdering_walk (store p') ls (int (dims (store p) ps))
      = Some (int (dims (store p) ps) + int (dims (store p') ls))"
    by (rule CheckOrdering_walk_packed [OF dist(2)]) (simp add: f(10) d)
  have chk: "CheckOrdering p' = Some True"
    using c1 c2 by (simp add: CheckOrdering_def slam' f(7,8) d)
  have le: "ordering_poses_m p' + ordering_landmarks_m p' \<le> ordering_generic_m p'"
    unfolding f(4,5,6) ps_def ls_def by (rule dims_filter_le)
  have eq: "ordering_poses_m p' + ordering_landmarks_m p' = ordering_generic_m p'"
    if "\<forall>k\<in>set (verticies_m p'). IsPoseVertex (store p' k) \<or> IsLandmarkVertex (store p' k)"
    unfolding f(4,5,6) ps_def ls_def using that by (intro dims_filter_eq) (simp add: f(1) Is)
  have pose: "0 \<le> OrderingId (store p' k)
      \<and> OrderingId (store p' k) + int (LocalDimension (store p' k)) \<le> int (ordering_poses_m p')"
    if "k \<in> set (verticies_m p')" "IsPoseVertex (store p' k)" for k
  proof -
    have k: "k \<in> set ps" using that by (simp add: ps_def f(1) Is)
    from dims_takeWhile_le [OF k, of "store p"] show ?thesis
      by (simp add: f(9) [OF k] f(5) f(3))
  qed
  have lm: "int (ordering_poses_m p') \<le> OrderingId (store p' k)
      \<and> OrderingId (store p' k) + int (LocalDimension (store p' k))
           \<le> int (ordering_poses_m p' + ordering_landmarks_m p')"
    if "k \<in> set (verticies_m p')" "IsLandmarkVertex (store p' k)" for k
  proof -
    have k: "k \<in> set ls" using that by (simp add: ls_def f(1) Is)
    from dims_takeWhile_le [OF k, of "store p"] show ?thesis
      by (simp add: f(10) [OF k] f(5,6) f(3))
  qed
  have g: "ordering_generic_m p' = dims (store p') (verticies_m p')"
    by (simp add: f(4) f(1) d)
  have i1: "idx_pose_vertices_m p' = filter (\<lambda>k. IsPoseVertex (store p' k)) (verticies_m p')"
    by (simp add: f(7) f(1) Is ps_def)
  have i2: "idx_landmark_vertices_m p' = filter (\<lambda>k. IsLandmarkVertex (store p' k)) (verticies_m p')"
    by (simp add: f(8) f(1) Is ls_def)
  have o1: "ordering_poses_m p' = dims (store p') (idx_pose_vertices_m p')"
    by (simp add: f(5) f(7) d)
  have o2: "ordering_landmarks_m p' = dims (store p') (idx_landmark_vertices_m p')"
    by (simp add: f(6) f(8) d)
  have pose': "\<forall>k\<in>set (verticies_m p'). IsPoseVertex (store p' k) \<longrightarrow>
            0 \<le> OrderingId (store p' k)
          \<and> OrderingId (store p' k) + int (LocalDimension (store p' k)) \<le> int (ordering_poses_m p')"
    using pose by blast
  have lm': "\<forall>k\<in>set (verticies_m p'). IsLandmarkVertex (store p' k) \<longrightarrow>
            int (ordering_poses_m p') \<le> OrderingId (store p' k)
          \<and> OrderingId (store p' k) + int (LocalDimension (store p' k))
               \<le> int (ordering_poses_m p' + ordering_landmarks_m p')"
    using lm by blast
  have other: "\<forall>k. \<not> IsPoseVertex (store p k) \<and> \<not> IsLandmarkVertex (store p k) \<longrightarrow>
            OrderingId (store p' k) = OrderingId (store p k)"
    using f(11) by blast
  have gen: "problemType_m p = GENERIC_PROBLEM \<Longrightarrow> store p' = store p"
    using SLAM_PROBLEM by simp
  show ?thesis
    apply (intro conjI impI)
              apply (rule g)
             apply (erule gen)
            apply (rule chk)
           apply (rule i1)
          apply (rule i2)
         apply (rule o1)
        apply (rule o2)
       apply (rule le)
      apply (erule eq)
      apply (rule pose')
     apply (rule lm')
    apply (rule other)
    done
qed

theorem C3_SetOrdering_witness:
  "maps_wf ex_slam \<and> problemType_m ex_slam = SLAM_PROBLEM
   \<and> CheckOrdering (SetOrdering ex_slam) = Some True
   \<and> ordering_poses_m (SetOrdering ex_slam) + ordering_landmarks_m (SetOrdering ex_slam)
       = ordering_generic_m (SetOrdering ex_slam)
   \<and> OrderingId (store (SetOrdering ex_slam) 0) = 0
   \<and> OrderingId (store (SetOrdering ex_slam) 2) = 1
   \<and> OrderingId (store (SetOrdering ex_slam) 1) = 2
   \<and> ordering_generic_m (SetOrdering ex_slam) = 3
   \<and> maps_wf ex_slam_other \<and> problemType_m ex_slam_other = SLAM_PROBLEM
   \<and> OrderingId (store (SetOrdering ex_slam_other) 0) = - 1"
proof -
  have wf: "maps_wf ex_slam"
    by (simp add: maps_wf_def ex_slam_def ex_empty_def)
  have slam: "problemType_m ex_slam = SLAM_PROBLEM"
    by (simp add: ex_slam_def ex_empty_def)
  have ty: "IsPoseVertex (store ex_slam 0)" "IsLandmarkVertex (store ex_slam 1)"
    "IsPoseVertex (store ex_slam 2)" "\<not> IsPoseVertex (store ex_slam 1)"
    by (simp_all add: ex_slam_def ex_vertex_def IsPoseVertex_def IsLandmarkVertex_def)
  have ev: "OrderingId (store (SetOrdering ex_slam) 0) = 0"
    "OrderingId (store (SetOrdering ex_slam) 2) = 1"
    "OrderingId (store (SetOrdering ex_slam) 1) = 2"
    "ordering_generic_m (SetOrdering ex_slam) = 3"
    "verticies_m (SetOrdering ex_slam) = [0, 1, 2]"
    using ty by (simp_all add: SetOrdering_def Let_def SetOrdering_visit_def AddOrderingSLAM_def
        slam map_insert_def SetOrderingId_def ex_slam_def ex_vertex_def ex_empty_def)
  have all: "\<forall>k\<in>set (verticies_m (SetOrdering ex_slam)).
      IsPoseVertex (store (SetOrdering ex_slam) k) \<or> IsLandmarkVertex (store (SetOrdering ex_slam) k)"
    using ty by (simp add: ex_slam_def)
  have wf': "maps_wf ex_slam_other"
    by (simp add: maps_wf_def ex_slam_other_def ex_empty_def)
  have slam': "problemType_m ex_slam_other = SLAM_PROBLEM"
    by (simp add: ex_slam_other_def ex_empty_def)
  have ty': "\<not> IsPoseVertex (store ex_slam_other 0)" "\<not> IsLandmarkVertex (store ex_slam_other 0)"
    "OrderingId (store ex_slam_other 0) = - 1"
    by (simp_all add: ex_slam_other_def ex_vertex_def IsPoseVertex_def IsLandmarkVertex_def)
  from C3_SetOrdering [OF wf' refl] slam' ty'
  have other: "OrderingId (store (SetOrdering ex_slam_other) 0) = - 1" by simp
  from C3_SetOrdering [OF wf refl] slam all ev show ?thesis using wf wf' slam' other by blast
qed

text \<open>
  Claim C3 as stated fails in the generic mode, and in the SLAM mode for a vertex that
  is neither pose-like nor landmark-like: a vertex whose ordering id is unassigned
  (\<open>-1\<close>) still has the id \<open>-1\<close> after \<^verbatim>\<open>SetOrdering\<close>, outside
  \<open>[0, ordering_generic)\<close>.
\<close>

theorem C3_unassigned_counterexample:
  "problemType_m ex_generic_unassigned = GENERIC_PROBLEM
   \<and> 0 \<in> set (verticies_m (SetOrdering ex_generic_unassigned))
   \<and> OrderingId (store (SetOrdering ex_generic_unassigned) 0) = - 1
   \<and> ordering_generic_m (SetOrdering ex_generic_unassigned) = 1
   \<and> \<not> (0 \<le> OrderingId (store (SetOrdering ex_generic_unassigned) 0)
        \<and> OrderingId (store (SetOrdering ex_generic_unassigned) 0)
            < int (ordering_generic_m (SetOrdering ex_generic_unassigned)))
   \<and> problemType_m ex_slam_other = SLAM_PROBLEM
   \<and> 0 \<in> set (verticies_m (SetOrdering ex_slam_other))
   \<and> OrderingId (store (SetOrdering ex_slam_other) 0) = - 1
   \<and> ordering_generic_m (SetOrdering ex_slam_other) = 1
   \<and> \<not> (0 \<le> OrderingId (store (SetOrdering ex_slam_other) 0)
        \<and> OrderingId (store (SetOrdering ex_slam_other) 0)
            < int (ordering_generic_m (SetOrdering ex_slam_other)))"
  by (simp add: SetOrdering_def Let_def SetOrdering_visit_def AddOrderingSLAM_def
      IsPoseVertex_def IsLandmarkVertex_def ex_generic_unassigned_def ex_slam_other_def
      ex_vertex_def ex_empty_def)

subsection \<open>Update and rollback\<close>

lemma length_mat_vec [simp]: "length (mat_vec M v) = rows M"
  by (simp add: mat_vec_def)

lemma UpdateStates_vertices_result:
  assumes "UpdateStates_vertices ext dx ks st = Some st'" and "distinct ks"
  shows "(\<forall>k\<in>set ks. parameters_backup_m (st' k) = parameters_m (st k))
       \<and> (\<forall>k. k \<notin> set ks \<longrightarrow> st' k = st k)"
  using assms
proof (induction ks arbitrary: st)
  case Nil
  then show ?case by simp
next
  case (Cons k ks)
  let ?v = "BackUpParameters (st k)"
  let ?st1 = "st(k := ?v\<lparr>parameters_m := Plus_v ext ?v
      (take (LocalDimension ?v) (drop (nat (OrderingId ?v)) dx))\<rparr>)"
  from Cons.prems(1) have run: "UpdateStates_vertices ext dx ks ?st1 = Some st'"
    by (simp add: Let_def split: if_splits)
  have d: "distinct ks" and k: "k \<notin> set ks" using Cons.prems(2) by simp_all
  from Cons.IH [OF run d]
  have IH: "\<forall>j\<in>set ks. parameters_backup_m (st' j) = parameters_m (?st1 j)"
    "\<forall>j. j \<notin> set ks \<longrightarrow> st' j = ?st1 j" by simp_all
  have "parameters_backup_m (st' k) = parameters_m (st k)"
    using IH(2) k by (simp add: BackUpParameters_def)
  moreover have "\<forall>j\<in>set ks. parameters_backup_m (st' j) = parameters_m (st j)"
    using IH(1) k by auto
  moreover have "\<forall>j. j \<notin> set (k # ks) \<longrightarrow> st' j = st j"
    using IH(2) by simp
  ultimately show ?case by simp
qed

lemma RollbackStates_vertices_result:
  "distinct ks \<Longrightarrow> RollbackStates_vertices ks st j =
     (if j \<in> set ks then RollBackParameters (st j) else st j)"
  by (induction ks arbitrary: st) auto

lemma UpdateStates_prior_result:
  assumes "UpdateStates_prior q = Some p1"
  shows "store p1 = store q" "verticies_m p1 = verticies_m q"
    and "length (err_prior_m q) = 0 \<Longrightarrow> p1 = q"
    and "length (err_prior_m q) > 0 \<Longrightarrow>
           b_prior_backup_m p1 = b_prior_m q \<and> err_prior_backup_m p1 = err_prior_m q
         \<and> length (err_prior_m p1) = rows (Jt_prior_inv_m q)"
  using assms by (auto simp add: UpdateStates_prior_def Let_def split: if_splits)

lemma RollbackStates_frame:
  "(RollbackStates q)\<lparr>store := store q, b_prior_m := b_prior_m q, err_prior_m := err_prior_m q\<rparr> = q"
  by (simp add: RollbackStates_def Let_def)

lemma RollbackStates_store:
  "store (RollbackStates q) = RollbackStates_vertices (verticies_m q) (store q)"
  by (simp add: RollbackStates_def Let_def)

lemma RollbackStates_vertices_only_parameters:
  "\<exists>ps. RollbackStates_vertices ks st k = (st k)\<lparr>parameters_m := ps\<rparr>"
proof (induction ks arbitrary: st)
  case Nil
  show ?case by (rule exI [of _ "parameters_m (st k)"]) simp
next
  case (Cons a ks)
  from Cons.IH [of "st(a := RollBackParameters (st a))"]
  obtain ps where ps: "RollbackStates_vertices ks (st(a := RollBackParameters (st a))) k
      = ((st(a := RollBackParameters (st a))) k)\<lparr>parameters_m := ps\<rparr>" by blast
  show ?case
    unfolding RollbackStates_vertices.simps ps
    by (rule exI [of _ ps]) (simp add: RollBackParameters_def)
qed

lemma RollbackStates_vertices_frame:
  "(RollbackStates_vertices ks st k)\<lparr>parameters_m := parameters_m (st k)\<rparr> = st k"
proof -
  obtain ps where "RollbackStates_vertices ks st k = (st k)\<lparr>parameters_m := ps\<rparr>"
    using RollbackStates_vertices_only_parameters by blast
  then show ?thesis by simp
qed

lemma upt_16: "[0..<16] = [0,1,2,3,4,5,6,7,8,9,10,11,12,13,14,15::nat]"
  by (simp add: upt_rec)

lemma ex_prior_mat_vec:
  "mat_vec (H_prior_m ex_prior) (take 16 (replicate 16 1)) = replicate 16 1"
  by (simp add: mat_vec_def ex_prior_def ex_empty_def upt_16 numeral_eq_Suc)

lemma ex_prior_vertices:
  "\<exists>st. UpdateStates_vertices ex_ext (replicate 16 1) [0, 1, 2] (store ex_prior) = Some st
     \<and> parameters_m (st 1) = replicate 6 1"
  by (simp add: ex_prior_def ex_empty_def ex_vertex_def ex_ext_def BackUpParameters_def Let_def
      vadd_def numeral_eq_Suc)

text \<open>
  Claim C5. Rollback undoes an update. When \<^verbatim>\<open>UpdateStates\<close> runs through (no range
  or size check of Eigen fails) on a problem whose prior residual has as many entries as
  \<^verbatim>\<open>Jt_prior_inv_\<close> has rows (which \<^verbatim>\<open>Marginalize\<close> establishes), then after
  \<^verbatim>\<open>RollbackStates\<close> every vertex of the problem has the parameters it had before the
  update, and \<^verbatim>\<open>b_prior_\<close> and \<^verbatim>\<open>err_prior_\<close> have their values from before the
  update. The rollback itself changes nothing but the parameters of vertices,
  \<^verbatim>\<open>b_prior_\<close> and \<^verbatim>\<open>err_prior_\<close>; vertices outside the problem are untouched by
  both.
\<close>

theorem C5_rollback_undoes_update:
  assumes run: "UpdateStates ext p = Some p1"
    and dist: "distinct (verticies_m p)"
    and inv: "rows (Jt_prior_inv_m p) = length (err_prior_m p)"
  shows "(\<forall>k\<in>set (verticies_m p).
            parameters_m (store (RollbackStates p1) k) = parameters_m (store p k))
     \<and> b_prior_m (RollbackStates p1) = b_prior_m p
     \<and> err_prior_m (RollbackStates p1) = err_prior_m p
     \<and> (RollbackStates p1)\<lparr>store := store p1, b_prior_m := b_prior_m p1,
                            err_prior_m := err_prior_m p1\<rparr> = p1
     \<and> (\<forall>k. (store (RollbackStates p1) k)\<lparr>parameters_m := parameters_m (store p1 k)\<rparr>
            = store p1 k)
     \<and> (\<forall>k. k \<notin> set (verticies_m p) \<longrightarrow> store (RollbackStates p1) k = store p k)"
proof -
  from run obtain st where
    st: "UpdateStates_vertices ext (delta_x_m p) (verticies_m p) (store p) = Some st"
    and pr: "UpdateStates_prior (p\<lparr>store := st\<rparr>) = Some p1"
    by (auto simp add: UpdateStates_def split: option.splits)
  note u = UpdateStates_vertices_result [OF st dist]
  note q = UpdateStates_prior_result [OF pr]
  have s1: "store p1 = st" and v1: "verticies_m p1 = verticies_m p"
    using q(1,2) by simp_all
  have rs: "store (RollbackStates p1) k =
      (if k \<in> set (verticies_m p) then RollBackParameters (st k) else st k)" for k
    by (simp add: RollbackStates_store s1 v1 RollbackStates_vertices_result [OF dist])
  have a: "\<forall>k\<in>set (verticies_m p).
      parameters_m (store (RollbackStates p1) k) = parameters_m (store p k)"
    using u by (simp add: rs RollBackParameters_def)
  have f: "\<forall>k. k \<notin> set (verticies_m p) \<longrightarrow> store (RollbackStates p1) k = store p k"
    using u by (simp add: rs)
  have e: "\<forall>k. (store (RollbackStates p1) k)\<lparr>parameters_m := parameters_m (store p1 k)\<rparr>
      = store p1 k"
    by (simp add: RollbackStates_store RollbackStates_vertices_frame)
  have bc: "b_prior_m (RollbackStates p1) = b_prior_m p
      \<and> err_prior_m (RollbackStates p1) = err_prior_m p"
  proof (cases "length (err_prior_m p) > 0")
    case True
    with q(4) inv have "b_prior_backup_m p1 = b_prior_m p" "err_prior_backup_m p1 = err_prior_m p"
      "length (err_prior_m p1) > 0" by simp_all
    then show ?thesis by (simp add: RollbackStates_def Let_def)
  next
    case False
    with q(3) have "p1 = p\<lparr>store := st\<rparr>" by simp
    with False show ?thesis by (simp add: RollbackStates_def Let_def)
  qed
  show ?thesis using a bc e f RollbackStates_frame [of p1] by simp
qed

theorem C5_rollback_undoes_update_witness:
  "\<exists>p1. UpdateStates ex_ext ex_prior = Some p1
     \<and> parameters_m (store p1 1) = replicate 6 1
     \<and> b_prior_m p1 = replicate 16 1 \<and> err_prior_m p1 = [- 1]
     \<and> (\<forall>k\<in>set (verticies_m ex_prior).
            parameters_m (store (RollbackStates p1) k) = parameters_m (store ex_prior k))
     \<and> b_prior_m (RollbackStates p1) = replicate 16 2
     \<and> err_prior_m (RollbackStates p1) = [5]"
proof -
  obtain st where st: "UpdateStates_vertices ex_ext (replicate 16 1) [0, 1, 2] (store ex_prior) = Some st"
    and st1: "parameters_m (st 1) = replicate 6 1"
    using ex_prior_vertices by blast
  have f: "delta_x_m ex_prior = replicate 16 1" "verticies_m ex_prior = [0, 1, 2]"
    "b_prior_m ex_prior = replicate 16 2" "err_prior_m ex_prior = [5]"
    "ordering_poses_m ex_prior = 16" "Jt_prior_inv_m ex_prior = scalar_mat 1"
    "rows (H_prior_m ex_prior) = 16" "cols (H_prior_m ex_prior) = 16"
    by (simp_all add: ex_prior_def ex_empty_def)
  define p1 where "p1 = ex_prior\<lparr>store := st, b_prior_backup_m := replicate 16 2,
    err_prior_backup_m := [5], b_prior_m := replicate 16 1, err_prior_m := [- 1]\<rparr>"
  have pr: "UpdateStates_prior (ex_prior\<lparr>store := st\<rparr>) = Some p1"
    using ex_prior_mat_vec
    by (simp add: UpdateStates_prior_def Let_def f p1_def vsub_def mat_vec_def scalar_mat_def
        numeral_eq_Suc)
  have run: "UpdateStates ex_ext ex_prior = Some p1"
    unfolding UpdateStates_def f(1,2) st using pr by simp
  have dist: "distinct (verticies_m ex_prior)" by (simp add: f)
  have inv: "rows (Jt_prior_inv_m ex_prior) = length (err_prior_m ex_prior)"
    by (simp add: f scalar_mat_def)
  from C5_rollback_undoes_update [OF run dist inv]
  have "\<forall>k\<in>set (verticies_m ex_prior).
            parameters_m (store (RollbackStates p1) k) = parameters_m (store ex_prior k)"
    "b_prior_m (RollbackStates p1) = b_prior_m ex_prior"
    "err_prior_m (RollbackStates p1) = err_prior_m ex_prior"
    by blast+
  then show ?thesis using run st1 by (simp add: f p1_def)
qed

subsection \<open>The Dog-Leg step\<close>

lemma squaredNorm_nonneg: "0 \<le> squaredNorm v"
  unfolding squaredNorm_def by (induction v) simp_all

lemma norm_v_nonneg: "0 \<le> norm_v v"
  by (simp add: norm_v_def squaredNorm_nonneg)

lemma norm_v_squared: "norm_v v * norm_v v = squaredNorm v"
  by (simp add: norm_v_def squaredNorm_nonneg)

lemma squaredNorm_smult: "squaredNorm (smult c v) = c * c * squaredNorm v"
  unfolding squaredNorm_def smult_def by (induction v) (simp_all add: algebra_simps)

lemma dot_vsub:
  "length a = length b \<Longrightarrow> dot a (vsub b a) = dot a b - squaredNorm a"
proof (induction a b rule: list_induct2)
  case Nil
  show ?case by (simp add: dot_def vsub_def squaredNorm_def)
next
  case (Cons x xs y ys)
  then show ?case by (simp add: dot_def vsub_def squaredNorm_def algebra_simps)
qed

lemma squaredNorm_vsub:
  "length a = length b \<Longrightarrow>
     squaredNorm (vsub b a) = squaredNorm b - 2 * dot a b + squaredNorm a"
proof (induction a b rule: list_induct2)
  case Nil
  show ?case by (simp add: dot_def vsub_def squaredNorm_def)
next
  case (Cons x xs y ys)
  then show ?case by (simp add: dot_def vsub_def squaredNorm_def algebra_simps)
qed

lemma dogleg_arg_nonneg:
  fixes c D E :: real
  assumes "0 \<le> E" "0 \<le> D"
  shows "0 \<le> c * c + D * E"
  using assms by simp

lemma dogleg_beta_nonpos_c:
  fixes c D E F :: real
  assumes E: "0 < E" and F: "0 < F" and rel: "D + 2 * c = E + F" and c: "c \<le> 0"
  shows "0 < D" and "0 < (- c + sqrt (c * c + D * E)) / D"
    and "(- c + sqrt (c * c + D * E)) / D < 1"
proof -
  show D: "0 < D" using E F rel c by linarith
  have arg: "0 < c * c + D * E"
  proof -
    have "0 < D * E" using D E by simp
    moreover have "0 \<le> c * c" by simp
    ultimately show ?thesis by linarith
  qed
  then have s: "0 < sqrt (c * c + D * E)" by simp
  then have "0 < - c + sqrt (c * c + D * E)" using c by linarith
  then show "0 < (- c + sqrt (c * c + D * E)) / D" using D by simp
  have pos: "0 \<le> D + c" using E F rel c by linarith
  have "D * E < D * (E + F)" using D F by simp
  also have "\<dots> = D * (D + 2 * c)" using rel by simp
  finally have "c * c + D * E < (D + c)\<^sup>2" by (simp add: power2_eq_square algebra_simps)
  then have "sqrt (c * c + D * E) < D + c" using pos by (rule real_less_lsqrt [rotated])
  then show "(- c + sqrt (c * c + D * E)) / D < 1" using D by simp
qed

lemma dogleg_beta_pos_c:
  fixes c D E F :: real
  assumes E: "0 < E" and F: "0 < F" and rel: "D + 2 * c = E + F" and c: "0 < c"
    and D: "0 \<le> D"
  shows "0 < E / (c + sqrt (c * c + D * E))" and "E / (c + sqrt (c * c + D * E)) < 1"
proof -
  have arg: "0 \<le> c * c + D * E" using D E by simp
  then have s: "0 \<le> sqrt (c * c + D * E)" by simp
  then have den: "0 < c + sqrt (c * c + D * E)" using c by linarith
  show "0 < E / (c + sqrt (c * c + D * E))" using E den by simp
  have "E - c < sqrt (c * c + D * E)"
  proof (cases "E - c < 0")
    case True
    then show ?thesis using s by linarith
  next
    case False
    have "D = E + F - 2 * c" using rel by simp
    then have "c * c + D * E - (E - c)\<^sup>2 = c * c + (E + F - 2 * c) * E - (E - c)\<^sup>2"
      by simp
    also have "\<dots> = E * F"
      by (simp add: power2_eq_square algebra_simps)
    finally have "c * c + D * E - (E - c)\<^sup>2 = E * F" .
    moreover have "0 < E * F" using E F by simp
    ultimately have "(E - c)\<^sup>2 < c * c + D * E" by linarith
    then show ?thesis by (rule real_less_rsqrt)
  qed
  then show "E / (c + sqrt (c * c + D * E)) < 1" using den by simp
qed

lemma upt_2: "[0..<2] = [0, 1]"
  by (simp add: upt_rec)

lemma DogLeg_beta_cases:
  defines "arg a b radius \<equiv>
    dot a (vsub b a) * dot a (vsub b a) + squaredNorm (vsub b a) * (radius * radius - squaredNorm a)"
  shows "0 \<le> arg a b radius \<Longrightarrow> dot a (vsub b a) \<le> 0 \<Longrightarrow> squaredNorm (vsub b a) \<noteq> 0 \<Longrightarrow>
      0 < (- dot a (vsub b a) + sqrt (arg a b radius)) / squaredNorm (vsub b a) \<Longrightarrow>
      (- dot a (vsub b a) + sqrt (arg a b radius)) / squaredNorm (vsub b a) < 1 \<Longrightarrow>
      DogLeg_beta a b radius
        = Some ((- dot a (vsub b a) + sqrt (arg a b radius)) / squaredNorm (vsub b a))"
    and "0 \<le> arg a b radius \<Longrightarrow> 0 < dot a (vsub b a) \<Longrightarrow>
      0 < (radius * radius - squaredNorm a) / (dot a (vsub b a) + sqrt (arg a b radius)) \<Longrightarrow>
      (radius * radius - squaredNorm a) / (dot a (vsub b a) + sqrt (arg a b radius)) < 1 \<Longrightarrow>
      DogLeg_beta a b radius
        = Some ((radius * radius - squaredNorm a) / (dot a (vsub b a) + sqrt (arg a b radius)))"
  by (simp_all add: DogLeg_beta_def Let_def arg_def)

text \<open>
  Over the real numbers the assertion of the interior case holds whenever \<open>alpha\<close>
  is not negative: with vectors of equal size, \<open>norm h_gn > radius\<close> and
  \<open>alpha * norm h_sd < radius\<close>, the interpolation parameter is computed by the
  formula of the source and lies strictly between 0 and 1. In \<^verbatim>\<open>double\<close> arithmetic
  the difference \<open>radius\<^sup>2 - \<parallel>a\<parallel>\<^sup>2\<close> can round to zero while the test
  \<open>alpha * norm h_sd < radius\<close> still holds; then the computed parameter is \<open>0.0\<close>
  and the assertion stops the program. Rounding is outside this development.
\<close>

lemma DogLeg_beta_in_range_exact:
  assumes len: "length h_sd = length h_gn"
    and gn: "norm_v h_gn > radius"
    and sd: "alpha * norm_v h_sd < radius"
    and alpha: "0 \<le> alpha"
  shows "\<exists>beta. DogLeg_beta (smult alpha h_sd) h_gn radius = Some beta \<and> 0 < beta \<and> beta < 1
     \<and> beta =
        (let a = smult alpha h_sd;
             c = dot a (vsub h_gn a);
             sqrt_scale = sqrt (c * c + squaredNorm (vsub h_gn a)
                                  * (radius * radius - squaredNorm a))
         in if c \<le> 0 then (- c + sqrt_scale) / squaredNorm (vsub h_gn a)
            else (radius * radius - squaredNorm a) / (c + sqrt_scale))"
proof -
  define a where "a = smult alpha h_sd"
  define c where "c = dot a (vsub h_gn a)"
  define D where "D = squaredNorm (vsub h_gn a)"
  define E where "E = radius * radius - squaredNorm a"
  define F where "F = squaredNorm h_gn - radius * radius"
  have la: "length a = length h_gn" using len by (simp add: a_def smult_def)
  have n0: "0 \<le> alpha * norm_v h_sd" using alpha norm_v_nonneg by simp
  then have r: "0 < radius" using sd by linarith
  have "squaredNorm a = (alpha * norm_v h_sd) * (alpha * norm_v h_sd)"
    using norm_v_squared [of h_sd] by (simp add: a_def squaredNorm_smult algebra_simps)
  also have "\<dots> < radius * radius"
    using n0 sd by (intro mult_strict_mono') simp_all
  finally have E: "0 < E" by (simp add: E_def)
  have "radius * radius < norm_v h_gn * norm_v h_gn"
    using r gn by (intro mult_strict_mono') simp_all
  then have F: "0 < F" by (simp add: F_def norm_v_squared)
  have rel: "D + 2 * c = E + F"
    by (simp add: D_def c_def E_def F_def dot_vsub [OF la] squaredNorm_vsub [OF la])
  have D0: "0 \<le> D" by (simp add: D_def squaredNorm_nonneg)
  have arg: "0 \<le> c * c + D * E" using D0 E by simp
  show ?thesis
  proof (cases "c \<le> 0")
    case True
    note b = dogleg_beta_nonpos_c [OF E F rel True]
    have "DogLeg_beta a h_gn radius = Some ((- c + sqrt (c * c + D * E)) / D)"
      unfolding c_def D_def E_def
      by (rule DogLeg_beta_cases(1)) (use arg b True in \<open>simp_all add: c_def D_def E_def\<close>)
    then show ?thesis using b True
      by (simp add: Let_def a_def [symmetric] c_def [symmetric] D_def [symmetric]
          E_def [symmetric])
  next
    case False
    then have cp: "0 < c" by simp
    note b = dogleg_beta_pos_c [OF E F rel cp D0]
    have "DogLeg_beta a h_gn radius = Some (E / (c + sqrt (c * c + D * E)))"
      unfolding c_def D_def E_def
      by (rule DogLeg_beta_cases(2)) (use arg b cp in \<open>simp_all add: c_def D_def E_def\<close>)
    then show ?thesis using b False
      by (simp add: Let_def a_def [symmetric] c_def [symmetric] D_def [symmetric]
          E_def [symmetric])
  qed
qed

lemma upt_1: "[0..<1] = [0]"
  by (simp add: upt_rec)

lemma ex_damped_schur:
  "SolveLinearWithSchur ex_ext ex_damped (Hessian_m ex_damped) (b_m ex_damped) [0, 0] 1 1 [1] 2
     = Some [1 / 2, 1]"
  by (simp add: SolveLinearWithSchur_def Let_def ex_damped_def ex_empty_def ex_ext_def
      ex_vertex_def diag_mat_def block_ok_def block_def MatXX_Zero_def scalar_inverse_def
      scalar_mat_def set_block_def in_block_def mat_mul_def mat_sub_def mat_vec_def
      add_diagonal_def diag_solve_def vsub_def upt_1 upt_2)

lemma SolveLinearWithSchur_h_gn [simp]:
  "SolveLinearWithSchur ext (p\<lparr>h_gn_m := x\<rparr>) H b d r s vs l
     = SolveLinearWithSchur ext p H b d r s vs l"
  by (simp add: SolveLinearWithSchur_def Let_def cong: option.case_cong)

lemma SolveDogLegStep_GENERIC_h_gn:
  assumes "problemType_m p = GENERIC_PROBLEM" and "SolveDogLegStep ext p = Some p'"
  shows "h_gn_m p' = ldlt_solve ext (Hessian_m p) (b_m p)"
  using assms
  by (auto simp add: SolveDogLegStep_def Let_def split: if_splits option.splits)

text \<open>
  Claim C1 fails in the SLAM mode. \<^verbatim>\<open>SolveLinearWithSchur\<close> adds the member
  \<^verbatim>\<open>currentLambda_\<close> to the diagonal of the reduced pose block, and the Dog-Leg driver
  never sets that member to zero. In the problem \<open>ex_damped\<close> the Gauss-Newton step
  that \<^verbatim>\<open>SolveDogLegStep\<close> stores is \<open>(1/2, 1)\<close>: it solves the system damped by
  \<open>lambda = 2\<close> on the pose block, not \<open>H h = b\<close>, whose solution is \<open>(1, 1)\<close>.
  In the generic mode the step is the solution for the undamped Hessian
  (\<open>SolveDogLegStep_GENERIC_h_gn\<close>).
\<close>

theorem C1_SolveDogLegStep_damped_in_SLAM:
  "problemType_m ex_damped = SLAM_PROBLEM \<and> currentLambda_m ex_damped = 2
   \<and> map_option h_gn_m (SolveDogLegStep ex_ext ex_damped) = Some [1 / 2, 1]
   \<and> mat_vec (Hessian_m ex_damped) [1, 1] = b_m ex_damped
   \<and> mat_vec (Hessian_m ex_damped) [1 / 2, 1] \<noteq> b_m ex_damped
   \<and> mat_vec (add_diagonal 1 2 (Hessian_m ex_damped)) [1 / 2, 1] = b_m ex_damped"
proof -
  have f: "problemType_m ex_damped = SLAM_PROBLEM" "currentLambda_m ex_damped = 2"
    "b_m ex_damped = [2, 1]" "delta_x_m ex_damped = [0, 0]"
    "ordering_poses_m ex_damped = 1" "ordering_landmarks_m ex_damped = 1"
    "idx_landmark_vertices_m ex_damped = [1]" "currentRadius_m ex_damped = 10 ^ 4"
    "rows (Hessian_m ex_damped) = 2" "cols (Hessian_m ex_damped) = 2"
    by (simp_all add: ex_damped_def ex_empty_def diag_mat_def)
  have s: "SolveLinearWithSchur ex_ext (ex_damped\<lparr>h_gn_m := [0, 0]\<rparr>) (Hessian_m ex_damped)
      [2, 1] [0, 0] 1 1 [1] 2 = Some [1 / 2, 1]"
    using ex_damped_schur by (simp add: f)
  have "squaredNorm [1 / 2, 1 :: real] \<le> (10 ^ 4)\<^sup>2"
    by (simp add: squaredNorm_def)
  then have n: "norm_v [1 / 2, 1] \<le> 10 ^ 4"
    unfolding norm_v_def by (rule real_le_lsqrt [rotated 1]) simp_all
  have run: "map_option h_gn_m (SolveDogLegStep ex_ext ex_damped) = Some [1 / 2, 1]"
    using n s by (simp add: SolveDogLegStep_def Let_def f)
  have m: "mat_vec (Hessian_m ex_damped) [1, 1] = b_m ex_damped"
    "mat_vec (Hessian_m ex_damped) [1 / 2, 1] \<noteq> b_m ex_damped"
    "mat_vec (add_diagonal 1 2 (Hessian_m ex_damped)) [1 / 2, 1] = b_m ex_damped"
    by (simp_all add: ex_damped_def ex_empty_def diag_mat_def mat_vec_def add_diagonal_def upt_2)
  show ?thesis using f(1,2) run m by simp
qed

theorem C1_SolveDogLegStep_damped_in_SLAM_witness:
  "map_option h_gn_m (SolveDogLegStep ex_ext ex_damped)
     \<noteq> Some (ldlt_solve ex_ext (Hessian_m ex_damped) (b_m ex_damped))"
proof -
  have a: "ldlt_solve ex_ext (Hessian_m ex_damped) (b_m ex_damped) = [1, 1]"
    by (simp add: ex_ext_def ex_damped_def ex_empty_def diag_solve_def diag_mat_def upt_2)
  have b: "map_option h_gn_m (SolveDogLegStep ex_ext ex_damped) = Some [1 / 2, 1]"
    using C1_SolveDogLegStep_damped_in_SLAM by blast
  show ?thesis unfolding a b by simp
qed

subsection \<open>Symmetry of the Hessian\<close>

lemma add_block_size [simp]:
  "rows (add_block M i j B) = rows M" "cols (add_block M i j B) = cols M"
  by (simp_all add: add_block_def)

lemma zero_block_size [simp]:
  "rows (zero_block M i j r c) = rows M" "cols (zero_block M i j r c) = cols M"
  by (simp_all add: zero_block_def)















lemma edge_Compute_fields [simp]:
  "(edge_ComputeJacobians ext st (edge_ComputeResidual ext st e))\<lparr>residual_m := r, jacobians_m := J\<rparr>
     = e\<lparr>residual_m := r, jacobians_m := J\<rparr>"
  by (simp add: edge_ComputeJacobians_def edge_ComputeResidual_def)









lemma upt_4: "[0..<4] = [0, 1, 2, 3]"
  by (simp add: upt_rec)








subsection \<open>The prior of the marginalisation\<close>

lemma select_gt_map: "select_gt eps xs (map f xs) = map (\<lambda>a. if a > eps then f a else 0) xs"
  by (induction xs) (simp_all add: select_gt_def)

lemma select_gt_self: "select_gt eps xs xs = map (\<lambda>a. if a > eps then a else 0) xs"
  using select_gt_map [of eps xs "\<lambda>a. a"] by simp

lemma select_inverse:
  "0 \<le> eps \<Longrightarrow> select_gt eps xs (map (\<lambda>e. 1 / e) xs) = spec_inverse (spec_zero_le eps xs)"
  by (simp add: select_gt_map spec_inverse_def spec_zero_le_def)

lemma select_self: "select_gt eps xs xs = spec_zero_le eps xs"
  by (simp add: select_gt_self spec_zero_le_def not_less [symmetric])

lemma sqrt_spec_inverse: "map sqrt (spec_inverse ys) = spec_inverse (map sqrt ys)"
  by (simp add: spec_inverse_def real_sqrt_divide)

lemma spec_A_mm_symmetric: "symmetric_m (spec_A_mm H n m)"
  by (simp add: symmetric_m_def spec_A_mm_def mat_scale_def mat_add_def block_def
      transpose_m_def add.commute)

lemma Marginalize_prior_result:
  assumes run: "Marginalize_prior saes H_marg b_marg reserve_size marg_dim p = Some p'"
  shows "p' = p\<lparr>
      b_prior_m := spec_b_prior saes H_marg b_marg (reserve_size - marg_dim) marg_dim,
      Jt_prior_inv_m := spec_Jt_prior_inv saes H_marg (reserve_size - marg_dim) marg_dim,
      err_prior_m := map uminus
        (mat_vec (spec_Jt_prior_inv saes H_marg (reserve_size - marg_dim) marg_dim)
           (spec_b_prior saes H_marg b_marg (reserve_size - marg_dim) marg_dim)),
      H_prior_m := select_abs_gt (1 / 10 ^ 9)
        (spec_JtJ saes H_marg (reserve_size - marg_dim) marg_dim)\<rparr>"
proof -
  have eps: "(0::real) \<le> 1 / 100000000" by simp
  have s1: "select_gt (1 / 100000000) xs (map ((/) 1) xs)
      = spec_inverse (spec_zero_le (1 / 100000000) xs)" for xs
    by (rule select_inverse [OF eps])
  show ?thesis
    using run
    by (simp add: Marginalize_prior_def Let_def s1 sqrt_spec_inverse select_self spec_b_prior_def
        spec_Jt_prior_inv_def spec_JtJ_def spec_J_def spec_V_def spec_Sigma_def
        spec_H_schur_def spec_A_mm_inv_def spec_A_mm_def split: if_splits prod.splits)
qed

text \<open>
  Claim C9. When the last part of \<^verbatim>\<open>Marginalize\<close> runs through, the state holds
  what the specification describes. The block \<open>A_mm = \<onehalf> (A + A\<^sup>T)\<close> is symmetric and
  is inverted through its eigendecomposition with the eigenvalues \<open>\<le> 10\<^sup>-\<^sup>8\<close> set to
  zero; \<^verbatim>\<open>b_prior_\<close> is \<open>b_r - A_rm A_mm\<^sup>-\<^sup>1 b_m\<close>; \<^verbatim>\<open>Jt_prior_inv_\<close> is
  \<open>(\<surd>\<Sigma>)\<^sup>-\<^sup>1 V\<^sup>T\<close> for the eigendecomposition of the Schur complement with the
  eigenvalues \<open>\<le> 10\<^sup>-\<^sup>8\<close> dropped; \<^verbatim>\<open>err_prior_\<close> is \<open>- Jt_prior_inv b_prior\<close>;
  and \<^verbatim>\<open>H_prior_\<close> is \<open>J\<^sup>T J\<close> with every entry of magnitude below \<open>10\<^sup>-\<^sup>9\<close>
  set to zero and every entry of magnitude above \<open>10\<^sup>-\<^sup>9\<close> kept.
\<close>

theorem C9_Marginalize_eigen_truncation:
  assumes run: "Marginalize_prior saes H_marg b_marg reserve_size marg_dim p = Some p'"
    and n: "n = reserve_size - marg_dim"
  shows "symmetric_m (spec_A_mm H_marg n marg_dim)
    \<and> b_prior_m p' = spec_b_prior saes H_marg b_marg n marg_dim
    \<and> Jt_prior_inv_m p' = spec_Jt_prior_inv saes H_marg n marg_dim
    \<and> err_prior_m p' = map uminus (mat_vec (Jt_prior_inv_m p') (b_prior_m p'))
    \<and> rows (H_prior_m p') = rows (spec_JtJ saes H_marg n marg_dim)
    \<and> cols (H_prior_m p') = cols (spec_JtJ saes H_marg n marg_dim)
    \<and> (\<forall>i j. \<bar>coeff (spec_JtJ saes H_marg n marg_dim) i j\<bar> < 1 / 10 ^ 9
          \<longrightarrow> coeff (H_prior_m p') i j = 0)
    \<and> (\<forall>i j. \<bar>coeff (spec_JtJ saes H_marg n marg_dim) i j\<bar> > 1 / 10 ^ 9
          \<longrightarrow> coeff (H_prior_m p') i j = coeff (spec_JtJ saes H_marg n marg_dim) i j)"
proof -
  note r = Marginalize_prior_result [OF run, folded n]
  have a: "symmetric_m (spec_A_mm H_marg n marg_dim)" by (rule spec_A_mm_symmetric)
  have b: "b_prior_m p' = spec_b_prior saes H_marg b_marg n marg_dim"
    by (subst r) simp
  have c: "Jt_prior_inv_m p' = spec_Jt_prior_inv saes H_marg n marg_dim"
    by (subst r) simp
  have d: "err_prior_m p' = map uminus (mat_vec (Jt_prior_inv_m p') (b_prior_m p'))"
    unfolding b c by (subst r) simp
  have e: "H_prior_m p' = select_abs_gt (1 / 10 ^ 9) (spec_JtJ saes H_marg n marg_dim)"
    by (subst r) simp
  have f: "rows (H_prior_m p') = rows (spec_JtJ saes H_marg n marg_dim)"
    "cols (H_prior_m p') = cols (spec_JtJ saes H_marg n marg_dim)"
    unfolding e by (simp_all add: select_abs_gt_def)
  have g: "coeff (H_prior_m p') i j = 0"
    if "\<bar>coeff (spec_JtJ saes H_marg n marg_dim) i j\<bar> < 1 / 10 ^ 9" for i j
    unfolding e using that by (simp add: select_abs_gt_def)
  have h: "coeff (H_prior_m p') i j = coeff (spec_JtJ saes H_marg n marg_dim) i j"
    if "\<bar>coeff (spec_JtJ saes H_marg n marg_dim) i j\<bar> > 1 / 10 ^ 9" for i j
    unfolding e using that by (simp add: select_abs_gt_def)
  show ?thesis using a b c d f g h by blast
qed

lemma upt_3: "[0..<3] = [0, 1, 2]"
  by (simp add: upt_rec)

lemmas ex_trunc_defs = spec_b_prior_def spec_Jt_prior_inv_def spec_JtJ_def spec_J_def
  spec_V_def spec_Sigma_def spec_H_schur_def spec_A_mm_inv_def spec_A_mm_def
  spec_inverse_def spec_zero_le_def ex_saes_def ex_H_marg_def ex_V_def asDiagonal_def
  mat_mul_def mat_sub_def mat_scale_def mat_add_def mat_vec_def transpose_m_def block_def
  scalar_mat_def vsub_def Let_def upt_1 upt_2

lemma ex_trunc_runs:
  "\<exists>p'. Marginalize_prior ex_saes ex_H_marg [1, 1, 1] 3 1 (ex_empty SLAM_PROBLEM) = Some p'"
  by (simp add: Marginalize_prior_def Let_def ex_saes_def ex_H_marg_def ex_V_def block_ok_def
      scalar_mat_def mat_sub_def block_def mat_scale_def mat_add_def transpose_m_def
      split: prod.splits)

lemma ex_trunc_A_mm: "fst (ex_saes (spec_A_mm ex_H_marg 2 1)) = [1 / 10 ^ 9]"
  by (simp add: ex_trunc_defs)

lemma ex_trunc_A_mm_inv: "coeff (spec_A_mm_inv ex_saes ex_H_marg 2 1) 0 0 = 0"
  by (simp add: ex_trunc_defs)

lemma ex_trunc_H_schur:
  "coeff (spec_H_schur ex_saes ex_H_marg 2 1) 0 0 = 6385 / (625 * 10 ^ 9)"
  "coeff (spec_H_schur ex_saes ex_H_marg 2 1) 0 1 = 1680 / (625 * 10 ^ 9)"
  "coeff (spec_H_schur ex_saes ex_H_marg 2 1) 1 0 = 1680 / (625 * 10 ^ 9)"
  "coeff (spec_H_schur ex_saes ex_H_marg 2 1) 1 1 = 1115 / (625 * 10 ^ 9)"
  by (simp_all add: ex_trunc_defs)

lemma ex_trunc_Sigma: "spec_Sigma ex_saes ex_H_marg 2 1 = [0, 11 / 10 ^ 9]"
  by (simp add: ex_trunc_defs)

lemma ex_trunc_b_prior: "spec_b_prior ex_saes ex_H_marg [1, 1, 1] 2 1 = [1, 1]"
  by (simp add: ex_trunc_defs)

lemma ex_trunc_Jt:
  "coeff (spec_Jt_prior_inv ex_saes ex_H_marg 2 1) 0 0 = 0"
  "coeff (spec_Jt_prior_inv ex_saes ex_H_marg 2 1) 0 1 = 0"
  "coeff (spec_Jt_prior_inv ex_saes ex_H_marg 2 1) 1 0 = 1 / sqrt (11 / 10 ^ 9) * (24 / 25)"
  "coeff (spec_Jt_prior_inv ex_saes ex_H_marg 2 1) 1 1 = 1 / sqrt (11 / 10 ^ 9) * (7 / 25)"
  by (simp_all add: ex_trunc_defs)

lemma ex_trunc_JtJ:
  "coeff (spec_JtJ ex_saes ex_H_marg 2 1) 0 0 = 6336 / (625 * 10 ^ 9)"
  "coeff (spec_JtJ ex_saes ex_H_marg 2 1) 0 1 = 1848 / (625 * 10 ^ 9)"
  "coeff (spec_JtJ ex_saes ex_H_marg 2 1) 1 0 = 1848 / (625 * 10 ^ 9)"
  "coeff (spec_JtJ ex_saes ex_H_marg 2 1) 1 1 = 539 / (625 * 10 ^ 9)"
  by (simp_all add: ex_trunc_defs)

lemma ex_trunc_Jt_size:
  "rows (spec_Jt_prior_inv ex_saes ex_H_marg 2 1) = 2"
  "cols (spec_Jt_prior_inv ex_saes ex_H_marg 2 1) = 2"
  by (simp_all add: ex_trunc_defs)

lemma ex_saes_decomposition:
  "coeff (mat_mul (mat_mul ex_V (asDiagonal [1 / 10 ^ 9, 11 / 10 ^ 9])) (transpose_m ex_V)) 0 0
     = coeff (spec_H_schur ex_saes ex_H_marg 2 1) 0 0"
  "coeff (mat_mul (mat_mul ex_V (asDiagonal [1 / 10 ^ 9, 11 / 10 ^ 9])) (transpose_m ex_V)) 0 1
     = coeff (spec_H_schur ex_saes ex_H_marg 2 1) 0 1"
  "coeff (mat_mul (mat_mul ex_V (asDiagonal [1 / 10 ^ 9, 11 / 10 ^ 9])) (transpose_m ex_V)) 1 0
     = coeff (spec_H_schur ex_saes ex_H_marg 2 1) 1 0"
  "coeff (mat_mul (mat_mul ex_V (asDiagonal [1 / 10 ^ 9, 11 / 10 ^ 9])) (transpose_m ex_V)) 1 1
     = coeff (spec_H_schur ex_saes ex_H_marg 2 1) 1 1"
  "coeff (mat_mul (transpose_m ex_V) ex_V) 0 0 = 1"
  "coeff (mat_mul (transpose_m ex_V) ex_V) 0 1 = 0"
  "coeff (mat_mul (transpose_m ex_V) ex_V) 1 0 = 0"
  "coeff (mat_mul (transpose_m ex_V) ex_V) 1 1 = 1"
  by (simp_all add: ex_trunc_defs)

theorem C9_Marginalize_eigen_truncation_witness:
  "\<exists>p'. Marginalize_prior ex_saes ex_H_marg [1, 1, 1] 3 1 (ex_empty SLAM_PROBLEM) = Some p'
     \<and> fst (ex_saes (spec_A_mm ex_H_marg 2 1)) = [1 / 10 ^ 9]
     \<and> coeff (spec_A_mm_inv ex_saes ex_H_marg 2 1) 0 0 = 0
     \<and> fst (ex_saes (spec_H_schur ex_saes ex_H_marg 2 1)) = [1 / 10 ^ 9, 11 / 10 ^ 9]
     \<and> spec_Sigma ex_saes ex_H_marg 2 1 = [0, 11 / 10 ^ 9]
     \<and> b_prior_m p' = [1, 1]
     \<and> coeff (Jt_prior_inv_m p') 0 0 = 0 \<and> coeff (Jt_prior_inv_m p') 0 1 = 0
     \<and> coeff (Jt_prior_inv_m p') 1 0 = 1 / sqrt (11 / 10 ^ 9) * (24 / 25)
     \<and> coeff (Jt_prior_inv_m p') 1 1 = 1 / sqrt (11 / 10 ^ 9) * (7 / 25)
     \<and> err_prior_m p'
         = [0, - (1 / sqrt (11 / 10 ^ 9) * (24 / 25) + 1 / sqrt (11 / 10 ^ 9) * (7 / 25))]
     \<and> coeff (spec_JtJ ex_saes ex_H_marg 2 1) 1 1 = 539 / (625 * 10 ^ 9)
     \<and> coeff (H_prior_m p') 1 1 = 0
     \<and> coeff (H_prior_m p') 0 0 = 6336 / (625 * 10 ^ 9)
     \<and> coeff (H_prior_m p') 0 1 = 1848 / (625 * 10 ^ 9)"
proof -
  from ex_trunc_runs obtain p' where
    run: "Marginalize_prior ex_saes ex_H_marg [1, 1, 1] 3 1 (ex_empty SLAM_PROBLEM) = Some p'"
    by blast
  have n: "(2::nat) = 3 - 1" by simp
  note t = C9_Marginalize_eigen_truncation [OF run n]
  have ev2: "fst (ex_saes (spec_H_schur ex_saes ex_H_marg 2 1)) = [1 / 10 ^ 9, 11 / 10 ^ 9]"
    by (simp add: ex_saes_def spec_H_schur_def mat_sub_def block_def)
  have b: "b_prior_m p' = [1, 1]" using t unfolding ex_trunc_b_prior by blast
  have c: "Jt_prior_inv_m p' = spec_Jt_prior_inv ex_saes ex_H_marg 2 1" using t by blast
  have "err_prior_m p' = map uminus (mat_vec (Jt_prior_inv_m p') (b_prior_m p'))"
    using t by blast
  then have d: "err_prior_m p'
      = [0, - (1 / sqrt (11 / 10 ^ 9) * (24 / 25) + 1 / sqrt (11 / 10 ^ 9) * (7 / 25))]"
    unfolding b c mat_vec_def ex_trunc_Jt_size upt_2 using ex_trunc_Jt by simp
  from t have small: "\<forall>i j. \<bar>coeff (spec_JtJ ex_saes ex_H_marg 2 1) i j\<bar> < 1 / 10 ^ 9
      \<longrightarrow> coeff (H_prior_m p') i j = 0"
    by blast
  from t have large: "\<forall>i j. \<bar>coeff (spec_JtJ ex_saes ex_H_marg 2 1) i j\<bar> > 1 / 10 ^ 9
      \<longrightarrow> coeff (H_prior_m p') i j = coeff (spec_JtJ ex_saes ex_H_marg 2 1) i j"
    by blast
  have "\<bar>coeff (spec_JtJ ex_saes ex_H_marg 2 1) 1 1\<bar> < 1 / 10 ^ 9"
    unfolding ex_trunc_JtJ by simp
  with small have e11: "coeff (H_prior_m p') 1 1 = 0" by blast
  have "\<bar>coeff (spec_JtJ ex_saes ex_H_marg 2 1) 0 0\<bar> > 1 / 10 ^ 9"
    unfolding ex_trunc_JtJ by simp
  with large have "coeff (H_prior_m p') 0 0 = coeff (spec_JtJ ex_saes ex_H_marg 2 1) 0 0"
    by blast
  then have e00: "coeff (H_prior_m p') 0 0 = 6336 / (625 * 10 ^ 9)" unfolding ex_trunc_JtJ .
  have "\<bar>coeff (spec_JtJ ex_saes ex_H_marg 2 1) 0 1\<bar> > 1 / 10 ^ 9"
    unfolding ex_trunc_JtJ by simp
  with large have "coeff (H_prior_m p') 0 1 = coeff (spec_JtJ ex_saes ex_H_marg 2 1) 0 1"
    by blast
  then have e01: "coeff (H_prior_m p') 0 1 = 1848 / (625 * 10 ^ 9)" unfolding ex_trunc_JtJ .
  show ?thesis
    using run ex_trunc_A_mm ex_trunc_A_mm_inv ev2 ex_trunc_Sigma b ex_trunc_Jt [folded c] d
      ex_trunc_JtJ(4) e11 e00 e01
    by blast
qed

subsection \<open>The drivers\<close>


lemma LM_inner_returns:
  "LM_tries_return c I \<Longrightarrow> I s \<Longrightarrow> \<exists>ok cnt s'. LM_inner c false_cnt s = Some (ok, cnt, s') \<and> I s'"
proof (induction c false_cnt s rule: LM_inner.induct)
  case (1 c false_cnt s)
  show ?case
  proof (cases "false_cnt < 10")
    case False
    with "1.prems" show ?thesis by (auto simp add: LM_inner.simps [of c false_cnt s])
  next
    case True
    from "1.prems" obtain s1 s2 ok s3 where
      a: "call_SolveLinearSystem c s = Some s1" and u: "call_UpdateStates c s1 = Some s2"
      and g: "call_IsGoodStepInLM c s2 = Some (ok, s3)"
      and r: "if ok then \<exists>s4. call_MakeHessian c s3 = Some s4 \<and> I s4
              else I (call_RollbackStates c s3)"
      unfolding LM_tries_return_def by blast
    show ?thesis
    proof (cases ok)
      case ok: True
      with r obtain s4 where "call_MakeHessian c s3 = Some s4" "I s4" by auto
      with True a u g ok show ?thesis by (auto simp add: LM_inner.simps [of c false_cnt s])
    next
      case nok: False
      with r have i: "I (call_RollbackStates c s3)" by simp
      from "1.IH" [OF True a u g [symmetric, THEN sym] refl nok "1.prems"(1) i]
      obtain ok' cnt s' where
        "LM_inner c (false_cnt + 1) (call_RollbackStates c s3) = Some (ok', cnt, s')" "I s'"
        by auto
      with True a u g nok show ?thesis by (simp add: LM_inner.simps [of c false_cnt s])
    qed
  qed
qed

lemma LM_iteration_returns:
  assumes "LM_tries_return c I" "I s"
  shows "\<exists>stop chi cnt s'. LM_iteration c last_chi s = Some (stop, chi, cnt, s') \<and> I s'"
proof -
  from LM_inner_returns [OF assms, of 0] obtain ok cnt s' where
    "LM_inner c 0 s = Some (ok, cnt, s')" "I s'" by blast
  then show ?thesis by (simp add: LM_iteration_def Let_def)
qed

lemma LM_outer_returns:
  "LM_tries_return c I \<Longrightarrow> I s \<Longrightarrow>
     \<exists>stop' iter' chi' s'. LM_outer c iterations (stop, iter, last_chi, s)
        = Some (stop', iter', chi', s') \<and> I s'"
proof (induction c iterations "(stop, iter, last_chi, s)" arbitrary: stop iter last_chi s
    rule: LM_outer.induct)
  case (1 c iterations stop iter last_chi s)
  show ?case
  proof (cases "\<not> stop \<and> iter < iterations")
    case False
    with "1.prems" show ?thesis
      by (auto simp add: LM_outer.simps [of c iterations stop iter last_chi s])
  next
    case True
    from LM_iteration_returns [OF "1.prems", of last_chi] obtain stop1 chi1 cnt1 s1 where
      it: "LM_iteration c last_chi s = Some (stop1, chi1, cnt1, s1)" and i: "I s1" by blast
    from "1.hyps" [OF True it [symmetric, THEN sym] refl refl refl "1.prems"(1) i]
    obtain stop' iter' chi' s' where
      "LM_outer c iterations (stop1, iter + 1, chi1, s1) = Some (stop', iter', chi', s')" "I s'"
      by auto
    with True it show ?thesis
      by (auto simp add: LM_outer.simps [of c iterations False iter last_chi s])
  qed
qed


lemma DogLeg_inner_returns:
  "DogLeg_tries_return c I \<Longrightarrow> I s \<Longrightarrow> \<exists>ok cnt s'. DogLeg_inner c false_cnt s = Some (ok, cnt, s') \<and> I s'"
proof (induction c false_cnt s rule: DogLeg_inner.induct)
  case (1 c false_cnt s)
  show ?case
  proof (cases "false_cnt < 10")
    case False
    with "1.prems" show ?thesis by (auto simp add: DogLeg_inner.simps [of c false_cnt s])
  next
    case True
    from "1.prems" obtain s1 s2 ok s3 where
      a: "call_SolveDogLegStep c s = Some s1" and u: "call_UpdateStates c s1 = Some s2"
      and g: "call_IsGoodStepInDogLeg c s2 = Some (ok, s3)"
      and r: "if ok then \<exists>s4. call_MakeHessian c s3 = Some s4 \<and> I s4
              else I (call_RollbackStates c s3)"
      unfolding DogLeg_tries_return_def by blast
    show ?thesis
    proof (cases ok)
      case ok: True
      with r obtain s4 where "call_MakeHessian c s3 = Some s4" "I s4" by auto
      with True a u g ok show ?thesis by (auto simp add: DogLeg_inner.simps [of c false_cnt s])
    next
      case nok: False
      with r have i: "I (call_RollbackStates c s3)" by simp
      from "1.IH" [OF True a u g [symmetric, THEN sym] refl nok "1.prems"(1) i]
      obtain ok' cnt s' where
        "DogLeg_inner c (false_cnt + 1) (call_RollbackStates c s3) = Some (ok', cnt, s')" "I s'"
        by auto
      with True a u g nok show ?thesis by (simp add: DogLeg_inner.simps [of c false_cnt s])
    qed
  qed
qed

lemma DogLeg_iteration_returns:
  assumes "DogLeg_tries_return c I" "I s"
  shows "\<exists>stop chi cnt s'. DogLeg_iteration c last_chi s = Some (stop, chi, cnt, s') \<and> I s'"
proof -
  from DogLeg_inner_returns [OF assms, of 0] obtain ok cnt s' where
    "DogLeg_inner c 0 s = Some (ok, cnt, s')" "I s'" by blast
  then show ?thesis by (simp add: DogLeg_iteration_def Let_def)
qed

lemma DogLeg_outer_returns:
  "DogLeg_tries_return c I \<Longrightarrow> I s \<Longrightarrow>
     \<exists>stop' iter' chi' s'. DogLeg_outer c itertaions (stop, iter, last_chi, s)
        = Some (stop', iter', chi', s') \<and> I s'"
proof (induction c itertaions "(stop, iter, last_chi, s)" arbitrary: stop iter last_chi s
    rule: DogLeg_outer.induct)
  case (1 c itertaions stop iter last_chi s)
  show ?case
  proof (cases "iter < itertaions \<and> \<not> stop")
    case False
    with "1.prems" show ?thesis
      by (auto simp add: DogLeg_outer.simps [of c itertaions stop iter last_chi s])
  next
    case True
    from DogLeg_iteration_returns [OF "1.prems", of last_chi] obtain stop1 chi1 cnt1 s1 where
      it: "DogLeg_iteration c last_chi s = Some (stop1, chi1, cnt1, s1)" and i: "I s1" by blast
    from "1.hyps" [OF True it [symmetric, THEN sym] refl refl refl "1.prems"(1) i]
    obtain stop' iter' chi' s' where
      "DogLeg_outer c itertaions (stop1, iter + 1, chi1, s1) = Some (stop', iter', chi', s')" "I s'"
      by auto
    with True it show ?thesis
      by (auto simp add: DogLeg_outer.simps [of c itertaions False iter last_chi s])
  qed
qed

lemma DogLeg_inner_keeps:
  "DogLeg_calls_keep c G \<Longrightarrow> G s \<Longrightarrow> DogLeg_inner c false_cnt s = Some (ok, cnt, s') \<Longrightarrow> G s'"
proof (induction c false_cnt s rule: DogLeg_inner.induct)
  case (1 c false_cnt s)
  note k = "1.prems"(1) [unfolded DogLeg_calls_keep_def]
  show ?case
  proof (cases "false_cnt < 10")
    case False
    with "1.prems" show ?thesis by (simp add: DogLeg_inner.simps [of c false_cnt s])
  next
    case True
    from "1.prems"(3) True obtain s1 s2 ok' s3 where
      a: "call_SolveDogLegStep c s = Some s1" and u: "call_UpdateStates c s1 = Some s2"
      and g: "call_IsGoodStepInDogLeg c s2 = Some (ok', s3)"
      by (simp add: DogLeg_inner.simps [of c false_cnt s] split: option.splits prod.splits)
    have g1: "G s1" using k "1.prems"(2) a by blast
    have g2: "G s2" using k g1 u by blast
    have g3: "G s3" using k g2 g by blast
    show ?thesis
    proof (cases ok')
      case ok: True
      with "1.prems"(3) True a u g obtain s4 where
        m: "call_MakeHessian c s3 = Some s4" and "s' = s4"
        by (auto simp add: DogLeg_inner.simps [of c false_cnt s] split: option.splits)
      then show ?thesis using k g3 by blast
    next
      case nok: False
      with "1.prems"(3) True a u g
      have run: "DogLeg_inner c (false_cnt + 1) (call_RollbackStates c s3) = Some (ok, cnt, s')"
        by (simp add: DogLeg_inner.simps [of c false_cnt s])
      have g4: "G (call_RollbackStates c s3)" using k g3 by blast
      from "1.IH" [OF True a u g [symmetric, THEN sym] refl nok "1.prems"(1) g4 run]
      show ?thesis .
    qed
  qed
qed

lemma SolveLM_value:
  "SolveLM c iterations s = Some (r, s') \<Longrightarrow>
     (r \<longleftrightarrow> \<not> edges_size_0 c s \<and> \<not> verticies_size_0 c s) \<and> (\<not> r \<longrightarrow> s' = s)"
  by (auto simp add: SolveLM_def split: if_splits option.splits)

lemma SolveDogLeg_value:
  "SolveDogLeg c iterations s = Some (r, s') \<Longrightarrow>
     (r \<longleftrightarrow> \<not> edges_size_0 c s \<and> \<not> verticies_size_0 c s) \<and> (\<not> r \<longrightarrow> s' = s)"
  by (auto simp add: SolveDogLeg_def split: if_splits option.splits)

lemma Solve_false:
  "edges_size_0 c s \<or> verticies_size_0 c s \<or> (type \<noteq> 0 \<and> type \<noteq> 1) \<Longrightarrow>
     Solve c type iterations s = Some (False, s)"
  by (auto simp add: Solve_def SolveLM_def SolveDogLeg_def)

lemma SolveLM_returns:
  assumes ne: "\<not> edges_size_0 c s \<and> \<not> verticies_size_0 c s"
    and tries: "LM_tries_return c I" and st: "\<exists>q. LM_setup c s = Some q \<and> I q"
  shows "\<exists>s'. SolveLM c iterations s = Some (True, s') \<and> I s'"
proof -
  from st obtain q where q: "LM_setup c s = Some q" "I q" by blast
  from LM_outer_returns [OF tries q(2), of iterations False 0 "Finite (10 ^ 20)"]
  obtain stop' iter' chi' s' where
    "LM_outer c iterations (False, 0, Finite (10 ^ 20), q) = Some (stop', iter', chi', s')" "I s'"
    by blast
  with ne q(1) show ?thesis by (simp add: SolveLM_def SolveLM_run_def)
qed

lemma SolveDogLeg_returns:
  assumes ne: "\<not> edges_size_0 c s \<and> \<not> verticies_size_0 c s"
    and tries: "DogLeg_tries_return c I" and st: "\<exists>q. DogLeg_setup c s = Some q \<and> I q"
  shows "\<exists>s'. SolveDogLeg c itertaions s = Some (True, s') \<and> I s'"
proof -
  from st obtain q where q: "DogLeg_setup c s = Some q" "I q" by blast
  from DogLeg_outer_returns [OF tries q(2), of itertaions False 0 "Finite 0"]
  obtain stop' iter' chi' s' where
    "DogLeg_outer c itertaions (False, 0, Finite 0, q) = Some (stop', iter', chi', s')" "I s'"
    by blast
  with ne q(1) show ?thesis by (simp add: SolveDogLeg_def SolveDogLeg_run_def)
qed

text \<open>
  Claim C7. \<^verbatim>\<open>Solve\<close> returns \<open>false\<close> if and only if the graph has no edge or no
  vertex, or the solver type is neither 0 nor 1, and then the state is left as it was.
  Every other run that returns gives \<open>true\<close>, whatever ended its loop, the iteration
  cap as well as the stopping test. And the other runs do return \<open>true\<close>: on a graph
  that is not empty, \<^verbatim>\<open>Solve(0, n)\<close> and \<^verbatim>\<open>Solve(1, n)\<close> return \<open>true\<close>
  for every \<open>n\<close> when the calls before the loop pass their assertions and every try of
  the inner loop does, from the states the run can reach (a set \<open>I\<close> of states that the
  tries do not leave). A run that an assertion stops returns nothing. The statement holds
  whatever the calls compute.
\<close>

theorem C7_Solve_return_value:
  "((\<exists>s'. Solve c type iterations s = Some (False, s'))
      \<longleftrightarrow> (edges_size_0 c s \<or> verticies_size_0 c s \<or> (type \<noteq> 0 \<and> type \<noteq> 1)))
   \<and> (\<forall>s'. Solve c type iterations s = Some (False, s') \<longrightarrow> s' = s)
   \<and> (\<forall>r s'. Solve c type iterations s = Some (r, s') \<longrightarrow>
         (r \<longleftrightarrow> \<not> edges_size_0 c s \<and> \<not> verticies_size_0 c s \<and> (type = 0 \<or> type = 1)))
   \<and> (\<not> edges_size_0 c s \<and> \<not> verticies_size_0 c s \<and> LM_tries_return c I
        \<and> (\<exists>q. LM_setup c s = Some q \<and> I q)
      \<longrightarrow> (\<exists>s'. Solve c 0 iterations s = Some (True, s') \<and> I s'))
   \<and> (\<not> edges_size_0 c s \<and> \<not> verticies_size_0 c s \<and> DogLeg_tries_return c I
        \<and> (\<exists>q. DogLeg_setup c s = Some q \<and> I q)
      \<longrightarrow> (\<exists>s'. Solve c 1 iterations s = Some (True, s') \<and> I s'))"
proof -
  have res: "(r \<longleftrightarrow> \<not> edges_size_0 c s \<and> \<not> verticies_size_0 c s \<and> (type = 0 \<or> type = 1))
      \<and> (\<not> r \<longrightarrow> s' = s)"
    if "Solve c type iterations s = Some (r, s')" for r s'
  proof (cases "type = 0")
    case True
    with that have "SolveLM c iterations s = Some (r, s')" by (simp add: Solve_def)
    from SolveLM_value [OF this] True show ?thesis by simp
  next
    case False
    show ?thesis
    proof (cases "type = 1")
      case True
      with that have "SolveDogLeg c iterations s = Some (r, s')" by (simp add: Solve_def)
      from SolveDogLeg_value [OF this] True show ?thesis by simp
    next
      case F: False
      with False that show ?thesis by (simp add: Solve_def)
    qed
  qed
  have a: "(\<exists>s'. Solve c type iterations s = Some (False, s'))
      \<longleftrightarrow> (edges_size_0 c s \<or> verticies_size_0 c s \<or> (type \<noteq> 0 \<and> type \<noteq> 1))"
  proof
    assume "\<exists>s'. Solve c type iterations s = Some (False, s')"
    then obtain s' where "Solve c type iterations s = Some (False, s')" by blast
    from res [OF this]
    show "edges_size_0 c s \<or> verticies_size_0 c s \<or> (type \<noteq> 0 \<and> type \<noteq> 1)" by blast
  next
    assume "edges_size_0 c s \<or> verticies_size_0 c s \<or> (type \<noteq> 0 \<and> type \<noteq> 1)"
    from Solve_false [OF this] show "\<exists>s'. Solve c type iterations s = Some (False, s')"
      by blast
  qed
  have d0: "\<exists>s'. Solve c 0 iterations s = Some (True, s') \<and> I s'"
    if "\<not> edges_size_0 c s \<and> \<not> verticies_size_0 c s \<and> LM_tries_return c I
        \<and> (\<exists>q. LM_setup c s = Some q \<and> I q)"
    using SolveLM_returns [of c s I iterations] that by (simp add: Solve_def)
  have d1: "\<exists>s'. Solve c 1 iterations s = Some (True, s') \<and> I s'"
    if "\<not> edges_size_0 c s \<and> \<not> verticies_size_0 c s \<and> DogLeg_tries_return c I
        \<and> (\<exists>q. DogLeg_setup c s = Some q \<and> I q)"
    using SolveDogLeg_returns [of c s I iterations] that by (simp add: Solve_def)
  show ?thesis
    apply (intro conjI allI impI)
        apply (rule a)
       apply (drule res, blast)
      apply (drule res, blast)
     apply (erule d0)
    apply (erule d1)
    done
qed


lemma DogLeg_first_iteration:
  assumes keep: "DogLeg_calls_keep c (chi_above c)" and q: "chi_above c q"
  shows "DogLeg_outer c itertaions (False, 0, Finite 0, q)
      = (if 1 \<le> itertaions
         then (case DogLeg_inner c 0 q of
                 None \<Rightarrow> None
               | Some (ok, cnt, s') \<Rightarrow> Some (True, 1, read_currentChi c s', s'))
         else Some (False, 0, Finite 0, q))"
proof (cases "1 \<le> itertaions")
  case False
  then show ?thesis by (simp add: DogLeg_outer.simps [of c itertaions False 0 "Finite 0" q])
next
  case True
  show ?thesis
  proof (cases "DogLeg_inner c 0 q")
    case None
    with True show ?thesis
      by (simp add: DogLeg_outer.simps [of c itertaions False 0 "Finite 0" q]
          DogLeg_iteration_def)
  next
    case (Some r)
    obtain ok cnt s' where r: "r = (ok, cnt, s')" by (cases r) auto
    from DogLeg_inner_keeps [OF keep q Some [unfolded r]] have "chi_above c s'" .
    then have "dbl_less (dbl_sub (Finite 0) (read_currentChi c s')) (1 / 10 ^ 5)"
      by (simp add: chi_above_def)
    with True Some r show ?thesis
      by (simp add: DogLeg_outer.simps [of c itertaions False 0 "Finite 0" q]
          DogLeg_iteration_def Let_def
          DogLeg_outer.simps [of c itertaions True 1 "read_currentChi c s'" s'])
  qed
qed

lemma SolveDogLeg_run_first:
  assumes init: "\<forall>s q. call_ComputeRadiusInitDogLeg c s = Some q \<longrightarrow> chi_above c q"
    and keep: "DogLeg_calls_keep c (chi_above c)"
  shows "SolveDogLeg_run c itertaions s
      = (case DogLeg_setup c s of
           None \<Rightarrow> None
         | Some q \<Rightarrow>
             (if 1 \<le> itertaions
              then (case DogLeg_inner c 0 q of
                      None \<Rightarrow> None
                    | Some (ok, cnt, s') \<Rightarrow> Some (True, 1, read_currentChi c s', s'))
              else Some (False, 0, Finite 0, q)))"
proof (cases "DogLeg_setup c s")
  case None
  then show ?thesis by (simp add: SolveDogLeg_run_def)
next
  case (Some q)
  then have "chi_above c q" using init
    by (auto simp add: DogLeg_setup_def split: option.splits)
  from DogLeg_first_iteration [OF keep this, of itertaions] Some show ?thesis
    by (simp add: SolveDogLeg_run_def)
qed


subsection \<open>The calls of the drivers on a problem\<close>

lemma SolveLinearSystem_chi:
  "SolveLinearSystem ext p = Some p' \<Longrightarrow> currentChi_m p' = currentChi_m p"
  by (auto simp add: SolveLinearSystem_def Let_def split: if_splits option.splits)

lemma UpdateStates_prior_chi:
  "UpdateStates_prior p = Some p' \<Longrightarrow> currentChi_m p' = currentChi_m p"
  by (auto simp add: UpdateStates_prior_def Let_def split: if_splits)

lemma UpdateStates_chi:
  "UpdateStates ext p = Some p' \<Longrightarrow> currentChi_m p' = currentChi_m p"
  by (auto simp add: UpdateStates_def split: option.splits dest: UpdateStates_prior_chi)

lemma RollbackStates_chi: "currentChi_m (RollbackStates p) = currentChi_m p"
  by (simp add: RollbackStates_def Let_def)

lemma MakeHessian_chi:
  "MakeHessian ext p = Some p' \<Longrightarrow> currentChi_m p' = currentChi_m p"
  by (auto simp add: MakeHessian_def MakeHessianMulti_def Let_def
      split: if_splits option.splits)

lemma IsGoodStepInLM_reject_chi:
  "IsGoodStepInLM ext p = Some (False, p') \<Longrightarrow> currentChi_m p' = currentChi_m p"
  by (auto simp add: IsGoodStepInLM_def Let_def split: if_splits option.splits)

lemma SolveDogLegStep_chi:
  "SolveDogLegStep ext p = Some p' \<Longrightarrow> currentChi_m p' = currentChi_m p"
  by (auto simp add: SolveDogLegStep_def Let_def split: if_splits option.splits)

lemma add_chi2_nonneg:
  assumes "\<forall>e c. RobustChi2 ext e = Some c \<longrightarrow> 0 \<le> c"
    and "add_chi2 ext acc es = Some t" and "\<forall>a. acc = Some a \<longrightarrow> 0 \<le> a"
  shows "0 \<le> t"
  using assms(2,3)
proof (induction es arbitrary: acc)
  case Nil
  then show ?case by simp
next
  case (Cons e es)
  show ?case
  proof (rule Cons.IH)
    show "add_chi2 ext (case acc of None \<Rightarrow> None
        | Some a \<Rightarrow> (case RobustChi2 ext e of None \<Rightarrow> None | Some c \<Rightarrow> Some (a + c))) es = Some t"
      using Cons.prems(1) by simp
    show "\<forall>a. (case acc of None \<Rightarrow> None
        | Some a \<Rightarrow> (case RobustChi2 ext e of None \<Rightarrow> None | Some c \<Rightarrow> Some (a + c))) = Some a
        \<longrightarrow> 0 \<le> a"
      using Cons.prems(2) assms(1) by (auto split: option.splits)
  qed
qed

lemma LM_tempChi_nonneg:
  assumes "\<forall>e c. RobustChi2 ext e = Some c \<longrightarrow> 0 \<le> c" and "LM_tempChi ext p = Some t"
  shows "0 \<le> t"
proof (cases "add_chi2 ext (Some 0)
    (map (\<lambda>(k, e). edge_ComputeResidual ext (store p) e) (edges_m p))")
  case None
  with assms(2) show ?thesis by (simp add: LM_tempChi_def Let_def split: if_splits)
next
  case (Some s)
  have "0 \<le> s" using assms(1) Some by (rule add_chi2_nonneg) simp
  then show ?thesis using assms(2) Some squaredNorm_nonneg [of "err_prior_m p"]
    by (auto simp add: LM_tempChi_def Let_def split: if_splits)
qed

lemma chi_of_edges_nonneg:
  assumes "\<forall>e c. RobustChi2 ext e = Some c \<longrightarrow> 0 \<le> c" and "chi_of_edges ext p = Some t"
  shows "0 \<le> t"
proof (cases "add_chi2 ext (Some 0) (map snd (edges_m p))")
  case None
  with assms(2) show ?thesis by (simp add: chi_of_edges_def Let_def split: if_splits)
next
  case (Some s)
  have "0 \<le> s" using assms(1) Some by (rule add_chi2_nonneg) simp
  then show ?thesis using assms(2) Some squaredNorm_nonneg [of "err_prior_m p"]
    by (auto simp add: chi_of_edges_def Let_def split: if_splits)
qed

lemma ComputeRadiusInitDogLeg_nonneg:
  assumes "\<forall>e c. RobustChi2 ext e = Some c \<longrightarrow> 0 \<le> c"
    and "ComputeRadiusInitDogLeg ext p = Some q"
  shows "0 \<le> currentChi_m q"
proof -
  from assms(2) obtain chi where
    c: "chi_of_edges ext (p\<lparr>currentChi_m := 0\<rparr>) = Some chi" and q: "currentChi_m q = chi"
    by (auto simp add: ComputeRadiusInitDogLeg_def Let_def split: option.splits)
  from chi_of_edges_nonneg [OF assms(1) c] q show ?thesis by simp
qed

lemma IsGoodStepInDogLeg_nonneg:
  assumes "\<forall>e c. RobustChi2 ext e = Some c \<longrightarrow> 0 \<le> c"
    and "IsGoodStepInDogLeg ext p = Some (ok, p')" and "0 \<le> currentChi_m p"
  shows "0 \<le> currentChi_m p'"
proof (cases "LM_tempChi ext p")
  case None
  with assms(2,3) show ?thesis
    by (auto simp add: IsGoodStepInDogLeg_def Let_def split: if_splits)
next
  case (Some t)
  from LM_tempChi_nonneg [OF assms(1) Some] have "0 \<le> t" .
  with assms(2,3) Some show ?thesis
    by (auto simp add: IsGoodStepInDogLeg_def Let_def split: if_splits)
qed

lemma IsGoodStepInDogLeg_chi:
  assumes "IsGoodStepInDogLeg ext p = Some (ok, p')"
  shows "currentChi_m p' = currentChi_m p \<or> LM_tempChi ext p = Some (currentChi_m p')"
proof (cases "LM_tempChi ext p")
  case None
  with assms show ?thesis
    by (auto simp add: IsGoodStepInDogLeg_def Let_def split: if_splits)
next
  case (Some t)
  with assms show ?thesis
    by (auto simp add: IsGoodStepInDogLeg_def Let_def split: if_splits)
qed

lemma Problem_calls_fields [simp]:
  "edges_size_0 (Problem_calls ext) p = (length (edges_m p) = 0)"
  "verticies_size_0 (Problem_calls ext) p = (length (verticies_m p) = 0)"
  "call_SetOrdering (Problem_calls ext) = SetOrdering"
  "call_MakeHessian (Problem_calls ext) = MakeHessian ext"
  "call_ComputeLambdaInitLM (Problem_calls ext) = ComputeLambdaInitLM ext"
  "call_ComputeRadiusInitDogLeg (Problem_calls ext) = ComputeRadiusInitDogLeg ext"
  "call_SolveLinearSystem (Problem_calls ext) = SolveLinearSystem ext"
  "call_SolveDogLegStep (Problem_calls ext) = SolveDogLegStep ext"
  "call_UpdateStates (Problem_calls ext) = UpdateStates ext"
  "call_IsGoodStepInLM (Problem_calls ext) = IsGoodStepInLM ext"
  "call_IsGoodStepInDogLeg (Problem_calls ext) = IsGoodStepInDogLeg ext"
  "call_RollbackStates (Problem_calls ext) = RollbackStates"
  "read_currentChi (Problem_calls ext) p = Finite (currentChi_m p)"
  "read_b_norm (Problem_calls ext) p = Finite (norm_v (b_m p))"
  by (simp_all add: Problem_calls_def)

lemma chi_above_Problem:
  "chi_above (Problem_calls ext) p \<longleftrightarrow> 0 - currentChi_m p < 1 / 10 ^ 5"
  by (simp add: chi_above_def)

lemma Problem_calls_init:
  assumes nonneg: "\<forall>e c. RobustChi2 ext e = Some c \<longrightarrow> 0 \<le> c"
  shows "\<forall>p q. call_ComputeRadiusInitDogLeg (Problem_calls ext) p = Some q
           \<longrightarrow> chi_above (Problem_calls ext) q"
proof (intro allI impI)
  fix p q
  assume "call_ComputeRadiusInitDogLeg (Problem_calls ext) p = Some q"
  then have "ComputeRadiusInitDogLeg ext p = Some q" by simp
  from ComputeRadiusInitDogLeg_nonneg [OF nonneg this]
  show "chi_above (Problem_calls ext) q" by (simp add: chi_above_Problem)
qed

lemma Problem_calls_keep:
  assumes nonneg: "\<forall>e c. RobustChi2 ext e = Some c \<longrightarrow> 0 \<le> c"
  shows "DogLeg_calls_keep (Problem_calls ext) (chi_above (Problem_calls ext))"
proof -
  have a: "chi_above (Problem_calls ext) p'"
    if "chi_above (Problem_calls ext) p" "SolveDogLegStep ext p = Some p'" for p p'
    using that SolveDogLegStep_chi [OF that(2)] by (simp add: chi_above_Problem)
  have b: "chi_above (Problem_calls ext) p'"
    if "chi_above (Problem_calls ext) p" "UpdateStates ext p = Some p'" for p p'
    using that UpdateStates_chi [OF that(2)] by (simp add: chi_above_Problem)
  have c: "chi_above (Problem_calls ext) p'"
    if "chi_above (Problem_calls ext) p" "IsGoodStepInDogLeg ext p = Some (ok, p')"
    for p ok p'
  proof -
    from IsGoodStepInDogLeg_chi [OF that(2)]
    show ?thesis
    proof
      assume "currentChi_m p' = currentChi_m p"
      with that(1) show ?thesis by (simp add: chi_above_Problem)
    next
      assume "LM_tempChi ext p = Some (currentChi_m p')"
      from LM_tempChi_nonneg [OF nonneg this] show ?thesis by (simp add: chi_above_Problem)
    qed
  qed
  have d: "chi_above (Problem_calls ext) p'"
    if "chi_above (Problem_calls ext) p" "MakeHessian ext p = Some p'" for p p'
    using that MakeHessian_chi [OF that(2)] by (simp add: chi_above_Problem)
  have e: "chi_above (Problem_calls ext) (RollbackStates p)"
    if "chi_above (Problem_calls ext) p" for p
    using that by (simp add: chi_above_Problem RollbackStates_chi)
  show ?thesis
    unfolding DogLeg_calls_keep_def Problem_calls_fields
    using a b c d e by blast
qed

text \<open>
  For the calls on a problem the two conditions hold when the robust cost of an edge is
  never negative; then a run of \<^verbatim>\<open>SolveDogLeg\<close> with a cap of at least one that
  returns has made one iteration.
\<close>

lemma Problem_SolveDogLeg_one_iteration:
  assumes nonneg: "\<forall>e c. RobustChi2 ext e = Some c \<longrightarrow> 0 \<le> c"
    and cap: "1 \<le> itertaions"
    and run: "SolveDogLeg_run (Problem_calls ext) itertaions p = Some (stop, iter, last_chi, p')"
  shows "stop \<and> iter = 1"
  using run cap
  unfolding SolveDogLeg_run_first [OF Problem_calls_init [OF nonneg] Problem_calls_keep [OF nonneg]]
  by (auto split: option.splits)

subsection \<open>Concrete runs of the drivers\<close>

lemma ex_calls_fields [simp]:
  "edges_size_0 ex_calls p = (length (edges_m p) = 0)"
  "verticies_size_0 ex_calls p = (length (verticies_m p) = 0)"
  "call_SetOrdering ex_calls = SetOrdering"
  "call_MakeHessian ex_calls = MakeHessian ex_ext"
  "call_ComputeLambdaInitLM ex_calls = ComputeLambdaInitLM ex_ext"
  "call_ComputeRadiusInitDogLeg ex_calls = ComputeRadiusInitDogLeg ex_ext"
  "call_SolveLinearSystem ex_calls = SolveLinearSystem ex_ext"
  "call_SolveDogLegStep ex_calls = SolveDogLegStep ex_ext"
  "call_UpdateStates ex_calls = UpdateStates ex_ext"
  "call_IsGoodStepInLM ex_calls = IsGoodStepInLM ex_ext"
  "call_IsGoodStepInDogLeg ex_calls = IsGoodStepInDogLeg ex_ext"
  "call_RollbackStates ex_calls = RollbackStates"
  "read_currentChi ex_calls p = Finite (currentChi_m p)"
  "read_b_norm ex_calls p = Finite (norm_v (b_m p))"
  by (simp_all add: ex_calls_def)

lemma ex_line_SetOrdering:
  "SetOrdering (ex_line x) = (ex_line x)\<lparr>ordering_generic_m := 1\<rparr>"
  by (simp add: SetOrdering_def Let_def SetOrdering_visit_def ex_line_def ex_empty_def
      ex_vertex_def)

lemma MatXX_Zero_size [simp]: "rows (MatXX_Zero r c) = r" "cols (MatXX_Zero r c) = c"
  by (simp_all add: MatXX_Zero_def)

lemma scalar_mat_size [simp]: "rows (scalar_mat a) = 1" "cols (scalar_mat a) = 1"
  by (simp_all add: scalar_mat_def)

lemma scalar_mat_coeff [simp]: "coeff (scalar_mat a) 0 0 = a"
  by (simp add: scalar_mat_def)

lemma scalar_block: "add_block (MatXX_Zero (Suc 0) (Suc 0)) 0 0 (scalar_mat a) = scalar_mat a"
  by (simp add: add_block_def MatXX_Zero_def scalar_mat_def in_block_def fun_eq_iff)

lemma scalar_product:
  "mat_mul (mat_mul (transpose_m (scalar_mat a)) (scalar_mat w)) (scalar_mat c)
     = scalar_mat (a * w * c)"
  by (simp add: mat_mul_def transpose_m_def scalar_mat_def upt_1 fun_eq_iff)

lemma thd_indices_one_edge:
  "thd_indices 0 4 (Suc 0) = [0]" "thd_indices (Suc 0) 4 (Suc 0) = []"
  "thd_indices 2 4 (Suc 0) = []" "thd_indices 3 4 (Suc 0) = []"
  by (simp_all add: thd_indices_def)

lemma ex_line_MakeHessian:
  "MakeHessian ex_ext ((ex_line x)\<lparr>ordering_generic_m := 1\<rparr>)
     = Some (ex_line_assembled x)"
  by (simp add: MakeHessian_def MakeHessianMulti_def thdCalcHessian_def thd_indices_one_edge
      upt_4 ex_line_assembled_def ex_line_def
      ex_empty_def ex_ext_def ex_edge_def ex_vertex_def edge_ComputeJacobians_def
      edge_ComputeResidual_def Let_def upt_1 block_ok_def scalar_product scalar_block
      segment_sub_def smult_def mat_vec_def vsub_def)
    (simp add: mat_mul_def transpose_m_def upt_1)

lemmas ex_line_defs = ex_lm_running_def ex_line_assembled_def ex_line_def ex_empty_def
  ex_ext_def ex_edge_def ex_vertex_def

lemma ex_line_ComputeLambdaInitLM:
  "ComputeLambdaInitLM ex_ext (ex_line_assembled 0) = Some (ex_lm_running (1 / 10 ^ 5) 2)"
  by (simp add: ComputeLambdaInitLM_def chi_of_edges_def Let_def ex_line_defs squaredNorm_def
      upt_1)

lemma ex_line_LM_setup: "LM_setup ex_calls (ex_line 0) = Some (ex_lm_running (1 / 10 ^ 5) 2)"
  by (simp only: LM_setup_def ex_calls_fields ex_line_SetOrdering ex_line_MakeHessian
      ex_line_ComputeLambdaInitLM option.case)

lemma ex_lm_SolveLinearSystem:
  "SolveLinearSystem ex_ext (ex_lm_running l n) = Some (ex_lm_running l n)"
  by (simp add: SolveLinearSystem_def Let_def ex_line_defs add_diagonal_def diag_solve_def
      upt_1)

lemma ex_lm_UpdateStates:
  "UpdateStates ex_ext (ex_lm_running l n) = Some (ex_lm_running l n)"
  by (simp add: UpdateStates_def UpdateStates_prior_def Let_def ex_line_defs
      BackUpParameters_def vadd_def fun_eq_iff)

lemma ex_lm_IsGoodStepInLM:
  "IsGoodStepInLM ex_ext (ex_lm_running l n) = Some (False, ex_lm_running (l * n) (n * 2))"
  by (simp add: IsGoodStepInLM_def LM_tempChi_def LM_scale_def Let_def ex_line_defs
      edge_ComputeResidual_def squaredNorm_def dot_def vadd_def smult_def)

lemma ex_lm_RollbackStates:
  "RollbackStates (ex_lm_running l n) = ex_lm_running l n"
  by (simp add: RollbackStates_def Let_def ex_line_defs RollBackParameters_def fun_eq_iff)

lemma ex_lm_try:
  "LM_inner ex_calls k (ex_lm_running l n) =
     (if k < 10 then LM_inner ex_calls (k + 1) (ex_lm_running (l * n) (n * 2))
      else Some (False, k, ex_lm_running l n))"
  by (simp add: LM_inner.simps [of ex_calls k "ex_lm_running l n"] ex_lm_SolveLinearSystem
      ex_lm_UpdateStates ex_lm_IsGoodStepInLM ex_lm_RollbackStates)

lemma ex_lm_ten_rejections:
  "LM_inner ex_calls 0 (ex_lm_running l n)
     = Some (False, 10, ex_lm_running (l * n ^ 10 * 2 ^ 45) (n * 2 ^ 10))"
proof -
  have eq: "ex_lm_running a b = ex_lm_running c d" if "a = c" "b = d" for a b c d
    using that by simp
  show ?thesis
    by (simp add: ex_lm_try) (rule eq; simp add: power_def)
qed

lemma ex_lm_chi [simp]: "currentChi_m (ex_lm_running l n) = 0"
  by (simp add: ex_lm_running_def)

lemma ex_lm_first_iteration:
  "LM_iteration ex_calls (Finite (10 ^ 20)) (ex_lm_running (1 / 10 ^ 5) 2)
     = Some (False, Finite 0, 10, ex_lm_running (2 ^ 55 / 10 ^ 5) (2 ^ 11))"
  by (simp add: LM_iteration_def ex_lm_ten_rejections)


lemma ex_lm_cap:
  "LM_outer ex_calls 1 (False, 0, Finite (10 ^ 20), ex_lm_running (1 / 10 ^ 5) 2)
     = Some (False, 1, Finite 0, ex_lm_running (2 ^ 55 / 10 ^ 5) (2 ^ 11))"
  using ex_lm_first_iteration
  by (simp add: LM_outer.simps [of ex_calls 1 False 0] LM_outer.simps [of ex_calls 1 False 1])


lemma ex_line_nonempty:
  "(edges_size_0 ex_calls (ex_line x) \<or> verticies_size_0 ex_calls (ex_line x)) = False"
  by (simp add: ex_line_def)

lemma ex_line_run_cap:
  "SolveLM_run ex_calls 1 (ex_line 0)
     = Some (False, 1, Finite 0, ex_lm_running (2 ^ 55 / 10 ^ 5) (2 ^ 11))"
  by (simp only: SolveLM_run_def ex_line_LM_setup ex_lm_cap option.case)


lemma ex_line_Solve_cap:
  "Solve ex_calls 0 1 (ex_line 0) = Some (True, ex_lm_running (2 ^ 55 / 10 ^ 5) (2 ^ 11))"
  by (simp only: Solve_def SolveLM_def ex_line_run_cap ex_line_nonempty if_True if_False
      option.case prod.case refl)

lemma ex_lm_tries: "LM_tries_return ex_calls (\<lambda>p. \<exists>l n. p = ex_lm_running l n)"
  unfolding LM_tries_return_def
proof (intro allI impI)
  fix s assume "\<exists>l n. s = ex_lm_running l n"
  then obtain l n where s: "s = ex_lm_running l n" by blast
  show "\<exists>s1 s2 ok s3. call_SolveLinearSystem ex_calls s = Some s1
      \<and> call_UpdateStates ex_calls s1 = Some s2
      \<and> call_IsGoodStepInLM ex_calls s2 = Some (ok, s3)
      \<and> (if ok then \<exists>s4. call_MakeHessian ex_calls s3 = Some s4
                       \<and> (\<exists>l n. s4 = ex_lm_running l n)
          else \<exists>l n. call_RollbackStates ex_calls s3 = ex_lm_running l n)"
    apply (rule exI [of _ "ex_lm_running l n"])
    apply (rule exI [of _ "ex_lm_running l n"])
    apply (rule exI [of _ False])
    apply (rule exI [of _ "ex_lm_running (l * n) (n * 2)"])
    apply (simp add: s ex_lm_SolveLinearSystem ex_lm_UpdateStates ex_lm_IsGoodStepInLM
        ex_lm_RollbackStates)
    apply blast
    done
qed

lemmas ex_dl_defs = ex_dl_rest_def ex_dl_still_def ex_dl_end_def ex_dl_accepted_def
  ex_dl_updated_def ex_dl_step_def ex_dl_start_def ex_line_assembled_def ex_line_def
  ex_empty_def ex_ext_def ex_edge_def ex_vertex_def

lemma ex_dl_init:
  "ComputeRadiusInitDogLeg ex_ext (ex_line_assembled 2) = Some ex_dl_start"
  by (simp add: ComputeRadiusInitDogLeg_def chi_of_edges_def Let_def ex_dl_defs squaredNorm_def)

lemma ex_dl_setup: "DogLeg_setup ex_calls (ex_line 2) = Some ex_dl_start"
  by (simp only: DogLeg_setup_def ex_calls_fields ex_line_SetOrdering ex_line_MakeHessian
      ex_dl_init option.case)

lemma ex_dl_SolveDogLegStep: "SolveDogLegStep ex_ext ex_dl_start = Some ex_dl_step"
  by (simp add: SolveDogLegStep_def Let_def ex_dl_defs diag_solve_def upt_1 dot_def mat_vec_def
      squaredNorm_def norm_v_def)

lemma ex_dl_UpdateStates: "UpdateStates ex_ext ex_dl_step = Some ex_dl_updated"
  by (simp add: UpdateStates_def UpdateStates_prior_def Let_def ex_dl_defs
      BackUpParameters_def vadd_def fun_eq_iff)

lemma ex_dl_IsGoodStep: "IsGoodStepInDogLeg ex_ext ex_dl_updated = Some (True, ex_dl_accepted)"
  by (simp add: IsGoodStepInDogLeg_def DogLeg_scale_def LM_tempChi_def Let_def ex_dl_defs
      edge_ComputeResidual_def squaredNorm_def norm_v_def dbl_div_def)

lemma ex_dl_MakeHessian: "MakeHessian ex_ext ex_dl_accepted = Some ex_dl_end"
  by (simp add: MakeHessian_def MakeHessianMulti_def thdCalcHessian_def thd_indices_one_edge
      upt_4 ex_dl_defs
      edge_ComputeJacobians_def edge_ComputeResidual_def Let_def upt_1 block_ok_def
      scalar_product scalar_block segment_sub_def smult_def mat_vec_def vsub_def)
    (simp add: mat_mul_def transpose_m_def upt_1)

lemma ex_dl_inner: "DogLeg_inner ex_calls 0 ex_dl_start = Some (True, 0, ex_dl_end)"
  by (simp add: DogLeg_inner.simps [of ex_calls 0 ex_dl_start] ex_dl_SolveDogLegStep
      ex_dl_UpdateStates ex_dl_IsGoodStep ex_dl_MakeHessian)

lemma ex_dl_end_chi: "currentChi_m ex_dl_end = 0"
  by (simp add: ex_dl_end_def ex_dl_accepted_def)

lemma ex_dl_iteration:
  "DogLeg_iteration ex_calls (Finite 0) ex_dl_start = Some (True, Finite 0, 0, ex_dl_end)"
  by (simp add: DogLeg_iteration_def ex_dl_inner ex_dl_end_chi)

lemma ex_dl_outer:
  "DogLeg_outer ex_calls 5 (False, 0, Finite 0, ex_dl_start)
     = Some (True, 1, Finite 0, ex_dl_end)"
  by (simp add: DogLeg_outer.simps [of ex_calls 5 False 0] DogLeg_outer.simps [of ex_calls 5 True 1]
      ex_dl_iteration)

lemma ex_dl_run: "SolveDogLeg_run ex_calls 5 (ex_line 2) = Some (True, 1, Finite 0, ex_dl_end)"
  by (simp only: SolveDogLeg_run_def ex_dl_setup ex_dl_outer option.case)


lemma ex_dl_Solve: "Solve ex_calls 1 5 (ex_line 2) = Some (True, ex_dl_end)"
  using ex_line_nonempty [of 2] by (simp add: Solve_def SolveDogLeg_def ex_dl_run)


lemma ex_dl_end_step: "SolveDogLegStep ex_ext ex_dl_end = Some ex_dl_still"
  by (simp add: SolveDogLegStep_def Let_def ex_dl_defs diag_solve_def upt_1 dot_def mat_vec_def
      squaredNorm_def norm_v_def)

lemma ex_dl_still_update: "UpdateStates ex_ext ex_dl_still = Some ex_dl_rest"
  by (simp add: UpdateStates_def UpdateStates_prior_def Let_def ex_dl_defs
      BackUpParameters_def vadd_def fun_eq_iff)

lemma ex_dl_rest_good: "IsGoodStepInDogLeg ex_ext ex_dl_rest = Some (False, ex_dl_rest)"
  by (simp add: IsGoodStepInDogLeg_def DogLeg_scale_def LM_tempChi_def Let_def ex_dl_defs
      edge_ComputeResidual_def squaredNorm_def norm_v_def dbl_div_def)

lemma ex_dl_rest_rollback: "RollbackStates ex_dl_rest = ex_dl_rest"
  by (simp add: RollbackStates_def Let_def ex_dl_defs RollBackParameters_def fun_eq_iff)

lemma ex_dl_rest_step: "SolveDogLegStep ex_ext ex_dl_rest = Some ex_dl_rest"
  by (simp add: SolveDogLegStep_def Let_def ex_dl_defs diag_solve_def upt_1 dot_def mat_vec_def
      squaredNorm_def norm_v_def)

lemma ex_dl_rest_update: "UpdateStates ex_ext ex_dl_rest = Some ex_dl_rest"
  by (simp add: UpdateStates_def UpdateStates_prior_def Let_def ex_dl_defs
      BackUpParameters_def vadd_def fun_eq_iff)

lemma ex_dl_tries:
  "DogLeg_tries_return ex_calls (\<lambda>p. p = ex_dl_start \<or> p = ex_dl_end \<or> p = ex_dl_rest)"
  unfolding DogLeg_tries_return_def
proof (intro allI impI)
  fix s assume "s = ex_dl_start \<or> s = ex_dl_end \<or> s = ex_dl_rest"
  then consider "s = ex_dl_start" | "s = ex_dl_end" | "s = ex_dl_rest" by blast
  then show "\<exists>s1 s2 ok s3. call_SolveDogLegStep ex_calls s = Some s1
      \<and> call_UpdateStates ex_calls s1 = Some s2
      \<and> call_IsGoodStepInDogLeg ex_calls s2 = Some (ok, s3)
      \<and> (if ok then \<exists>s4. call_MakeHessian ex_calls s3 = Some s4
                       \<and> (s4 = ex_dl_start \<or> s4 = ex_dl_end \<or> s4 = ex_dl_rest)
          else call_RollbackStates ex_calls s3 = ex_dl_start
             \<or> call_RollbackStates ex_calls s3 = ex_dl_end
             \<or> call_RollbackStates ex_calls s3 = ex_dl_rest)"
  proof cases
    case 1
    show ?thesis
      apply (rule exI [of _ ex_dl_step])
      apply (rule exI [of _ ex_dl_updated])
      apply (rule exI [of _ True])
      apply (rule exI [of _ ex_dl_accepted])
      apply (simp add: 1 ex_dl_SolveDogLegStep ex_dl_UpdateStates ex_dl_IsGoodStep
          ex_dl_MakeHessian)
      done
  next
    case 2
    show ?thesis
      apply (rule exI [of _ ex_dl_still])
      apply (rule exI [of _ ex_dl_rest])
      apply (rule exI [of _ False])
      apply (rule exI [of _ ex_dl_rest])
      apply (simp add: 2 ex_dl_end_step ex_dl_still_update ex_dl_rest_good ex_dl_rest_rollback)
      done
  next
    case 3
    show ?thesis
      apply (rule exI [of _ ex_dl_rest])
      apply (rule exI [of _ ex_dl_rest])
      apply (rule exI [of _ False])
      apply (rule exI [of _ ex_dl_rest])
      apply (simp add: 3 ex_dl_rest_step ex_dl_rest_update ex_dl_rest_good ex_dl_rest_rollback)
      done
  qed
qed



theorem C7_Solve_return_value_witness:
  "Solve ex_calls 0 1 (ex_line 0) = Some (True, ex_lm_running (2 ^ 55 / 10 ^ 5) (2 ^ 11))
   \<and> SolveLM_run ex_calls 1 (ex_line 0)
     = Some (False, 1, Finite 0, ex_lm_running (2 ^ 55 / 10 ^ 5) (2 ^ 11))
   \<and> Solve ex_calls 1 5 (ex_line 2) = Some (True, ex_dl_end)
   \<and> \<not> edges_size_0 ex_calls (ex_line 0) \<and> \<not> verticies_size_0 ex_calls (ex_line 0)
   \<and> Solve ex_calls 2 1 (ex_line 0) = Some (False, ex_line 0)
   \<and> Solve ex_calls 0 1 (ex_empty GENERIC_PROBLEM) = Some (False, ex_empty GENERIC_PROBLEM)
   \<and> LM_tries_return ex_calls (\<lambda>p. \<exists>l n. p = ex_lm_running l n)
   \<and> (\<exists>s'. Solve ex_calls 0 7 (ex_line 0) = Some (True, s') \<and> (\<exists>l n. s' = ex_lm_running l n))
   \<and> DogLeg_tries_return ex_calls (\<lambda>p. p = ex_dl_start \<or> p = ex_dl_end \<or> p = ex_dl_rest)
   \<and> (\<exists>s'. Solve ex_calls 1 7 (ex_line 2) = Some (True, s')
         \<and> (s' = ex_dl_start \<or> s' = ex_dl_end \<or> s' = ex_dl_rest))"
proof -
  from C7_Solve_return_value [of ex_calls 0 1 "ex_line 0"] ex_line_Solve_cap
  have a: "\<not> edges_size_0 ex_calls (ex_line 0) \<and> \<not> verticies_size_0 ex_calls (ex_line 0)"
    by blast
  from C7_Solve_return_value [of ex_calls 2 1 "ex_line 0" "\<lambda>p. False"]
  have b: "Solve ex_calls 2 1 (ex_line 0) = Some (False, ex_line 0)" by fastforce
  have "edges_size_0 ex_calls (ex_empty GENERIC_PROBLEM)" by (simp add: ex_empty_def)
  with C7_Solve_return_value [of ex_calls 0 1 "ex_empty GENERIC_PROBLEM" "\<lambda>p. False"]
  have c: "Solve ex_calls 0 1 (ex_empty GENERIC_PROBLEM) = Some (False, ex_empty GENERIC_PROBLEM)"
    by fastforce
  have q0: "\<exists>q. LM_setup ex_calls (ex_line 0) = Some q \<and> (\<exists>l n. q = ex_lm_running l n)"
    using ex_line_LM_setup by blast
  from C7_Solve_return_value [of ex_calls 0 7 "ex_line 0" "\<lambda>p. \<exists>l n. p = ex_lm_running l n"]
    a ex_lm_tries q0
  have d: "\<exists>s'. Solve ex_calls 0 7 (ex_line 0) = Some (True, s') \<and> (\<exists>l n. s' = ex_lm_running l n)"
    by blast
  have ne2: "\<not> edges_size_0 ex_calls (ex_line 2) \<and> \<not> verticies_size_0 ex_calls (ex_line 2)"
    by (simp add: ex_line_def)
  have q1: "\<exists>q. DogLeg_setup ex_calls (ex_line 2) = Some q
      \<and> (q = ex_dl_start \<or> q = ex_dl_end \<or> q = ex_dl_rest)"
    using ex_dl_setup by blast
  from C7_Solve_return_value [of ex_calls 1 7 "ex_line 2"
      "\<lambda>p. p = ex_dl_start \<or> p = ex_dl_end \<or> p = ex_dl_rest"] ne2 ex_dl_tries q1
  have e: "\<exists>s'. Solve ex_calls 1 7 (ex_line 2) = Some (True, s')
         \<and> (s' = ex_dl_start \<or> s' = ex_dl_end \<or> s' = ex_dl_rest)"
    by blast
  show ?thesis
    using ex_line_Solve_cap ex_line_run_cap ex_dl_Solve a b c ex_lm_tries d ex_dl_tries e
    by blast
qed



end
